(* ===== verification/Fixus_Prelude.thy ===== *)
theory Fixus_Prelude
  imports Main "HOL-Library.AList" "HOL-Library.Multiset"
begin

text \<open>
  Shared ground of the development: the result and state-passing combinators that stand for
  Rust's \<open>Result\<close>, \<open>?\<close> and \<open>&mut self\<close>, the machine-integer casts, decimal printing and
  parsing of integers (\<open>to_string\<close> / \<open>parse::<i64>\<close>), the JSON values the program exchanges
  and the hash maps it keeps.
\<close>

section \<open>Lemma collections\<close>

named_theorems op_simps \<open>unfolding of the state-passing combinators\<close>
named_theorems json_simps \<open>evaluation of JSON accessors\<close>
named_theorems inv_intros \<open>invariant preservation, one rule per operation\<close>

section \<open>Results and operations\<close>

text \<open>
  A fallible call returns \<open>error + 'a\<close>: \<open>Inl\<close> is Rust's \<open>Err\<close>, \<open>Inr\<close> its \<open>Ok\<close>.
  An operation on a mutable state \<open>'s\<close> returns the result with the new state; the state
  changes made before an error stay, as they do in the program.
\<close>

type_synonym ('e, 's, 'a) opn = "'s \<Rightarrow> ('e + 'a) \<times> 's"

definition ok :: "'a \<Rightarrow> ('e, 's, 'a) opn" where
  "ok x = (\<lambda>s. (Inr x, s))"

definition err :: "'e \<Rightarrow> ('e, 's, 'a) opn" where
  "err e = (\<lambda>s. (Inl e, s))"

text \<open>\<open>andThen m f\<close> is \<open>let x = m.await?; f(x)\<close>.\<close>

definition andThen :: "('e, 's, 'a) opn \<Rightarrow> ('a \<Rightarrow> ('e, 's, 'b) opn) \<Rightarrow> ('e, 's, 'b) opn" where
  "andThen m f = (\<lambda>s. case m s of (Inl e, s') \<Rightarrow> (Inl e, s') | (Inr x, s') \<Rightarrow> f x s')"

text \<open>\<open>attempt m f\<close> is \<open>match m.await { r => f(r) }\<close>: the error is a value.\<close>

definition attempt :: "('e, 's, 'a) opn \<Rightarrow> (('e + 'a) \<Rightarrow> ('e, 's, 'b) opn) \<Rightarrow> ('e, 's, 'b) opn" where
  "attempt m f = (\<lambda>s. case m s of (r, s') \<Rightarrow> f r s')"

definition lift_res :: "('e + 'a) \<Rightarrow> ('e, 's, 'a) opn" where
  "lift_res r = (\<lambda>s. (r, s))"

lemma ok_apply [simp, op_simps]: "ok x s = (Inr x, s)"
  by (simp add: ok_def)

lemma err_apply [simp, op_simps]: "err e s = (Inl e, s)"
  by (simp add: err_def)

lemma lift_res_apply [simp, op_simps]: "lift_res r s = (r, s)"
  by (simp add: lift_res_def)

lemma andThen_apply [op_simps]:
  "andThen m f s = (case m s of (Inl e, s') \<Rightarrow> (Inl e, s') | (Inr x, s') \<Rightarrow> f x s')"
  by (simp add: andThen_def)

lemma attempt_apply [op_simps]: "attempt m f s = (case m s of (r, s') \<Rightarrow> f r s')"
  by (simp add: attempt_def)

lemma andThen_Inr_iff:
  "andThen m f s = (Inr y, t) \<longleftrightarrow> (\<exists>x s'. m s = (Inr x, s') \<and> f x s' = (Inr y, t))"
  by (auto simp: andThen_def split: prod.splits sum.splits)

lemma andThen_cases:
  assumes "andThen m f s = (r, t)"
  obtains (err) e where "m s = (Inl e, t)" "r = Inl e"
    | (ok) x s' where "m s = (Inr x, s')" "f x s' = (r, t)"
  using assms by (auto simp: andThen_def split: prod.splits sum.splits)

text \<open>The loop \<open>for x in xs { body(x).await?; }\<close>, stopping at the first error.\<close>

fun for_each :: "('a \<Rightarrow> ('e, 's, unit) opn) \<Rightarrow> 'a list \<Rightarrow> ('e, 's, unit) opn" where
  "for_each body [] = ok ()"
| "for_each body (x # xs) = andThen (body x) (\<lambda>_. for_each body xs)"

lemma andThen_ok_iff:
  "andThen m (\<lambda>_. ok y) s = (Inr z, t) \<longleftrightarrow> (\<exists>x. m s = (Inr x, t)) \<and> z = y"
  by (auto simp: andThen_def split: prod.splits sum.splits)

lemma for_each_Cons_iff:
  "for_each body (x # xs) s = (Inr u, t) \<longleftrightarrow>
     (\<exists>v s'. body x s = (Inr v, s') \<and> for_each body xs s' = (Inr u, t))"
  by (simp only: for_each.simps andThen_Inr_iff)

section \<open>Machine integers\<close>

text \<open>
  \<open>i64\<close>, \<open>i32\<close> and \<open>u64\<close> values are \<open>int\<close>; the places where the code casts or adds are
  written with the two's complement wrap-around of a release build.
\<close>

definition wrap_i64 :: "int \<Rightarrow> int" where
  "wrap_i64 n = signed_take_bit 63 n"

definition wrap_i32 :: "int \<Rightarrow> int" where
  "wrap_i32 n = signed_take_bit 31 n"

definition in_i64 :: "int \<Rightarrow> bool" where
  "in_i64 n \<longleftrightarrow> - (2 ^ 63) \<le> n \<and> n < 2 ^ 63"

definition in_i32 :: "int \<Rightarrow> bool" where
  "in_i32 n \<longleftrightarrow> - (2 ^ 31) \<le> n \<and> n < 2 ^ 31"

definition add_i64 :: "int \<Rightarrow> int \<Rightarrow> int" where
  "add_i64 a b = wrap_i64 (a + b)"

definition add_i32 :: "int \<Rightarrow> int \<Rightarrow> int" where
  "add_i32 a b = wrap_i32 (a + b)"

lemma wrap_i64_id [simp]: "in_i64 n \<Longrightarrow> wrap_i64 n = n"
  by (simp add: wrap_i64_def in_i64_def signed_take_bit_int_eq_self_iff)

lemma wrap_i32_id [simp]: "in_i32 n \<Longrightarrow> wrap_i32 n = n"
  by (simp add: wrap_i32_def in_i32_def signed_take_bit_int_eq_self_iff)

lemma in_i64_wrap [simp]: "in_i64 (wrap_i64 n)"
  unfolding wrap_i64_def in_i64_def
  by (intro conjI signed_take_bit_int_less_exp signed_take_bit_int_greater_eq_minus_exp)

lemma in_i32_wrap [simp]: "in_i32 (wrap_i32 n)"
  unfolding wrap_i32_def in_i32_def
  by (intro conjI signed_take_bit_int_less_exp signed_take_bit_int_greater_eq_minus_exp)

lemma wrap_i64_add [simp]:
  "wrap_i64 (wrap_i64 a + b) = wrap_i64 (a + b)" "wrap_i64 (a + wrap_i64 b) = wrap_i64 (a + b)"
proof -
  have eq: "signed_take_bit 63 (signed_take_bit 63 k + signed_take_bit 63 l) = signed_take_bit 63 (k + l)"
    for k l :: int by (rule signed_take_bit_add)
  show "wrap_i64 (wrap_i64 a + b) = wrap_i64 (a + b)"
    using eq [of "signed_take_bit 63 a" b] eq [of a b] by (simp add: wrap_i64_def)
  show "wrap_i64 (a + wrap_i64 b) = wrap_i64 (a + b)"
    using eq [of a "signed_take_bit 63 b"] eq [of a b] by (simp add: wrap_i64_def)
qed

lemma add_i64_exact: "in_i64 (a + b) \<Longrightarrow> add_i64 a b = a + b"
  by (simp add: add_i64_def)

lemma add_i32_exact: "in_i32 (a + b) \<Longrightarrow> add_i32 a b = a + b"
  by (simp add: add_i32_def)

section \<open>Characters\<close>

text \<open>\<open>char::is_ascii_alphanumeric\<close>, and \<open>trim().is_empty()\<close> over the ASCII white space.\<close>

definition is_ascii_alphanumeric :: "char \<Rightarrow> bool" where
  "is_ascii_alphanumeric c \<longleftrightarrow>
     (let k = (of_char c :: nat)
      in (48 \<le> k \<and> k \<le> 57) \<or> (65 \<le> k \<and> k \<le> 90) \<or> (97 \<le> k \<and> k \<le> 122))"

text \<open>
  \<open>str::chars\<close>: a character is a byte with the continuation bytes behind it. \<open>char::is_alphanumeric\<close> beyond
  ASCII is the table of Unicode, an argument.
\<close>

definition is_continuation :: "char \<Rightarrow> bool" where
  "is_continuation c \<longleftrightarrow> (let k = (of_char c :: nat) in 128 \<le> k \<and> k < 192)"

function utf8_chars :: "string \<Rightarrow> string list" where
  "utf8_chars [] = []"
| "utf8_chars (c # cs) =
     (c # takeWhile is_continuation cs) # utf8_chars (dropWhile is_continuation cs)"
  by pat_completeness auto

termination
  by (relation "measure length") (auto simp: le_imp_less_Suc length_dropWhile_le)

lemma concat_utf8_chars [simp]: "concat (utf8_chars s) = s"
  by (induction s rule: utf8_chars.induct) auto

definition is_alphanumeric :: "(string \<Rightarrow> bool) \<Rightarrow> string \<Rightarrow> bool" where
  "is_alphanumeric table c =
     (case c of [b] \<Rightarrow> if (of_char b :: nat) < 128 then is_ascii_alphanumeric b else table c | _ \<Rightarrow> table c)"

definition is_blank :: "string \<Rightarrow> bool" where
  "is_blank s \<longleftrightarrow> (\<forall>c \<in> set s. c \<in> {CHR '' '', CHR 0x09, CHR 0x0A, CHR 0x0B, CHR 0x0C, CHR 0x0D})"

text \<open>\<open>trim_end_matches('/')\<close>.\<close>

definition trim_end_slashes :: "string \<Rightarrow> string" where
  "trim_end_slashes s = rev (dropWhile (\<lambda>c. c = CHR ''/'') (rev s))"

text \<open>\<open>str::split(c)\<close>.\<close>

fun split_on :: "char \<Rightarrow> string \<Rightarrow> string list" where
  "split_on c [] = [[]]"
| "split_on c (x # xs) =
     (if x = c then [] # split_on c xs
      else (case split_on c xs of [] \<Rightarrow> [[x]] | w # ws \<Rightarrow> (x # w) # ws))"

section \<open>Decimal integers\<close>

text \<open>\<open>i64::to_string\<close> and \<open>str::parse::<i64>\<close> (an optional sign, then at least one digit).\<close>

fun show_nat :: "nat \<Rightarrow> string" where
  "show_nat n = (if n < 10 then [char_of (48 + n)]
                 else show_nat (n div 10) @ [char_of (48 + n mod 10)])"

declare show_nat.simps [simp del]

definition show_int :: "int \<Rightarrow> string" where
  "show_int n = (if n < 0 then CHR ''-'' # show_nat (nat (- n)) else show_nat (nat n))"

definition digit_val :: "char \<Rightarrow> nat option" where
  "digit_val c = (let k = of_char c in if 48 \<le> k \<and> k \<le> (57::nat) then Some (k - 48) else None)"

fun parse_digits :: "nat \<Rightarrow> string \<Rightarrow> nat option" where
  "parse_digits acc [] = Some acc"
| "parse_digits acc (c # cs) =
     (case digit_val c of None \<Rightarrow> None | Some d \<Rightarrow> parse_digits (acc * 10 + d) cs)"

definition parse_unsigned :: "string \<Rightarrow> nat option" where
  "parse_unsigned cs = (if cs = [] then None else parse_digits 0 cs)"

definition parse_i64 :: "string \<Rightarrow> int option" where
  "parse_i64 s =
     (let v = (case s of
                 [] \<Rightarrow> None
               | c # cs \<Rightarrow>
                   if c = CHR ''-'' then map_option (\<lambda>n. - int n) (parse_unsigned cs)
                   else if c = CHR ''+'' then map_option int (parse_unsigned cs)
                   else map_option int (parse_unsigned s))
      in case v of None \<Rightarrow> None | Some n \<Rightarrow> if in_i64 n then Some n else None)"

text \<open>\<open>parse::<i32>\<close>, and an unsigned number of \<open>w\<close> bits: a plus sign, but no minus sign.\<close>

definition parse_i32 :: "string \<Rightarrow> int option" where
  "parse_i32 s = (case parse_i64 s of None \<Rightarrow> None | Some n \<Rightarrow> if in_i32 n then Some n else None)"

definition parse_uint :: "nat \<Rightarrow> string \<Rightarrow> nat option" where
  "parse_uint w s =
     (let v = (case s of [] \<Rightarrow> None
               | c # cs \<Rightarrow> if c = CHR ''+'' then parse_unsigned cs else parse_unsigned s)
      in case v of None \<Rightarrow> None | Some n \<Rightarrow> if n < 2 ^ w then Some n else None)"

lemma digit_val_digit [simp]: "d < 10 \<Longrightarrow> digit_val (char_of (48 + d)) = Some d"
  by (simp add: digit_val_def Let_def)

lemma parse_digits_append:
  "parse_digits acc (xs @ ys) =
     (case parse_digits acc xs of None \<Rightarrow> None | Some a \<Rightarrow> parse_digits a ys)"
  by (induction xs arbitrary: acc) (auto split: option.splits)

lemma show_nat_nonempty [simp]: "show_nat n \<noteq> []"
  by (subst show_nat.simps) simp

lemma parse_show_nat [simp]: "parse_digits 0 (show_nat n) = Some n"
proof (induction n rule: show_nat.induct)
  case (1 n)
  show ?case
  proof (cases "n < 10")
    case True
    then show ?thesis by (subst show_nat.simps) simp
  next
    case False
    with 1 have "parse_digits 0 (show_nat (n div 10)) = Some (n div 10)" by simp
    with False show ?thesis
      by (subst show_nat.simps) (simp add: parse_digits_append)
  qed
qed

lemma show_nat_hd: "\<exists>c cs. show_nat n = c # cs \<and> digit_val c \<noteq> None"
proof (induction n rule: show_nat.induct)
  case (1 n)
  show ?case
  proof (cases "n < 10")
    case True
    then show ?thesis by (subst show_nat.simps) simp
  next
    case False
    with 1 show ?thesis by (subst show_nat.simps) auto
  qed
qed

lemma digit_val_sign: "digit_val CHR ''-'' = None" "digit_val CHR ''+'' = None"
  by (simp_all add: digit_val_def Let_def)

lemma parse_unsigned_show_nat [simp]: "parse_unsigned (show_nat n) = Some n"
  by (simp add: parse_unsigned_def)

text \<open>Printing an \<open>i64\<close> and parsing it back gives the number, so an id survives the
  string-valued metadata of a record.\<close>

lemma parse_show_int: "in_i64 n \<Longrightarrow> parse_i64 (show_int n) = Some n"
proof (cases "n < 0")
  case True
  then show "in_i64 n \<Longrightarrow> parse_i64 (show_int n) = Some n"
    by (simp add: parse_i64_def show_int_def)
next
  case False
  obtain c cs where c: "show_nat (nat n) = c # cs" "digit_val c \<noteq> None"
    using show_nat_hd by blast
  with digit_val_sign have "c \<noteq> CHR ''-''" "c \<noteq> CHR ''+''" by auto
  moreover have "parse_unsigned (c # cs) = Some (nat n)"
    using parse_unsigned_show_nat [of "nat n"] c(1) by simp
  ultimately show "in_i64 n \<Longrightarrow> parse_i64 (show_int n) = Some n"
    using False c(1) by (simp add: parse_i64_def show_int_def)
qed

lemma show_nat_digits: "c \<in> set (show_nat n) \<Longrightarrow> digit_val c \<noteq> None"
proof (induction n rule: show_nat.induct)
  case (1 n)
  from "1.prems" show ?case
    by (subst (asm) show_nat.simps) (use "1.IH" in \<open>auto split: if_splits\<close>)
qed

section \<open>JSON values\<close>

text \<open>
  The variants of \<open>serde_json::Value\<close> the program matches on. An object is its list of
  entries; a number is an integer or a float, and a float stays as its text. The accessors are
  the ones the code calls: \<open>get\<close>, indexing (\<open>Null\<close> for an absent key), \<open>as_str\<close>, \<open>as_i64\<close>
  (only integers in range), \<open>as_bool\<close>, \<open>is_null\<close>, and assignment through an index.
\<close>

datatype json =
    JNull
  | JBool bool
  | JInt int
  | JFloat string
  | JStr string
  | JArr "json list"
  | JObj "(string \<times> json) list"

fun jget :: "string \<Rightarrow> json \<Rightarrow> json option" where
  "jget k (JObj kvs) = map_of kvs k"
| "jget k _ = None"

definition jindex :: "json \<Rightarrow> string \<Rightarrow> json" where
  "jindex j k = (case jget k j of Some v \<Rightarrow> v | None \<Rightarrow> JNull)"

fun as_str :: "json \<Rightarrow> string option" where
  "as_str (JStr s) = Some s"
| "as_str _ = None"

fun as_i64 :: "json \<Rightarrow> int option" where
  "as_i64 (JInt n) = (if in_i64 n then Some n else None)"
| "as_i64 _ = None"

fun as_bool :: "json \<Rightarrow> bool option" where
  "as_bool (JBool b) = Some b"
| "as_bool _ = None"

definition is_null :: "json \<Rightarrow> bool" where
  "is_null j \<longleftrightarrow> j = JNull"

fun jset :: "string \<Rightarrow> json \<Rightarrow> json \<Rightarrow> json" where
  "jset k v (JObj kvs) = JObj (AList.update k v kvs)"
| "jset k v j = j"

definition unwrap_or :: "'a \<Rightarrow> 'a option \<Rightarrow> 'a" where
  "unwrap_or d x = (case x of Some v \<Rightarrow> v | None \<Rightarrow> d)"

text \<open>\<open>v.get(k).and_then(as_str).unwrap_or(d)\<close> and its integer sibling.\<close>

definition str_field :: "string \<Rightarrow> string \<Rightarrow> json \<Rightarrow> string" where
  "str_field k d j = unwrap_or d (Option.bind (jget k j) as_str)"

definition i64_field :: "string \<Rightarrow> int \<Rightarrow> json \<Rightarrow> int" where
  "i64_field k d j = unwrap_or d (Option.bind (jget k j) as_i64)"

lemma unwrap_or_simps [simp]: "unwrap_or d None = d" "unwrap_or d (Some v) = v"
  by (simp_all add: unwrap_or_def)

lemma jget_jset [simp]:
  "jget k (jset k' v (JObj kvs)) = (if k = k' then Some v else map_of kvs k)"
  by (simp add: update_conv)

lemma jset_JObj: "\<exists>kvs'. jset k v (JObj kvs) = JObj kvs'"
  by simp

text \<open>Indexing followed by a conversion reads the same value as \<open>get\<close>.\<close>

lemma jindex_as_str: "as_str (jindex j k) = Option.bind (jget k j) as_str"
  by (simp add: jindex_def split: option.split)

lemma jindex_as_i64: "as_i64 (jindex j k) = Option.bind (jget k j) as_i64"
  by (simp add: jindex_def split: option.split)

section \<open>Hash maps\<close>

text \<open>
  A \<open>HashMap\<close> is an association list with distinct keys. Its order is one possible iteration
  order; where the program iterates, the model takes the order as a function that permutes the
  entries, so that no property rests on a particular one.
\<close>

definition hash_order :: "('a list \<Rightarrow> 'a list) \<Rightarrow> bool" where
  "hash_order ord \<longleftrightarrow> (\<forall>xs. mset (ord xs) = mset xs)"

definition hash_wf :: "('k \<times> 'v) list \<Rightarrow> bool" where
  "hash_wf m \<longleftrightarrow> distinct (map fst m)"

lemma hash_order_set: "hash_order ord \<Longrightarrow> set (ord xs) = set xs"
  unfolding hash_order_def by (metis set_mset_mset)

lemma hash_order_id [simp]: "hash_order (\<lambda>xs. xs)"
  by (simp add: hash_order_def)

lemma hash_order_length: "hash_order ord \<Longrightarrow> length (ord xs) = length xs"
  unfolding hash_order_def by (metis size_mset)

lemma hash_order_filter:
  "hash_order ord \<Longrightarrow> mset (filter P (ord xs)) = mset (filter P xs)"
  unfolding hash_order_def by simp

lemma hash_wf_Nil [simp]: "hash_wf []"
  by (simp add: hash_wf_def)

lemma hash_wf_update [simp]: "hash_wf m \<Longrightarrow> hash_wf (AList.update k v m)"
  by (simp add: hash_wf_def distinct_update)

lemma hash_wf_delete [simp]: "hash_wf m \<Longrightarrow> hash_wf (AList.delete k m)"
  by (simp add: hash_wf_def distinct_delete)

lemma hash_lookup_update: "map_of (AList.update k v m) = (map_of m)(k \<mapsto> v)"
  by (rule update_conv')

lemma hash_lookup_delete: "map_of (AList.delete k m) = (map_of m)(k := None)"
  by (rule delete_conv')

lemma map_of_wf: "hash_wf m \<Longrightarrow> map_of m k = Some v \<longleftrightarrow> (k, v) \<in> set m"
  by (simp add: hash_wf_def)

end
