(* ===== verification/Models.thy ===== *)
theory Models
  imports Fixus_Prelude
begin

text \<open>
  \<open>src/models.rs\<close> and \<open>src/error.rs\<close>: the event types, the event record with its scope rule, the
  eight-state task machine, the failure taxonomy, the guard every task event passes before it is
  written, the required payload fields and the token rollup. Constructors keep the source's names,
  but for \<open>FailureReason::{Policy, Canceled, Unknown}\<close>, which are \<open>ReasonPolicy\<close>,
  \<open>ReasonCanceled\<close> and \<open>ReasonUnknown\<close> here.
\<close>

section \<open>Event types\<close>

datatype event_type =
    SessionStarted
  | SessionEnded
  | SummaryMarker
  | TaskCreated
  | TaskReady
  | TaskClaimed
  | TaskBlocked
  | TaskSucceeded
  | TaskFailed
  | TaskCanceled
  | TurnPending
  | TurnStarted
  | TurnCompleted
  | TurnFailed
  | TurnCanceled
  | TurnBlocked
  | LlmInvoked
  | LlmCompleted
  | LlmFailed
  | ToolInvoked
  | ToolCompleted
  | ToolFailed

fun event_type_as_str :: "event_type \<Rightarrow> string" where
  "event_type_as_str SessionStarted = ''session_started''"
| "event_type_as_str SessionEnded = ''session_ended''"
| "event_type_as_str SummaryMarker = ''summary_marker''"
| "event_type_as_str TaskCreated = ''task_created''"
| "event_type_as_str TaskReady = ''task_ready''"
| "event_type_as_str TaskClaimed = ''task_claimed''"
| "event_type_as_str TaskBlocked = ''task_blocked''"
| "event_type_as_str TaskSucceeded = ''task_succeeded''"
| "event_type_as_str TaskFailed = ''task_failed''"
| "event_type_as_str TaskCanceled = ''task_canceled''"
| "event_type_as_str TurnPending = ''turn_pending''"
| "event_type_as_str TurnStarted = ''turn_started''"
| "event_type_as_str TurnCompleted = ''turn_completed''"
| "event_type_as_str TurnFailed = ''turn_failed''"
| "event_type_as_str TurnCanceled = ''turn_canceled''"
| "event_type_as_str TurnBlocked = ''turn_blocked''"
| "event_type_as_str LlmInvoked = ''llm_invoked''"
| "event_type_as_str LlmCompleted = ''llm_completed''"
| "event_type_as_str LlmFailed = ''llm_failed''"
| "event_type_as_str ToolInvoked = ''tool_invoked''"
| "event_type_as_str ToolCompleted = ''tool_completed''"
| "event_type_as_str ToolFailed = ''tool_failed''"

definition event_type_from_str :: "string \<Rightarrow> event_type option" where
  "event_type_from_str s =
    (if s = ''session_started'' then Some SessionStarted
     else if s = ''session_ended'' then Some SessionEnded
     else if s = ''summary_marker'' then Some SummaryMarker
     else if s = ''task_created'' then Some TaskCreated
     else if s = ''task_ready'' then Some TaskReady
     else if s = ''task_claimed'' then Some TaskClaimed
     else if s = ''task_blocked'' then Some TaskBlocked
     else if s = ''task_succeeded'' then Some TaskSucceeded
     else if s = ''task_failed'' then Some TaskFailed
     else if s = ''task_canceled'' then Some TaskCanceled
     else if s = ''turn_pending'' then Some TurnPending
     else if s = ''turn_started'' then Some TurnStarted
     else if s = ''turn_completed'' then Some TurnCompleted
     else if s = ''turn_failed'' then Some TurnFailed
     else if s = ''turn_canceled'' then Some TurnCanceled
     else if s = ''turn_blocked'' then Some TurnBlocked
     else if s = ''llm_invoked'' then Some LlmInvoked
     else if s = ''llm_completed'' then Some LlmCompleted
     else if s = ''llm_failed'' then Some LlmFailed
     else if s = ''tool_invoked'' then Some ToolInvoked
     else if s = ''tool_completed'' then Some ToolCompleted
     else if s = ''tool_failed'' then Some ToolFailed
     else None)"

definition is_task_level :: "event_type \<Rightarrow> bool" where
  "is_task_level e \<longleftrightarrow> e \<in> {TaskCreated, TaskReady, TaskClaimed, TaskBlocked, TaskSucceeded,
     TaskFailed, TaskCanceled}"

definition is_session_level :: "event_type \<Rightarrow> bool" where
  "is_session_level e \<longleftrightarrow> e \<in> {SessionStarted, SessionEnded, SummaryMarker}"

definition is_turn_level :: "event_type \<Rightarrow> bool" where
  "is_turn_level e \<longleftrightarrow> e \<in> {TurnPending, TurnStarted, TurnCompleted, TurnFailed, TurnCanceled,
     TurnBlocked}"

definition is_step_level :: "event_type \<Rightarrow> bool" where
  "is_step_level e \<longleftrightarrow> e \<in> {LlmInvoked, LlmCompleted, LlmFailed, ToolInvoked, ToolCompleted,
     ToolFailed}"

definition is_step_start :: "event_type \<Rightarrow> bool" where
  "is_step_start e \<longleftrightarrow> e \<in> {LlmInvoked, ToolInvoked}"

definition is_step_terminal :: "event_type \<Rightarrow> bool" where
  "is_step_terminal e \<longleftrightarrow> e \<in> {LlmCompleted, LlmFailed, ToolCompleted, ToolFailed}"

definition is_turn_terminal :: "event_type \<Rightarrow> bool" where
  "is_turn_terminal e \<longleftrightarrow> e \<in> {TurnCompleted, TurnFailed, TurnCanceled, TurnBlocked}"

definition is_turn_skip_on_recovery :: "event_type \<Rightarrow> bool" where
  "is_turn_skip_on_recovery e \<longleftrightarrow> e \<in> {TurnPending, TurnCanceled, TurnBlocked}"

datatype event_scope = ScopeTask | ScopeSession | ScopeTurn | ScopeStep

fun event_scope_as_str :: "event_scope \<Rightarrow> string" where
  "event_scope_as_str ScopeTask = ''task''"
| "event_scope_as_str ScopeSession = ''session''"
| "event_scope_as_str ScopeTurn = ''turn''"
| "event_scope_as_str ScopeStep = ''step''"

definition event_scope_of :: "event_type \<Rightarrow> event_scope" where
  "event_scope_of e =
     (if is_task_level e then ScopeTask
      else if is_session_level e then ScopeSession
      else if is_turn_level e then ScopeTurn
      else ScopeStep)"

definition matches_start_type :: "event_type \<Rightarrow> event_type \<Rightarrow> bool" where
  "matches_start_type start terminal \<longleftrightarrow>
     (start, terminal) \<in> {(LlmInvoked, LlmCompleted), (LlmInvoked, LlmFailed),
                          (ToolInvoked, ToolCompleted), (ToolInvoked, ToolFailed)}"

fun valid_terminals_for :: "event_type \<Rightarrow> event_type list" where
  "valid_terminals_for LlmInvoked = [LlmCompleted, LlmFailed]"
| "valid_terminals_for ToolInvoked = [ToolCompleted, ToolFailed]"
| "valid_terminals_for _ = []"

definition all_str_variants :: "string list" where
  "all_str_variants =
    [''session_started'',
     ''session_ended'',
     ''summary_marker'',
     ''task_created'',
     ''task_ready'',
     ''task_claimed'',
     ''task_blocked'',
     ''task_succeeded'',
     ''task_failed'',
     ''task_canceled'',
     ''turn_pending'',
     ''turn_started'',
     ''turn_completed'',
     ''turn_failed'',
     ''turn_canceled'',
     ''turn_blocked'',
     ''llm_invoked'',
     ''llm_completed'',
     ''llm_failed'',
     ''tool_invoked'',
     ''tool_completed'',
     ''tool_failed'']"

lemmas event_class_defs = is_task_level_def is_session_level_def is_turn_level_def
  is_step_level_def is_step_start_def is_step_terminal_def is_turn_terminal_def
  is_turn_skip_on_recovery_def

section \<open>Task states\<close>

datatype task_state = Created | Ready | Claimed | Executing | Blocked | Succeeded | Failed | Canceled

fun task_state_as_str :: "task_state \<Rightarrow> string" where
  "task_state_as_str Created = ''created''"
| "task_state_as_str Ready = ''ready''"
| "task_state_as_str Claimed = ''claimed''"
| "task_state_as_str Executing = ''executing''"
| "task_state_as_str Blocked = ''blocked''"
| "task_state_as_str Succeeded = ''succeeded''"
| "task_state_as_str Failed = ''failed''"
| "task_state_as_str Canceled = ''canceled''"

definition task_state_from_str :: "string \<Rightarrow> task_state option" where
  "task_state_from_str s =
    (if s = ''created'' then Some Created
     else if s = ''ready'' then Some Ready
     else if s = ''claimed'' then Some Claimed
     else if s = ''executing'' then Some Executing
     else if s = ''blocked'' then Some Blocked
     else if s = ''succeeded'' then Some Succeeded
     else if s = ''failed'' then Some Failed
     else if s = ''canceled'' then Some Canceled
     else None)"

definition is_terminal :: "task_state \<Rightarrow> bool" where
  "is_terminal s \<longleftrightarrow> s \<in> {Succeeded, Failed, Canceled}"

definition can_transition :: "task_state \<Rightarrow> task_state \<Rightarrow> bool" where
  "can_transition from to \<longleftrightarrow>
     \<not> is_terminal from \<and>
     (from, to) \<in> {(Created, Ready), (Ready, Claimed), (Ready, Canceled), (Claimed, Executing),
       (Claimed, Canceled), (Executing, Blocked), (Executing, Succeeded), (Executing, Failed),
       (Executing, Canceled), (Blocked, Ready), (Blocked, Canceled), (Created, Canceled)}"

section \<open>Failure reasons\<close>

datatype failure_reason =
    AgentSpawnFailed
  | SessionCreateFailed
  | AgentProcessExited
  | RedoDispatchFailed
  | BrokerError
  | SandboxTimeout
  | AgentUnresponsive
  | ApplicationError
  | ReasonPolicy
  | ReasonCanceled
  | ReasonUnknown

fun failure_reason_as_str :: "failure_reason \<Rightarrow> string" where
  "failure_reason_as_str AgentSpawnFailed = ''agent_spawn_failed''"
| "failure_reason_as_str SessionCreateFailed = ''session_create_failed''"
| "failure_reason_as_str AgentProcessExited = ''agent_process_exited''"
| "failure_reason_as_str RedoDispatchFailed = ''redo_dispatch_failed''"
| "failure_reason_as_str BrokerError = ''broker_error''"
| "failure_reason_as_str SandboxTimeout = ''sandbox_timeout''"
| "failure_reason_as_str AgentUnresponsive = ''agent_unresponsive''"
| "failure_reason_as_str ApplicationError = ''application_error''"
| "failure_reason_as_str ReasonPolicy = ''policy''"
| "failure_reason_as_str ReasonCanceled = ''canceled''"
| "failure_reason_as_str ReasonUnknown = ''unknown''"

definition is_retryable :: "failure_reason \<Rightarrow> bool" where
  "is_retryable r \<longleftrightarrow> r \<in> {AgentSpawnFailed, SessionCreateFailed, AgentProcessExited,
     RedoDispatchFailed, BrokerError, SandboxTimeout, AgentUnresponsive, ReasonUnknown}"

definition classify_failure :: "string \<Rightarrow> string \<Rightarrow> failure_reason" where
  "classify_failure error_type error_message =
    (if error_type = ''agent_spawn_failed'' then AgentSpawnFailed
     else if error_type = ''session_create_failed'' then SessionCreateFailed
     else if error_type = ''agent_process_exited'' then AgentProcessExited
     else if error_type = ''redo_dispatch_failed'' then RedoDispatchFailed
     else if error_type = ''broker_error'' then BrokerError
     else if error_type = ''sandbox_timeout'' then SandboxTimeout
     else if error_type = ''agent_unresponsive'' then AgentUnresponsive
     else if error_type = ''application_error'' then ApplicationError
     else if error_type = ''policy'' then ReasonPolicy
     else if error_type = ''canceled'' then ReasonCanceled
     else ReasonUnknown)"

section \<open>Errors\<close>

text \<open>
  \<open>AppError\<close>. A variant that carries formatted text carries here the values that are formatted;
  free prose is left out.
\<close>

datatype lifecycle_violation =
    ScopeViolation event_type string bool  \<comment> \<open>event, column, the column must be NULL\<close>
  | NoCurrentState event_type
  | IllegalTransition task_state task_state event_type
  | MissingTurnId event_type
  | MissingStepId event_type
  | TerminalExists event_type string "int option" "string option"

datatype app_error =
    Migration string
  | Serialization
  | TaskNotFound string
  | TaskAlreadyExists string
  | TaskAlreadyEnded string
  | TurnNotFound string int
  | TurnAlreadyTerminal string int
  | TurnNotStarted string int
  | StepNotFound string
  | StepAlreadyTerminal string
  | StepTypeMismatch string string
  | LifecycleInvariant lifecycle_violation
  | InvalidTaskStateTransition string string string
  | SeqGap string int
  | Validation string
  | PayloadValidation string string
  | RecoverySkippedNonIdempotent string
  | Recovery string
  | Protocol string
  | InvalidEventType string
  | InvalidPayload string
  | ContextBuild string
  | Summary string
  | Internal string
  | Config string
  | PolicyViolation nat nat nat

text \<open>An \<open>unwrap\<close>, an index or an arithmetic operation that would panic: the operation ends there.\<close>

definition panic :: app_error where
  "panic = Internal ''panic''"

section \<open>Events\<close>

record agent_event =
  ae_task_id :: string
  ae_seq :: int
  ae_turn_id :: "int option"
  ae_step_id :: "string option"
  ae_event_type :: event_type
  ae_schema_version :: int
  ae_payload :: json
  ae_created_at :: int

definition agent_event_new ::
  "int \<Rightarrow> string \<Rightarrow> int option \<Rightarrow> string option \<Rightarrow> event_type \<Rightarrow> json \<Rightarrow> agent_event" where
  "agent_event_new now task_id turn_id step_id event_type payload =
     \<lparr>ae_task_id = task_id, ae_seq = 0, ae_turn_id = turn_id, ae_step_id = step_id,
      ae_event_type = event_type, ae_schema_version = 1, ae_payload = payload,
      ae_created_at = now\<rparr>"

text \<open>The scope rule: which of \<open>turn_id\<close> and \<open>step_id\<close> an event of each level carries.\<close>

definition validate_scope :: "agent_event \<Rightarrow> lifecycle_violation + unit" where
  "validate_scope e =
     (case event_scope_of (ae_event_type e) of
        ScopeTurn \<Rightarrow>
          if ae_turn_id e = None then Inl (ScopeViolation (ae_event_type e) ''turn_id'' False)
          else if ae_step_id e \<noteq> None then Inl (ScopeViolation (ae_event_type e) ''step_id'' True)
          else Inr ()
      | ScopeStep \<Rightarrow>
          if ae_step_id e = None then Inl (ScopeViolation (ae_event_type e) ''step_id'' False)
          else Inr ()
      | _ \<Rightarrow>
          if ae_turn_id e \<noteq> None then Inl (ScopeViolation (ae_event_type e) ''turn_id'' True)
          else if ae_step_id e \<noteq> None then Inl (ScopeViolation (ae_event_type e) ''step_id'' True)
          else Inr ())"

section \<open>The write guard on task events\<close>

fun guard_target :: "event_type \<Rightarrow> task_state option" where
  "guard_target TaskCreated = Some Created"
| "guard_target TaskReady = Some Ready"
| "guard_target TaskClaimed = Some Claimed"
| "guard_target TaskBlocked = Some Blocked"
| "guard_target TaskSucceeded = Some Succeeded"
| "guard_target TaskFailed = Some Failed"
| "guard_target TaskCanceled = Some Canceled"
| "guard_target TurnStarted = Some Executing"
| "guard_target _ = None"

definition validate_task_event_transition ::
  "task_state option \<Rightarrow> event_type \<Rightarrow> app_error + unit" where
  "validate_task_event_transition current event_type =
     (case guard_target event_type of
        None \<Rightarrow> Inr ()
      | Some target \<Rightarrow>
          (case current of
             None \<Rightarrow> if event_type = TaskCreated then Inr ()
                     else Inl (LifecycleInvariant (NoCurrentState event_type))
           | Some from \<Rightarrow>
               let legal = (if event_type = TurnStarted then from = Ready \<or> from = Claimed
                            else can_transition from target)
               in if legal then Inr ()
                  else Inl (LifecycleInvariant (IllegalTransition from target event_type))))"

section \<open>Required payload fields\<close>

fun required_fields :: "event_type \<Rightarrow> string list option" where
  "required_fields LlmInvoked = Some [''model'', ''messages'', ''local_seq'']"
| "required_fields LlmCompleted = Some [''model'', ''local_seq'']"
| "required_fields ToolInvoked =
     Some [''tool_name'', ''tool_call_id'', ''idempotency_key'', ''local_seq'']"
| "required_fields SummaryMarker =
     Some [''summarized_up_to_seq'', ''summarized_up_to_turn_id'', ''summary'']"
| "required_fields _ = None"

definition field_missing :: "json \<Rightarrow> string \<Rightarrow> bool" where
  "field_missing payload field \<longleftrightarrow> (case jget field payload of None \<Rightarrow> True | Some v \<Rightarrow> is_null v)"

fun check_fields :: "event_type \<Rightarrow> string \<Rightarrow> json \<Rightarrow> string list \<Rightarrow> app_error + unit" where
  "check_fields et prefix payload [] = Inr ()"
| "check_fields et prefix payload (f # fs) =
     (if field_missing payload f then Inl (PayloadValidation (event_type_as_str et) (prefix @ f))
      else check_fields et prefix payload fs)"

definition validate_payload_required_fields :: "event_type \<Rightarrow> json \<Rightarrow> app_error + unit" where
  "validate_payload_required_fields et payload =
     (case required_fields et of
        None \<Rightarrow> Inr ()
      | Some required \<Rightarrow>
          (case check_fields et [] payload required of
             Inl e \<Rightarrow> Inl e
           | Inr _ \<Rightarrow>
               if et = LlmCompleted then
                 (case jget ''usage'' payload of
                    None \<Rightarrow> Inr ()
                  | Some usage \<Rightarrow>
                      check_fields et ''usage.'' usage [''prompt_tokens'', ''completion_tokens''])
               else Inr ()))"

section \<open>Payload structs\<close>

text \<open>
  The typed payloads as the JSON their derived serialisers write: a field with
  \<open>skip_serializing_if = "Option::is_none"\<close> is left out when absent, an optional field without
  it is \<open>null\<close>.
\<close>

definition opt_json :: "('a \<Rightarrow> json) \<Rightarrow> 'a option \<Rightarrow> json" where
  "opt_json f x = (case x of None \<Rightarrow> JNull | Some v \<Rightarrow> f v)"

definition opt_entry :: "string \<Rightarrow> ('a \<Rightarrow> json) \<Rightarrow> 'a option \<Rightarrow> (string \<times> json) list" where
  "opt_entry k f x = (case x of None \<Rightarrow> [] | Some v \<Rightarrow> [(k, f v)])"

definition failure_reason_json :: "failure_reason \<Rightarrow> json" where
  "failure_reason_json r = JStr (failure_reason_as_str r)"

definition turn_started_payload :: "string \<Rightarrow> string \<Rightarrow> int \<Rightarrow> json" where
  "turn_started_payload user_input redo_group redo_count =
     JObj [(''user_input'', JStr user_input), (''redo_group'', JStr redo_group),
           (''redo_count'', JInt redo_count)]"

definition turn_completed_payload :: "string \<Rightarrow> json" where
  "turn_completed_payload final_output = JObj [(''final_output'', JStr final_output)]"

definition turn_failed_payload ::
  "string \<Rightarrow> string \<Rightarrow> failure_reason option \<Rightarrow> string option \<Rightarrow> json" where
  "turn_failed_payload error_type error_message failure_reason stack_trace =
     JObj ([(''error_type'', JStr error_type), (''error_message'', JStr error_message)]
           @ opt_entry ''failure_reason'' failure_reason_json failure_reason
           @ [(''stack_trace'', opt_json JStr stack_trace)])"

definition summary_marker_payload :: "int \<Rightarrow> int \<Rightarrow> string \<Rightarrow> int \<Rightarrow> json" where
  "summary_marker_payload up_to_turn_id up_to_seq summary covered =
     JObj [(''summarized_up_to_turn_id'', JInt up_to_turn_id),
           (''summarized_up_to_seq'', JInt up_to_seq), (''summary'', JStr summary),
           (''covered_event_count'', JInt covered)]"

record message =
  msg_role :: string
  msg_content :: string

definition message_json :: "message \<Rightarrow> json" where
  "message_json m = JObj [(''role'', JStr (msg_role m)), (''content'', JStr (msg_content m))]"

text \<open>\<open>serde_json::from_value::<Vec<Message>>\<close>; a struct may be written as an array of its fields.\<close>

fun message_of_json :: "json \<Rightarrow> message option" where
  "message_of_json (JArr [JStr r, JStr c]) = Some \<lparr>msg_role = r, msg_content = c\<rparr>"
| "message_of_json j =
     (case (Option.bind (jget ''role'' j) as_str, Option.bind (jget ''content'' j) as_str) of
        (Some r, Some c) \<Rightarrow> Some \<lparr>msg_role = r, msg_content = c\<rparr> | _ \<Rightarrow> None)"

fun messages_of_json :: "json \<Rightarrow> message list option" where
  "messages_of_json (JArr js) = those (map message_of_json js)"
| "messages_of_json _ = None"

lemma message_of_json_inverse [simp]: "message_of_json (message_json m) = Some m"
  by (simp add: message_json_def)

lemma those_messages_inverse [simp]: "those (map (message_of_json \<circ> message_json) ms) = Some ms"
  by (induction ms) simp_all

lemma messages_of_json_inverse [simp]: "messages_of_json (JArr (map message_json ms)) = Some ms"
  by simp

record function_call =
  fc_name :: string
  fc_arguments :: string

record tool_call =
  tc_id :: string
  tc_call_type :: string
  tc_function :: function_call

definition tool_call_json :: "tool_call \<Rightarrow> json" where
  "tool_call_json c = JObj [(''id'', JStr (tc_id c)), (''type'', JStr (tc_call_type c)),
     (''function'', JObj [(''name'', JStr (fc_name (tc_function c))),
                          (''arguments'', JStr (fc_arguments (tc_function c)))])]"

record usage =
  u_prompt_tokens :: int
  u_completion_tokens :: int
  u_total_tokens :: int

definition usage_json :: "usage \<Rightarrow> json" where
  "usage_json u = JObj [(''prompt_tokens'', JInt (u_prompt_tokens u)),
     (''completion_tokens'', JInt (u_completion_tokens u)),
     (''total_tokens'', JInt (u_total_tokens u))]"

section \<open>Provenance\<close>

record provenance =
  pv_source_channel :: string
  pv_source_session_id :: "string option"
  pv_source_user_id :: "string option"
  pv_source_tenant_id :: "string option"
  pv_source_message_id :: "string option"
  pv_created_at :: int
  pv_created_by :: string

text \<open>
  A transition payload as its derived serialiser writes it: every field is left out when absent.
\<close>

definition task_transition_payload ::
  "string option \<Rightarrow> string option \<Rightarrow> failure_reason option \<Rightarrow> json" where
  "task_transition_payload reason claimant failure_reason =
     JObj (opt_entry ''reason'' JStr reason @ opt_entry ''claimant'' JStr claimant
           @ opt_entry ''failure_reason'' failure_reason_json failure_reason)"

section \<open>Query results\<close>

record incomplete_turn =
  it_turn_id :: int
  it_redo_group :: string
  it_redo_count :: int
  it_turn_started_at :: int

record incomplete_step =
  is_seq :: int
  is_turn_id :: int
  is_step_id :: string
  is_start_event_type :: string
  is_payload :: json
  is_started_at :: int

record step_execution =
  se_step_id :: string
  se_step_type :: "string option"
  se_started_at :: int
  se_ended_at :: "int option"
  se_end_event :: "string option"
  se_duration_ms :: "int option"

section \<open>Token usage\<close>

record token_usage_stats =
  tu_model :: string
  tu_call_count :: int
  tu_prompt_tokens :: int
  tu_completion_tokens :: int
  tu_total_tokens :: int

record token_usage_totals =
  tt_call_count :: int
  tt_prompt_tokens :: int
  tt_completion_tokens :: int
  tt_total_tokens :: int

definition totals_default :: token_usage_totals where
  "totals_default = \<lparr>tt_call_count = 0, tt_prompt_tokens = 0, tt_completion_tokens = 0,
     tt_total_tokens = 0\<rparr>"

definition add_stats :: "token_usage_stats \<Rightarrow> token_usage_totals \<Rightarrow> token_usage_totals" where
  "add_stats s t =
     \<lparr>tt_call_count = add_i64 (tt_call_count t) (tu_call_count s),
      tt_prompt_tokens = add_i64 (tt_prompt_tokens t) (tu_prompt_tokens s),
      tt_completion_tokens = add_i64 (tt_completion_tokens t) (tu_completion_tokens s),
      tt_total_tokens = add_i64 (tt_total_tokens t) (tu_total_tokens s)\<rparr>"

record token_usage_response =
  tr_by_model :: "token_usage_stats list"
  tr_totals :: token_usage_totals

definition from_by_model :: "token_usage_stats list \<Rightarrow> token_usage_response" where
  "from_by_model by_model =
     \<lparr>tr_by_model = by_model, tr_totals = fold add_stats by_model totals_default\<rparr>"

section \<open>Facts the components share\<close>

lemma event_type_exhaustive_scope:
  "is_task_level e \<or> is_session_level e \<or> is_turn_level e \<or> is_step_level e"
  by (cases e) (simp_all add: event_class_defs)

lemma terminal_no_transition [simp]: "is_terminal s \<Longrightarrow> \<not> can_transition s t"
  by (simp add: can_transition_def)

lemma can_transition_not_created: "\<not> can_transition s Created"
  by (simp add: can_transition_def)

lemma guard_non_task [simp]:
  "guard_target e = None \<Longrightarrow> validate_task_event_transition c e = Inr ()"
  by (simp add: validate_task_event_transition_def)

lemma guard_target_TurnStarted: "guard_target e = Some Executing \<longleftrightarrow> e = TurnStarted"
  by (cases e) simp_all

lemma validate_scope_ok_iff:
  "validate_scope e = Inr () \<longleftrightarrow>
     (case event_scope_of (ae_event_type e) of
        ScopeTurn \<Rightarrow> ae_turn_id e \<noteq> None \<and> ae_step_id e = None
      | ScopeStep \<Rightarrow> ae_step_id e \<noteq> None
      | _ \<Rightarrow> ae_turn_id e = None \<and> ae_step_id e = None)"
  by (auto simp: validate_scope_def split: event_scope.splits)

lemma check_fields_ok_iff:
  "check_fields et p payload fs = Inr () \<longleftrightarrow> (\<forall>f \<in> set fs. \<not> field_missing payload f)"
  by (induction fs) auto

lemma check_fields_Inl:
  "check_fields et p payload fs = Inl e \<Longrightarrow>
     \<exists>f \<in> set fs. field_missing payload f \<and> e = PayloadValidation (event_type_as_str et) (p @ f)"
  by (induction fs) (auto split: if_splits)

lemma agent_event_new_simps [simp]:
  "ae_task_id (agent_event_new n t tu st et p) = t"
  "ae_turn_id (agent_event_new n t tu st et p) = tu"
  "ae_step_id (agent_event_new n t tu st et p) = st"
  "ae_event_type (agent_event_new n t tu st et p) = et"
  "ae_payload (agent_event_new n t tu st et p) = p"
  "ae_seq (agent_event_new n t tu st et p) = 0"
  by (simp_all add: agent_event_new_def)

text \<open>
  The code's state table read as a step relation: one rule per legal task event. A run of the
  task machine is a chain of these steps.
\<close>

inductive task_step :: "task_state \<Rightarrow> event_type \<Rightarrow> task_state \<Rightarrow> bool" where
  ready: "s = Created \<or> s = Blocked \<Longrightarrow> task_step s TaskReady Ready"
| claim: "task_step Ready TaskClaimed Claimed"
| start: "s = Ready \<or> s = Claimed \<Longrightarrow> task_step s TurnStarted Executing"
| block: "task_step Executing TaskBlocked Blocked"
| succeed: "task_step Executing TaskSucceeded Succeeded"
| fail: "task_step Executing TaskFailed Failed"
| cancel: "\<not> is_terminal s \<Longrightarrow> task_step s TaskCanceled Canceled"

inductive_cases task_step_from_terminalE: "task_step Succeeded e t" "task_step Failed e t"
  "task_step Canceled e t"

inductive_simps task_step_from: "task_step s e t"

inductive task_run :: "task_state \<Rightarrow> event_type list \<Rightarrow> task_state \<Rightarrow> bool" where
  stop: "task_run s [] s"
| move: "task_step s e t \<Longrightarrow> task_run t es u \<Longrightarrow> task_run s (e # es) u"
| stay: "guard_target e = None \<Longrightarrow> task_run s es u \<Longrightarrow> task_run s (e # es) u"

lemma task_step_terminal: "is_terminal s \<Longrightarrow> \<not> task_step s e t"
  by (cases s) (auto simp: is_terminal_def elim: task_step_from_terminalE)

lemma task_step_guard_target: "task_step s e t \<Longrightarrow> guard_target e = Some t"
  by (erule task_step.cases) simp_all

text \<open>The write guard accepts exactly the steps of the machine.\<close>

lemma guard_iff_task_step:
  assumes "guard_target e = Some t"
  shows "validate_task_event_transition (Some s) e = Inr () \<longleftrightarrow> task_step s e t"
  using assms
  by (cases e; cases s)
     (auto simp: validate_task_event_transition_def can_transition_def is_terminal_def
        task_step_from Let_def)

lemma task_run_terminal:
  "task_run s es t \<Longrightarrow> is_terminal s \<Longrightarrow> t = s \<and> (\<forall>e \<in> set es. guard_target e = None)"
  by (induction rule: task_run.induct) (auto dest: task_step_terminal)

lemma event_type_from_as_str [simp]: "event_type_from_str (event_type_as_str e) = Some e"
  by (cases e) (simp_all add: event_type_from_str_def)

lemma event_type_as_from_str: "event_type_from_str s = Some e \<Longrightarrow> event_type_as_str e = s"
  by (auto simp: event_type_from_str_def split: if_splits)

lemma task_state_from_str_iff: "task_state_from_str s = Some t \<longleftrightarrow> s = task_state_as_str t"
  by (cases t) (auto simp: task_state_from_str_def)

lemma add_stats_simps [simp]:
  "tt_call_count (add_stats s t) = add_i64 (tt_call_count t) (tu_call_count s)"
  "tt_prompt_tokens (add_stats s t) = add_i64 (tt_prompt_tokens t) (tu_prompt_tokens s)"
  "tt_completion_tokens (add_stats s t) = add_i64 (tt_completion_tokens t) (tu_completion_tokens s)"
  "tt_total_tokens (add_stats s t) = add_i64 (tt_total_tokens t) (tu_total_tokens s)"
  by (simp_all add: add_stats_def)

lemma fold_wrapping_sum:
  assumes "\<And>s t. f (add_stats s t) = add_i64 (f t) (g s)" "in_i64 (f t)"
  shows "f (fold add_stats xs t) = wrap_i64 (f t + sum_list (map g xs))"
  using assms(2)
proof (induction xs arbitrary: t)
  case Nil
  then show ?case by simp
next
  case (Cons x xs)
  have "in_i64 (f (add_stats x t))" by (simp add: assms(1) add_i64_def)
  from Cons.IH [OF this] show ?case
    by (simp add: assms(1) add_i64_def add.assoc)
qed

section \<open>Properties\<close>

text \<open>
  Event-type names are a bijection between the event types and the published list of names, and
  every type has exactly one of the four levels: parsing a name gives the type that prints as it.
\<close>

theorem event_type_names:
  "(event_type_from_str s = Some e \<longleftrightarrow> s = event_type_as_str e) \<and>
   (s \<in> set all_str_variants \<longleftrightarrow> event_type_from_str s \<noteq> None) \<and>
   distinct all_str_variants \<and>
   length (filter (\<lambda>p. p e) [is_task_level, is_session_level, is_turn_level, is_step_level]) = 1"
proof (intro conjI)
  show "event_type_from_str s = Some e \<longleftrightarrow> s = event_type_as_str e"
    using event_type_as_from_str by auto
  show "s \<in> set all_str_variants \<longleftrightarrow> event_type_from_str s \<noteq> None"
    by (simp add: all_str_variants_def event_type_from_str_def)
  show "distinct all_str_variants" by (simp add: all_str_variants_def)
  show "length (filter (\<lambda>p. p e) [is_task_level, is_session_level, is_turn_level, is_step_level]) = 1"
    by (cases e) (simp_all add: event_class_defs)
qed

text \<open>
  The token roll-up's totals are the sums of the per-model rows, to the width of \<open>i64\<close>: no row is
  skipped or counted twice, and the rows are returned as they came.
\<close>

theorem token_totals_are_sums:
  "from_by_model rows =
     \<lparr>tr_by_model = rows,
      tr_totals = \<lparr>tt_call_count = wrap_i64 (sum_list (map tu_call_count rows)),
        tt_prompt_tokens = wrap_i64 (sum_list (map tu_prompt_tokens rows)),
        tt_completion_tokens = wrap_i64 (sum_list (map tu_completion_tokens rows)),
        tt_total_tokens = wrap_i64 (sum_list (map tu_total_tokens rows))\<rparr>\<rparr>"
proof -
  have z: "in_i64 0" by (simp add: in_i64_def)
  show ?thesis
    using fold_wrapping_sum [of tt_call_count tu_call_count totals_default rows]
      fold_wrapping_sum [of tt_prompt_tokens tu_prompt_tokens totals_default rows]
      fold_wrapping_sum [of tt_completion_tokens tu_completion_tokens totals_default rows]
      fold_wrapping_sum [of tt_total_tokens tu_total_tokens totals_default rows] z
    by (simp add: from_by_model_def totals_default_def)
qed

end
