(* ===== verification/Policy.thy ===== *)
theory Policy
  imports Models "HOL-Library.Sublist"
begin

text \<open>
  \<open>src/policy.rs\<close>: the capability policy of a sandbox and its resolver. A path is the list of
  components \<open>Path::components\<close> gives, which is also what \<open>PathBuf\<close>'s \<open>==\<close> and
  \<open>starts_with\<close> compare.
\<close>

section \<open>Policies\<close>

datatype component = RootDir | CurDir | ParentDir | Normal string

datatype trust_level = WorkDir | Host | Remote

record path_scope =
  ps_path :: "component list"
  ps_trust :: trust_level

datatype net_category = PackageManager | HttpsApi | Dns | PrivateLan

record egress_rule =
  er_host :: string
  er_ports :: "nat list"
  er_category :: "net_category option"

record fs_policy =
  read_paths :: "path_scope list"
  write_paths :: "path_scope list"

record net_policy =
  egress :: "egress_rule list"

record capability_policy =
  cp_fs :: fs_policy
  cp_net :: net_policy

datatype agent_role = Reader | Operator

record effective_policy =
  ep_fs :: fs_policy
  ep_net :: net_policy
  ep_agent_role :: agent_role

definition capability_policy_default :: capability_policy where
  "capability_policy_default =
     \<lparr>cp_fs = \<lparr>read_paths = [], write_paths = []\<rparr>, cp_net = \<lparr>egress = []\<rparr>\<rparr>"

section \<open>Paths\<close>

fun normalize_from :: "component list \<Rightarrow> component list \<Rightarrow> component list" where
  "normalize_from parts [] = parts"
| "normalize_from parts (CurDir # cs) = normalize_from parts cs"
| "normalize_from parts (ParentDir # cs) = normalize_from (butlast parts) cs"
| "normalize_from parts (c # cs) = normalize_from (parts @ [c]) cs"

definition normalize_path :: "component list \<Rightarrow> component list" where
  "normalize_path path = normalize_from [] path"

definition path_within :: "component list \<Rightarrow> path_scope \<Rightarrow> bool" where
  "path_within p scope \<longleftrightarrow>
     (let norm_p = normalize_path p; norm_scope = normalize_path (ps_path scope)
      in norm_p = norm_scope \<or> prefix norm_scope norm_p)"

section \<open>Intersections\<close>

definition push_if_new :: "path_scope list \<Rightarrow> path_scope \<Rightarrow> path_scope list" where
  "push_if_new out s = (if \<exists>e \<in> set out. ps_path e = ps_path s then out else out @ [s])"

definition overlaps :: "path_scope \<Rightarrow> path_scope \<Rightarrow> bool" where
  "overlaps sa sb \<longleftrightarrow> path_within (ps_path sa) sb \<or> path_within (ps_path sb) sa"

fun intersect_from :: "path_scope list \<Rightarrow> path_scope list \<Rightarrow> path_scope list \<Rightarrow> path_scope list" where
  "intersect_from out [] b = out"
| "intersect_from out (sa # a) b =
     (case find (overlaps sa) b of
        None \<Rightarrow> intersect_from out a b
      | Some sb \<Rightarrow>
          intersect_from (push_if_new out (if path_within (ps_path sa) sb then sa else sb)) a b)"

definition intersect_set :: "path_scope list \<Rightarrow> path_scope list \<Rightarrow> path_scope list" where
  "intersect_set a b = intersect_from [] a b"

definition intersect_fs :: "fs_policy \<Rightarrow> fs_policy \<Rightarrow> fs_policy" where
  "intersect_fs a b =
     \<lparr>read_paths = intersect_set (read_paths a) (read_paths b),
      write_paths = intersect_set (write_paths a) (write_paths b)\<rparr>"

definition intersect_net :: "net_policy \<Rightarrow> net_policy \<Rightarrow> net_policy" where
  "intersect_net a b = \<lparr>egress = filter (\<lambda>ra. ra \<in> set (egress b)) (egress a)\<rparr>"

definition role_narrow :: "effective_policy \<Rightarrow> agent_role \<Rightarrow> effective_policy" where
  "role_narrow eff role =
     (let eff = eff\<lparr>ep_agent_role := role\<rparr>
      in case role of
           Operator \<Rightarrow> eff
         | Reader \<Rightarrow>
             eff\<lparr>ep_net := (ep_net eff)\<lparr>egress := []\<rparr>,
                 ep_fs := (ep_fs eff)\<lparr>write_paths :=
                            filter (\<lambda>s. ps_trust s = WorkDir) (write_paths (ep_fs eff))\<rparr>\<rparr>)"

definition resolve_effective ::
  "capability_policy \<Rightarrow> capability_policy \<Rightarrow> capability_policy \<Rightarrow> agent_role \<Rightarrow> effective_policy" where
  "resolve_effective operator tenant task role =
     (let fs = intersect_fs (cp_fs operator) (cp_fs tenant);
          fs = intersect_fs fs (cp_fs task);
          net = intersect_net (cp_net operator) (cp_net tenant);
          net = intersect_net net (cp_net task)
      in role_narrow \<lparr>ep_fs = fs, ep_net = net, ep_agent_role = role\<rparr> role)"

section \<open>Validation\<close>

record subset_violation =
  fs_read_violations :: "component list list"
  fs_write_violations :: "component list list"
  net_violations :: "string list"

definition violation_is_empty :: "subset_violation \<Rightarrow> bool" where
  "violation_is_empty v \<longleftrightarrow>
     fs_read_violations v = [] \<and> fs_write_violations v = [] \<and> net_violations v = []"

definition check_paths :: "path_scope list \<Rightarrow> path_scope list \<Rightarrow> component list list" where
  "check_paths child_scopes parent_scopes =
     map (\<lambda>c. normalize_path (ps_path c))
       (filter (\<lambda>c. \<not> (\<exists>p \<in> set parent_scopes. path_within (ps_path c) p)) child_scopes)"

definition validate_subset ::
  "capability_policy \<Rightarrow> capability_policy \<Rightarrow> subset_violation + unit" where
  "validate_subset child parent =
     (let v = \<lparr>fs_read_violations = check_paths (read_paths (cp_fs child)) (read_paths (cp_fs parent)),
               fs_write_violations =
                 check_paths (write_paths (cp_fs child)) (write_paths (cp_fs parent)),
               net_violations = map er_host
                 (filter (\<lambda>cr. cr \<notin> set (egress (cp_net parent))) (egress (cp_net child)))\<rparr>
      in if violation_is_empty v then Inr () else Inl v)"

definition resolve_and_validate ::
  "capability_policy \<Rightarrow> capability_policy \<Rightarrow> capability_policy \<Rightarrow> agent_role
    \<Rightarrow> subset_violation + effective_policy" where
  "resolve_and_validate operator tenant task role =
     (case validate_subset task tenant of
        Inl v \<Rightarrow> Inl v
      | Inr _ \<Rightarrow> Inr (resolve_effective operator tenant task role))"

text \<open>
  The operator's file: the TOML decoder is a library, so its result is a parameter; the text is
  empty, fails to decode, or decodes to a policy whose paths are then normalised.
\<close>

definition normalize_scopes :: "path_scope list \<Rightarrow> path_scope list" where
  "normalize_scopes scopes = map (\<lambda>s. s\<lparr>ps_path := normalize_path (ps_path s)\<rparr>) scopes"

definition parse_operator_toml ::
  "(string \<Rightarrow> string + capability_policy) \<Rightarrow> string \<Rightarrow> string + capability_policy" where
  "parse_operator_toml toml_from_str s =
     (if is_blank s then Inr capability_policy_default
      else (case toml_from_str s of
              Inl e \<Rightarrow> Inl e
            | Inr policy \<Rightarrow>
                Inr \<lparr>cp_fs = \<lparr>read_paths = normalize_scopes (read_paths (cp_fs policy)),
                             write_paths = normalize_scopes (write_paths (cp_fs policy))\<rparr>,
                    cp_net = cp_net policy\<rparr>))"

section \<open>What a scope list grants\<close>

definition grants :: "path_scope list \<Rightarrow> component list \<Rightarrow> bool" where
  "grants scopes p \<longleftrightarrow> (\<exists>s \<in> set scopes. path_within p s)"

lemma path_within_prefix:
  "path_within p s \<longleftrightarrow> prefix (normalize_path (ps_path s)) (normalize_path p)"
  by (auto simp: path_within_def Let_def)

lemma path_within_trans:
  "path_within p s \<Longrightarrow> path_within (ps_path s) t \<Longrightarrow> path_within p t"
  by (auto simp: path_within_prefix)

lemma path_within_refl [simp]: "path_within (ps_path s) s"
  by (simp add: path_within_prefix)

lemma grants_member: "s \<in> set scopes \<Longrightarrow> path_within p s \<Longrightarrow> grants scopes p"
  by (auto simp: grants_def)

lemma grants_self: "s \<in> set scopes \<Longrightarrow> grants scopes (ps_path s)"
  by (rule grants_member [OF _ path_within_refl])

lemma push_if_new_set: "set (push_if_new out s) \<subseteq> insert s (set out)"
  by (auto simp: push_if_new_def)

lemma intersect_from_sound:
  assumes "\<forall>s \<in> set out. grants x (ps_path s) \<and> grants y (ps_path s)" "set a \<subseteq> set x" "set b \<subseteq> set y"
    and "s \<in> set (intersect_from out a b)"
  shows "grants x (ps_path s) \<and> grants y (ps_path s)"
  using assms
proof (induction out a b rule: intersect_from.induct)
  case (1 out b)
  then show ?case by simp
next
  case (2 out sa a b)
  show ?case
  proof (cases "find (overlaps sa) b")
    case None
    with 2 show ?thesis by simp
  next
    case (Some sb)
    let ?t = "if path_within (ps_path sa) sb then sa else sb"
    have "sb \<in> set b" and o: "overlaps sa sb"
      using Some by (auto simp: find_Some_iff)
    then have sb: "sb \<in> set y" "overlaps sa sb"
      using "2.prems"(3) by auto
    have "sa \<in> set x" using "2.prems" by simp
    with sb have t: "grants x (ps_path ?t) \<and> grants y (ps_path ?t)"
      by (auto simp: overlaps_def intro: grants_member grants_self)
    then have "\<forall>s \<in> set (push_if_new out ?t). grants x (ps_path s) \<and> grants y (ps_path s)"
      using "2.prems"(1) push_if_new_set [of out ?t] by auto
    from "2.IH"(2) [OF Some this] "2.prems" Some show ?thesis by simp
  qed
qed

lemma intersect_set_sound:
  "s \<in> set (intersect_set a b) \<Longrightarrow> grants a (ps_path s) \<and> grants b (ps_path s)"
  using intersect_from_sound [of "[]" a b a b s] by (simp add: intersect_set_def)

lemma grants_trans: "s \<in> set scopes \<Longrightarrow> path_within p s \<Longrightarrow> grants t (ps_path s) \<Longrightarrow> grants t p"
  by (auto simp: grants_def intro: path_within_trans)

lemma grants_intersect_set:
  "grants (intersect_set a b) p \<Longrightarrow> grants a p \<and> grants b p"
  by (meson grants_def grants_trans intersect_set_sound)

lemma grants_filter: "grants (filter P scopes) p \<Longrightarrow> grants scopes p"
  by (auto simp: grants_def)

lemma normalize_from_clean:
  "CurDir \<notin> set cs \<Longrightarrow> ParentDir \<notin> set cs \<Longrightarrow> normalize_from parts cs = parts @ cs"
proof (induction cs arbitrary: parts)
  case Nil
  then show ?case by simp
next
  case (Cons c cs)
  then show ?case by (cases c) simp_all
qed

lemma normalize_from_result:
  "CurDir \<notin> set parts \<Longrightarrow> ParentDir \<notin> set parts \<Longrightarrow>
     CurDir \<notin> set (normalize_from parts cs) \<and> ParentDir \<notin> set (normalize_from parts cs)"
  by (induction parts cs rule: normalize_from.induct) (auto dest: in_set_butlastD)

lemma normalize_path_idem [simp]: "normalize_path (normalize_path p) = normalize_path p"
  using normalize_from_result [of "[]" p] normalize_from_clean [of "normalize_path p" "[]"]
  by (simp add: normalize_path_def)

lemma path_within_normalized [simp]:
  "path_within (normalize_path p) s = path_within p s"
  "path_within p (s\<lparr>ps_path := normalize_path (ps_path s)\<rparr>) = path_within p s"
  by (simp_all add: path_within_prefix)

lemma grants_normalize_scopes [simp]: "grants (normalize_scopes ss) p = grants ss p"
  by (auto simp: grants_def normalize_scopes_def)

lemma role_narrow_simps [simp]:
  "read_paths (ep_fs (role_narrow eff role)) = read_paths (ep_fs eff)"
  "ep_agent_role (role_narrow eff role) = role"
  "ep_fs (role_narrow eff Operator) = ep_fs eff"
  "ep_net (role_narrow eff Operator) = ep_net eff"
  "egress (ep_net (role_narrow eff Reader)) = []"
  "write_paths (ep_fs (role_narrow eff Reader)) =
     filter (\<lambda>s. ps_trust s = WorkDir) (write_paths (ep_fs eff))"
  by (cases role; simp add: role_narrow_def Let_def)+

lemma role_narrow_writes: "grants (write_paths (ep_fs (role_narrow eff role))) p \<Longrightarrow>
    grants (write_paths (ep_fs eff)) p"
  by (cases role) (auto dest: grants_filter)

lemma role_narrow_egress: "set (egress (ep_net (role_narrow eff role))) \<subseteq> set (egress (ep_net eff))"
  by (cases role) auto

lemma check_paths_Nil:
  "check_paths cs ps = [] \<longleftrightarrow> (\<forall>c \<in> set cs. grants ps (ps_path c))"
  by (auto simp: check_paths_def grants_def filter_empty_conv)

lemma validate_subset_ok_iff:
  "validate_subset child parent = Inr () \<longleftrightarrow>
     (\<forall>c \<in> set (read_paths (cp_fs child)). grants (read_paths (cp_fs parent)) (ps_path c)) \<and>
     (\<forall>c \<in> set (write_paths (cp_fs child)). grants (write_paths (cp_fs parent)) (ps_path c)) \<and>
     set (egress (cp_net child)) \<subseteq> set (egress (cp_net parent))"
  by (auto simp: validate_subset_def violation_is_empty_def check_paths_Nil Let_def filter_empty_conv)

lemma validate_subset_grants:
  assumes "validate_subset child parent = Inr ()"
  shows "grants (read_paths (cp_fs child)) p \<Longrightarrow> grants (read_paths (cp_fs parent)) p"
    and "grants (write_paths (cp_fs child)) p \<Longrightarrow> grants (write_paths (cp_fs parent)) p"
    and "r \<in> set (egress (cp_net child)) \<Longrightarrow> r \<in> set (egress (cp_net parent))"
  using assms by (auto simp: validate_subset_ok_iff) (meson grants_def grants_trans)+

lemma intersect_fs_simps [simp]:
  "read_paths (intersect_fs a b) = intersect_set (read_paths a) (read_paths b)"
  "write_paths (intersect_fs a b) = intersect_set (write_paths a) (write_paths b)"
  "egress (intersect_net m n) = filter (\<lambda>r. r \<in> set (egress n)) (egress m)"
  by (simp_all add: intersect_fs_def intersect_net_def)

lemma resolve_reads:
  "grants (read_paths (ep_fs (resolve_effective op te ta role))) p \<Longrightarrow>
     grants (read_paths (cp_fs op)) p \<and> grants (read_paths (cp_fs te)) p \<and>
     grants (read_paths (cp_fs ta)) p"
  unfolding resolve_effective_def Let_def by simp (meson grants_intersect_set)

lemma resolve_writes:
  "grants (write_paths (ep_fs (resolve_effective op te ta role))) p \<Longrightarrow>
     grants (write_paths (cp_fs op)) p \<and> grants (write_paths (cp_fs te)) p \<and>
     grants (write_paths (cp_fs ta)) p"
  unfolding resolve_effective_def Let_def
  by (drule role_narrow_writes) (simp, meson grants_intersect_set)

lemma resolve_egress:
  "set (egress (ep_net (resolve_effective op te ta role))) \<subseteq>
     set (egress (cp_net op)) \<inter> set (egress (cp_net te)) \<inter> set (egress (cp_net ta))"
  unfolding resolve_effective_def Let_def
  by (rule order_trans [OF role_narrow_egress]) auto

text \<open>
  Completeness of the intersection. Two scopes that contain the same path overlap, so a pair is
  missed only when a scope overlaps several on the other side: the loop keeps the first.
\<close>

lemma overlaps_common:
  "path_within p sa \<Longrightarrow> path_within p sb \<Longrightarrow> overlaps sa sb"
  unfolding overlaps_def path_within_prefix by (meson prefix_same_cases)

lemma push_if_new_grants:
  "grants out p \<Longrightarrow> grants (push_if_new out s) p"
  "path_within p s \<Longrightarrow> grants (push_if_new out s) p"
  unfolding push_if_new_def grants_def path_within_prefix by auto metis

lemma intersect_from_mono: "grants out p \<Longrightarrow> grants (intersect_from out a b) p"
  by (induction out a b rule: intersect_from.induct)
     (auto simp: push_if_new_grants split: option.splits)

definition single_overlap :: "path_scope list \<Rightarrow> path_scope list \<Rightarrow> bool" where
  "single_overlap a b \<longleftrightarrow>
     (\<forall>sa \<in> set a. \<forall>sb \<in> set b. \<forall>sc \<in> set b. overlaps sa sb \<and> overlaps sa sc \<longrightarrow> sb = sc)"

lemma intersect_from_complete:
  assumes "single_overlap a b" "grants a p" "grants b p"
  shows "grants (intersect_from out a b) p"
  using assms
proof (induction out a b rule: intersect_from.induct)
  case (1 out b)
  then show ?case by (simp add: grants_def)
next
  case (2 out sa a b)
  from "2.prems"(1) have so: "single_overlap a b" by (simp add: single_overlap_def)
  from "2.prems"(3) obtain sb where sb: "sb \<in> set b" "path_within p sb"
    by (auto simp: grants_def)
  show ?case
  proof (cases "path_within p sa")
    case True
    with sb have o: "overlaps sa sb" by (simp add: overlaps_common)
    then obtain sc where sc: "find (overlaps sa) b = Some sc"
      using sb(1) by (cases "find (overlaps sa) b") (auto simp: find_None_iff)
    then have "sc \<in> set b" "overlaps sa sc" by (auto simp: find_Some_iff)
    then have "sc = sb"
      using "2.prems"(1) o sb(1) by (auto simp: single_overlap_def)
    with True sb(2) sc show ?thesis
      by (auto intro: intersect_from_mono push_if_new_grants)
  next
    case False
    then have "grants a p" using "2.prems"(2) by (auto simp: grants_def)
    with "2.IH" so "2.prems"(3) show ?thesis by (auto split: option.splits)
  qed
qed

text \<open>
  Lexical resolution from the root: the directory names a kernel without symbolic links would walk.
  \<open>climbs\<close> says that a path steps above the root.
\<close>

fun walk :: "string list \<Rightarrow> component list \<Rightarrow> string list" where
  "walk dir [] = dir"
| "walk dir (RootDir # cs) = walk [] cs"
| "walk dir (CurDir # cs) = walk dir cs"
| "walk dir (ParentDir # cs) = walk (butlast dir) cs"
| "walk dir (Normal n # cs) = walk (dir @ [n]) cs"

fun climbs :: "nat \<Rightarrow> component list \<Rightarrow> bool" where
  "climbs d [] = False"
| "climbs d (RootDir # cs) = climbs 0 cs"
| "climbs d (CurDir # cs) = climbs d cs"
| "climbs d (ParentDir # cs) = (d = 0 \<or> climbs (d - 1) cs)"
| "climbs d (Normal n # cs) = climbs (Suc d) cs"

definition absolute :: "component list \<Rightarrow> bool" where
  "absolute p \<longleftrightarrow> (case p of RootDir # cs \<Rightarrow> RootDir \<notin> set cs \<and> \<not> climbs 0 cs | _ \<Rightarrow> False)"

lemma normalize_from_walk:
  "RootDir \<notin> set cs \<Longrightarrow> \<not> climbs (length dir) cs \<Longrightarrow>
     normalize_from (RootDir # map Normal dir) cs = RootDir # map Normal (walk dir cs)"
proof (induction cs arbitrary: dir)
  case Nil
  then show ?case by simp
next
  case (Cons c cs)
  show ?case
  proof (cases c)
    case ParentDir
    with Cons.prems have "dir \<noteq> []" by auto
    with ParentDir Cons.IH [of "butlast dir"] Cons.prems show ?thesis
      by (simp add: map_butlast)
  next
    case (Normal n)
    with Cons.IH [of "dir @ [n]"] Cons.prems show ?thesis by simp
  qed (use Cons in auto)
qed

lemma normalize_absolute:
  "absolute p \<Longrightarrow> normalize_path p = RootDir # map Normal (walk [] p)"
  using normalize_from_walk [of "tl p" "[]"]
  by (auto simp: absolute_def normalize_path_def split: list.splits component.splits)

lemma prefix_map_Normal: "prefix (map Normal xs) (map Normal ys) \<longleftrightarrow> prefix xs ys"
proof (induction xs arbitrary: ys)
  case Nil
  then show ?case by simp
next
  case (Cons x xs)
  then show ?case by (cases ys) auto
qed

section \<open>Properties\<close>

text \<open>
  C8. The resolver only narrows: a path the effective policy lets the sandbox read or write is
  readable or writable under each of the operator's, the tenant's and the task's policy, and an
  egress rule it keeps is in all three, whatever the agent's role.
\<close>

theorem resolve_effective_narrows:
  "{p. grants (read_paths (ep_fs (resolve_effective op te ta role))) p} \<subseteq>
     {p. grants (read_paths (cp_fs op)) p \<and> grants (read_paths (cp_fs te)) p \<and>
         grants (read_paths (cp_fs ta)) p} \<and>
   {p. grants (write_paths (ep_fs (resolve_effective op te ta role))) p} \<subseteq>
     {p. grants (write_paths (cp_fs op)) p \<and> grants (write_paths (cp_fs te)) p \<and>
         grants (write_paths (cp_fs ta)) p} \<and>
   set (egress (ep_net (resolve_effective op te ta role))) \<subseteq>
      set (egress (cp_net op)) \<inter> set (egress (cp_net te)) \<inter> set (egress (cp_net ta))"
  using resolve_reads resolve_writes resolve_egress by blast

text \<open>
  C30. Containment means containment: for absolute paths that do not step above the root, a path is
  inside a scope exactly when walking it ends in or below the directory that walking the scope ends
  in, so no \<open>.\<close> or \<open>..\<close> component lets a path out of its scope.
\<close>

theorem path_within_walks_below:
  assumes "absolute p" "absolute (ps_path s)"
  shows "path_within p s \<longleftrightarrow> prefix (walk [] (ps_path s)) (walk [] p)"
  using assms by (simp add: path_within_prefix normalize_absolute prefix_map_Normal)

text \<open>The path \<open>/ws/a/../b\<close> is in the scope \<open>/ws\<close> and \<open>/ws/../etc\<close> is not.\<close>

theorem path_within_walks_below_witness:
  "path_within [RootDir, Normal ''ws'', Normal ''a'', ParentDir, Normal ''b'']
     \<lparr>ps_path = [RootDir, Normal ''ws''], ps_trust = WorkDir\<rparr> \<and>
   \<not> path_within [RootDir, Normal ''ws'', ParentDir, Normal ''etc'']
     \<lparr>ps_path = [RootDir, Normal ''ws''], ps_trust = WorkDir\<rparr>"
  using path_within_walks_below
    [of "[RootDir, Normal ''ws'', Normal ''a'', ParentDir, Normal ''b'']"
        "\<lparr>ps_path = [RootDir, Normal ''ws''], ps_trust = WorkDir\<rparr>"]
    path_within_walks_below
    [of "[RootDir, Normal ''ws'', ParentDir, Normal ''etc'']"
        "\<lparr>ps_path = [RootDir, Normal ''ws''], ps_trust = WorkDir\<rparr>"]
  by (simp add: absolute_def)

text \<open>
  A path that does step above the root is where the lexical normaliser and the file system part:
  \<open>/..\<close> pops the root component itself, so a scope written that way normalises to the empty path
  and contains every path there is.
\<close>

theorem root_escape_contains_everything:
  "normalize_path [RootDir, ParentDir] = [] \<and>
   grants [\<lparr>ps_path = [RootDir, ParentDir], ps_trust = t\<rparr>] p"
  by (simp add: normalize_path_def grants_def path_within_prefix)

text \<open>
  When no scope overlaps two scopes of the other side, the intersection of two scope lists grants
  exactly the paths both grant.
\<close>

theorem intersect_set_exact:
  assumes "single_overlap a b"
  shows "grants (intersect_set a b) p \<longleftrightarrow> grants a p \<and> grants b p"
  using intersect_from_complete [OF assms, of p "[]"] grants_intersect_set [of a b p]
  by (auto simp: intersect_set_def)

theorem intersect_set_exact_witness:
  "grants (intersect_set [\<lparr>ps_path = [RootDir, Normal ''ws''], ps_trust = WorkDir\<rparr>]
       [\<lparr>ps_path = [RootDir, Normal ''ws'', Normal ''a''], ps_trust = WorkDir\<rparr>])
     [RootDir, Normal ''ws'', Normal ''a'', Normal ''f'']"
  by (subst intersect_set_exact)
     (simp_all add: single_overlap_def grants_def path_within_def normalize_path_def)

text \<open>
  Otherwise it may lose some: with \<open>/ws\<close> on one side and \<open>/ws/a\<close>, \<open>/ws/b\<close> on the other, both
  sides grant \<open>/ws/b\<close> and the intersection does not, because only the first overlapping scope is
  looked at.
\<close>

theorem intersect_set_first_overlap_only:
  "let a = [\<lparr>ps_path = [RootDir, Normal ''ws''], ps_trust = WorkDir\<rparr>];
       b = [\<lparr>ps_path = [RootDir, Normal ''ws'', Normal ''a''], ps_trust = WorkDir\<rparr>,
            \<lparr>ps_path = [RootDir, Normal ''ws'', Normal ''b''], ps_trust = WorkDir\<rparr>];
       p = [RootDir, Normal ''ws'', Normal ''b'']
   in grants a p \<and> grants b p \<and> \<not> grants (intersect_set a b) p"
  by (simp add: grants_def path_within_def normalize_path_def intersect_set_def overlaps_def
      push_if_new_def)

text \<open>
  The subset check accepts a task policy exactly when every scope it declares lies inside one of
  the tenant's scopes and every egress rule is one of the tenant's; when it rejects, it names at
  least one offender, and each path it names is outside the tenant's scopes.
\<close>

theorem validate_subset_exact:
  "case validate_subset child parent of
     Inr _ \<Rightarrow> ps_path ` set (read_paths (cp_fs child)) \<subseteq>
                {p. grants (read_paths (cp_fs parent)) p} \<and>
              ps_path ` set (write_paths (cp_fs child)) \<subseteq>
                {p. grants (write_paths (cp_fs parent)) p} \<and>
              set (egress (cp_net child)) \<subseteq> set (egress (cp_net parent))
   | Inl v \<Rightarrow> \<not> violation_is_empty v \<and>
       set (fs_read_violations v) =
         {normalize_path (ps_path c) | c. c \<in> set (read_paths (cp_fs child)) \<and>
            \<not> grants (read_paths (cp_fs parent)) (ps_path c)} \<and>
       set (fs_write_violations v) =
         {normalize_path (ps_path c) | c. c \<in> set (write_paths (cp_fs child)) \<and>
            \<not> grants (write_paths (cp_fs parent)) (ps_path c)}"
proof (cases "validate_subset child parent")
  case (Inl v)
  then show ?thesis
    by (auto simp: validate_subset_def Let_def check_paths_def grants_def split: if_splits)
next
  case (Inr u)
  then show ?thesis using validate_subset_ok_iff [of child parent] by auto
qed

text \<open>
  A task admitted by the check runs under a policy that keeps its role and, for a reader, has no
  egress and writes only to scopes trusted as working directory.
\<close>

theorem admitted_policy:
  assumes "resolve_and_validate op te ta role = Inr eff"
  shows "validate_subset ta te = Inr () \<and> ep_agent_role eff = role \<and>
    (role = Reader \<longrightarrow> egress (ep_net eff) = [] \<and>
       (\<forall>s \<in> set (write_paths (ep_fs eff)). ps_trust s = WorkDir))"
  using assms
  by (auto simp: resolve_and_validate_def resolve_effective_def Let_def split: sum.splits)

theorem admitted_policy_witness:
  "ep_agent_role (resolve_effective capability_policy_default capability_policy_default
     capability_policy_default Reader) = Reader"
  using admitted_policy [of capability_policy_default capability_policy_default
      capability_policy_default Reader]
  by (simp add: resolve_and_validate_def validate_subset_def capability_policy_default_def
      check_paths_def violation_is_empty_def)

text \<open>
  The trust level is taken from whichever scope is the narrower: a reader task that declares its
  own scope below a \<open>Host\<close> scope of operator and tenant as \<open>WorkDir\<close> is admitted and keeps a write
  path that neither of them trusts for writing by readers.
\<close>

theorem reader_self_declared_trust:
  "let host = \<lparr>cp_fs = \<lparr>read_paths = [], write_paths =
                 [\<lparr>ps_path = [RootDir, Normal ''srv''], ps_trust = Host\<rparr>]\<rparr>,
               cp_net = \<lparr>egress = []\<rparr>\<rparr>;
       task = \<lparr>cp_fs = \<lparr>read_paths = [], write_paths =
                 [\<lparr>ps_path = [RootDir, Normal ''srv'', Normal ''db''], ps_trust = WorkDir\<rparr>]\<rparr>,
               cp_net = \<lparr>egress = []\<rparr>\<rparr>
   in case resolve_and_validate host host task Reader of
        Inl _ \<Rightarrow> False
      | Inr eff \<Rightarrow> grants (write_paths (ep_fs eff)) [RootDir, Normal ''srv'', Normal ''db''] \<and>
          \<not> grants (write_paths (ep_fs (role_narrow
                \<lparr>ep_fs = cp_fs host, ep_net = cp_net host, ep_agent_role = Reader\<rparr> Reader)))
             [RootDir, Normal ''srv'', Normal ''db'']"
  by (simp add: resolve_and_validate_def validate_subset_def check_paths_def violation_is_empty_def
      path_within_def normalize_path_def resolve_effective_def intersect_set_def overlaps_def
      push_if_new_def grants_def)

end
