(* ===== verification/Projection.thy ===== *)
theory Projection
  imports Policy
begin

text \<open>
  \<open>src/projection.rs\<close>, first part: the in-memory projection of one task. Every event of the task's
  stream is applied in turn and updates the head (state, type, provenance, body), the indexes by
  sequence number and by turn, the sets of active turns and steps, the latest summary and the token
  counters; the queries read those fields. Times are nanoseconds; the instant of each application is
  an argument.
\<close>

section \<open>Decoding\<close>

text \<open>
  The JSON library and the derived (de)serialisers of \<open>Provenance\<close>, \<open>EffectivePolicy\<close> and
  \<open>CapabilityPolicy\<close> are not part of the program: they are parameters. \<open>from_slice\<close> is \<open>None\<close> on text that is no JSON.
\<close>

record codec =
  from_slice :: "string \<Rightarrow> json option"
  to_vec :: "json \<Rightarrow> string"
  dec_provenance :: "json \<Rightarrow> provenance option"
  enc_provenance :: "provenance \<Rightarrow> json"
  dec_effective :: "json \<Rightarrow> effective_policy option"
  enc_effective :: "effective_policy \<Rightarrow> json"
  policy_from_slice :: "string \<Rightarrow> capability_policy option"
  policy_to_vec :: "capability_policy \<Rightarrow> string"

type_synonym metadata = "(string \<times> string) list"

section \<open>The projection\<close>

record task_projection =
  tp_task_id :: string
  tp_task_type :: string
  tp_provenance :: provenance
  tp_body :: "json option"
  tp_priority :: int
  tp_effective_policy :: "effective_policy option"
  tp_state :: task_state
  tp_max_seq :: int
  tp_max_turn_id :: int
  tp_by_seq :: "(int \<times> agent_event) list"
  tp_by_turn_id :: "(int \<times> int list) list"
  tp_active_turns :: "int list"
  tp_active_steps :: "(string \<times> int \<times> agent_event) list"
  tp_completed_steps :: "(string \<times> int \<times> agent_event \<times> string \<times> int) list"
  tp_latest_summary :: "json option"
  tp_summarized_up_to_seq :: int
  tp_summarized_up_to_turn_id :: int
  tp_token_stats :: "(string \<times> token_usage_stats) list"
  tp_recent_turn_ids :: "int list"

definition projection_new :: "int \<Rightarrow> string \<Rightarrow> task_projection" where
  "projection_new now task_id =
     \<lparr>tp_task_id = task_id, tp_task_type = [],
      tp_provenance =
        \<lparr>pv_source_channel = [], pv_source_session_id = None, pv_source_user_id = None,
         pv_source_tenant_id = None, pv_source_message_id = None, pv_created_at = now,
         pv_created_by = []\<rparr>,
      tp_body = None, tp_priority = 0, tp_effective_policy = None, tp_state = Created,
      tp_max_seq = 0, tp_max_turn_id = 0, tp_by_seq = [], tp_by_turn_id = [],
      tp_active_turns = [], tp_active_steps = [], tp_completed_steps = [],
      tp_latest_summary = None, tp_summarized_up_to_seq = 0, tp_summarized_up_to_turn_id = 0,
      tp_token_stats = [], tp_recent_turn_ids = []\<rparr>"

section \<open>Applying one event\<close>

text \<open>\<open>metadata.get("turn_id").and_then(parse)\<close>.\<close>

definition meta_turn_id :: "metadata \<Rightarrow> int option" where
  "meta_turn_id m = Option.bind (map_of m ''turn_id'') parse_i64"

definition index_event :: "int \<Rightarrow> int option \<Rightarrow> agent_event \<Rightarrow> task_projection \<Rightarrow> task_projection" where
  "index_event seq turn_id ae p =
     (let p = p\<lparr>tp_max_seq := max (tp_max_seq p) seq\<rparr>;
          p = (case turn_id of None \<Rightarrow> p
               | Some tid \<Rightarrow> p\<lparr>tp_max_turn_id := max (tp_max_turn_id p) tid\<rparr>);
          p = p\<lparr>tp_by_seq := AList.update seq ae (tp_by_seq p)\<rparr>
      in case turn_id of
           None \<Rightarrow> p
         | Some tid \<Rightarrow>
             p\<lparr>tp_by_turn_id := AList.update tid
                  (unwrap_or [] (map_of (tp_by_turn_id p) tid) @ [seq]) (tp_by_turn_id p),
               tp_recent_turn_ids := tp_recent_turn_ids p @ [tid]\<rparr>)"

definition non_null :: "json option \<Rightarrow> json option" where
  "non_null v = (case v of None \<Rightarrow> None | Some j \<Rightarrow> if is_null j then None else Some j)"

definition apply_task_created :: "codec \<Rightarrow> json \<Rightarrow> task_projection \<Rightarrow> task_projection" where
  "apply_task_created cd payload p =
     p\<lparr>tp_task_type := unwrap_or ''?'' (as_str (jindex payload ''task_type'')),
       tp_provenance := (case Option.bind (jget ''provenance'' payload) (dec_provenance cd) of
                           None \<Rightarrow> tp_provenance p | Some prov \<Rightarrow> prov),
       tp_body := non_null (jget ''body'' payload),
       tp_priority := wrap_i32 (unwrap_or 0 (as_i64 (jindex payload ''priority''))),
       tp_effective_policy :=
         Option.bind (non_null (jget ''effective_policy'' payload)) (dec_effective cd),
       tp_state := Created\<rparr>"

definition apply_turn_started :: "int option \<Rightarrow> task_projection \<Rightarrow> task_projection" where
  "apply_turn_started turn_id p =
     (let p = (if tp_state p = Ready \<or> tp_state p = Claimed then p\<lparr>tp_state := Executing\<rparr> else p)
      in case turn_id of None \<Rightarrow> p
         | Some tid \<Rightarrow> p\<lparr>tp_active_turns := List.insert tid (tp_active_turns p)\<rparr>)"

definition apply_turn_terminal :: "int option \<Rightarrow> task_projection \<Rightarrow> task_projection" where
  "apply_turn_terminal turn_id p =
     (case turn_id of None \<Rightarrow> p
      | Some tid \<Rightarrow> p\<lparr>tp_active_turns := removeAll tid (tp_active_turns p)\<rparr>)"

definition apply_step_start ::
  "int \<Rightarrow> string option \<Rightarrow> agent_event \<Rightarrow> task_projection \<Rightarrow> task_projection" where
  "apply_step_start seq step_id ae p =
     (case step_id of None \<Rightarrow> p
      | Some sid \<Rightarrow> p\<lparr>tp_active_steps := AList.update sid (seq, ae) (tp_active_steps p)\<rparr>)"

definition apply_step_end ::
  "int \<Rightarrow> string option \<Rightarrow> event_type \<Rightarrow> task_projection \<Rightarrow> task_projection" where
  "apply_step_end seq step_id et p =
     (case step_id of
        None \<Rightarrow> p
      | Some sid \<Rightarrow>
          (case map_of (tp_active_steps p) sid of
             None \<Rightarrow> p
           | Some (start_seq, start_ev) \<Rightarrow>
               p\<lparr>tp_active_steps := AList.delete sid (tp_active_steps p),
                 tp_completed_steps := AList.update sid
                   (start_seq, start_ev, event_type_as_str et, seq) (tp_completed_steps p)\<rparr>))"

definition empty_stats :: "string \<Rightarrow> token_usage_stats" where
  "empty_stats model = \<lparr>tu_model = model, tu_call_count = 0, tu_prompt_tokens = 0,
     tu_completion_tokens = 0, tu_total_tokens = 0\<rparr>"

definition add_usage :: "json \<Rightarrow> token_usage_stats \<Rightarrow> token_usage_stats" where
  "add_usage usage e =
     e\<lparr>tu_call_count := add_i64 (tu_call_count e) 1,
       tu_prompt_tokens := add_i64 (tu_prompt_tokens e)
         (unwrap_or 0 (as_i64 (jindex usage ''prompt_tokens''))),
       tu_completion_tokens := add_i64 (tu_completion_tokens e)
         (unwrap_or 0 (as_i64 (jindex usage ''completion_tokens''))),
       tu_total_tokens := add_i64 (tu_total_tokens e)
         (unwrap_or 0 (as_i64 (jindex usage ''total_tokens'')))\<rparr>"

definition apply_tokens :: "json \<Rightarrow> task_projection \<Rightarrow> task_projection" where
  "apply_tokens payload p =
     (case jget ''usage'' payload of
        None \<Rightarrow> p
      | Some usage \<Rightarrow>
          let model = unwrap_or ''?'' (as_str (jindex payload ''model''));
              entry = unwrap_or (empty_stats model) (map_of (tp_token_stats p) model)
          in p\<lparr>tp_token_stats := AList.update model (add_usage usage entry) (tp_token_stats p)\<rparr>)"

definition apply_summary :: "int \<Rightarrow> json \<Rightarrow> task_projection \<Rightarrow> task_projection" where
  "apply_summary seq payload p =
     p\<lparr>tp_latest_summary := Some payload,
       tp_summarized_up_to_seq := unwrap_or seq (as_i64 (jindex payload ''summarized_up_to_seq'')),
       tp_summarized_up_to_turn_id := unwrap_or (tp_summarized_up_to_turn_id p)
         (as_i64 (jindex payload ''summarized_up_to_turn_id''))\<rparr>"

definition apply_head ::
  "codec \<Rightarrow> int \<Rightarrow> int option \<Rightarrow> string option \<Rightarrow> event_type \<Rightarrow> json \<Rightarrow> agent_event
    \<Rightarrow> task_projection \<Rightarrow> task_projection" where
  "apply_head cd seq turn_id step_id et payload ae p =
     (case et of
        TaskCreated \<Rightarrow> apply_task_created cd payload p
      | TaskReady \<Rightarrow> p\<lparr>tp_state := Ready\<rparr>
      | TaskClaimed \<Rightarrow> p\<lparr>tp_state := Claimed\<rparr>
      | TaskBlocked \<Rightarrow> p\<lparr>tp_state := Blocked\<rparr>
      | TaskSucceeded \<Rightarrow> p\<lparr>tp_state := Succeeded\<rparr>
      | TaskFailed \<Rightarrow> p\<lparr>tp_state := Failed\<rparr>
      | TaskCanceled \<Rightarrow> p\<lparr>tp_state := Canceled\<rparr>
      | TurnStarted \<Rightarrow> apply_turn_started turn_id p
      | TurnCompleted \<Rightarrow> apply_turn_terminal turn_id p
      | TurnFailed \<Rightarrow> apply_turn_terminal turn_id p
      | TurnCanceled \<Rightarrow> apply_turn_terminal turn_id p
      | TurnBlocked \<Rightarrow> apply_turn_terminal turn_id p
      | LlmInvoked \<Rightarrow> apply_step_start seq step_id ae p
      | ToolInvoked \<Rightarrow> apply_step_start seq step_id ae p
      | LlmCompleted \<Rightarrow> apply_tokens payload (apply_step_end seq step_id et p)
      | LlmFailed \<Rightarrow> apply_step_end seq step_id et p
      | ToolCompleted \<Rightarrow> apply_step_end seq step_id et p
      | ToolFailed \<Rightarrow> apply_step_end seq step_id et p
      | SummaryMarker \<Rightarrow> apply_summary seq payload p
      | _ \<Rightarrow> p)"

definition apply_event ::
  "codec \<Rightarrow> int \<Rightarrow> int \<Rightarrow> string \<Rightarrow> string \<Rightarrow> metadata \<Rightarrow> (app_error, task_projection, unit) opn" where
  "apply_event cd now seq event_type content metadata p =
     (let seq = wrap_i64 seq
      in case event_type_from_str event_type of
           None \<Rightarrow> (Inl (InvalidEventType event_type), p)
         | Some et \<Rightarrow>
             let payload = unwrap_or JNull (from_slice cd content);
                 turn_id = meta_turn_id metadata;
                 step_id = map_of metadata ''step_id'';
                 ae = \<lparr>ae_task_id = tp_task_id p, ae_seq = seq, ae_turn_id = turn_id,
                       ae_step_id = step_id, ae_event_type = et, ae_schema_version = 1,
                       ae_payload = payload, ae_created_at = now\<rparr>
             in (Inr (), apply_head cd seq turn_id step_id et payload ae
                           (index_event seq turn_id ae p)))"

section \<open>Queries\<close>

definition by_seq :: "int \<Rightarrow> task_projection \<Rightarrow> agent_event option" where
  "by_seq seq p = map_of (tp_by_seq p) seq"

definition turn_seqs :: "int \<Rightarrow> task_projection \<Rightarrow> int list" where
  "turn_seqs turn_id p = unwrap_or [] (map_of (tp_by_turn_id p) turn_id)"

text \<open>Queries that iterate a hash map or set take its iteration order as an argument.\<close>

type_synonym 'a iter = "'a list \<Rightarrow> 'a list"

definition after_seq :: "(int \<times> agent_event) iter \<Rightarrow> int \<Rightarrow> task_projection \<Rightarrow> agent_event list" where
  "after_seq ord n p = map snd (filter (\<lambda>(s, _). s > n) (ord (tp_by_seq p)))"

definition incomplete_turns :: "int iter \<Rightarrow> task_projection \<Rightarrow> incomplete_turn list" where
  "incomplete_turns ord p =
     List.map_filter
       (\<lambda>tid. case map_of (tp_by_turn_id p) tid of
                Some (s # _) \<Rightarrow>
                  map_option
                    (\<lambda>e. \<lparr>it_turn_id = tid,
                          it_redo_group = unwrap_or ''?'' (as_str (jindex (ae_payload e) ''redo_group'')),
                          it_redo_count =
                            wrap_i32 (unwrap_or 0 (as_i64 (jindex (ae_payload e) ''redo_count''))),
                          it_turn_started_at = ae_created_at e\<rparr>)
                    (map_of (tp_by_seq p) s)
              | _ \<Rightarrow> None)
       (ord (tp_active_turns p))"

definition incomplete_steps ::
  "(string \<times> int \<times> agent_event) iter \<Rightarrow> task_projection \<Rightarrow> incomplete_step list" where
  "incomplete_steps ord p =
     map (\<lambda>(sid, seq, ev).
            \<lparr>is_seq = seq, is_turn_id = unwrap_or 0 (ae_turn_id ev), is_step_id = sid,
             is_start_event_type = event_type_as_str (ae_event_type ev), is_payload = ae_payload ev,
             is_started_at = ae_created_at ev\<rparr>)
       (ord (tp_active_steps p))"

text \<open>\<open>num_milliseconds\<close> of a duration in nanoseconds, rounded towards zero.\<close>

definition num_milliseconds :: "int \<Rightarrow> int" where
  "num_milliseconds d = sgn d * (\<bar>d\<bar> div 1000000)"

definition step_of :: "task_projection \<Rightarrow> int \<Rightarrow> step_execution option" where
  "step_of p s =
     (case map_of (tp_by_seq p) s of
        None \<Rightarrow> None
      | Some ev \<Rightarrow>
          (case ae_step_id ev of
             None \<Rightarrow> None
           | Some sid \<Rightarrow>
               if is_step_start (ae_event_type ev) then
                 let (ended_at, end_event, duration) =
                       (case map_of (tp_completed_steps p) sid of
                          None \<Rightarrow> (None, None, None)
                        | Some (_, _, term_type, term_seq) \<Rightarrow>
                            let term_ev = map_of (tp_by_seq p) term_seq
                            in (map_option ae_created_at term_ev, Some term_type,
                                map_option (\<lambda>t. num_milliseconds (ae_created_at t - ae_created_at ev))
                                  term_ev))
                 in Some \<lparr>se_step_id = sid,
                          se_step_type = Option.bind (jget ''step_type'' (ae_payload ev)) as_str,
                          se_started_at = ae_created_at ev, se_ended_at = ended_at,
                          se_end_event = end_event, se_duration_ms = duration\<rparr>
               else None))"

definition turn_steps :: "int \<Rightarrow> task_projection \<Rightarrow> step_execution list" where
  "turn_steps turn_id p =
     sort_key se_started_at (List.map_filter (step_of p) (turn_seqs turn_id p))"

definition llm_payloads_after_seq ::
  "codec \<Rightarrow> (int \<times> agent_event) iter \<Rightarrow> int \<Rightarrow> task_projection \<Rightarrow> string list" where
  "llm_payloads_after_seq cd ord n p =
     map (\<lambda>(_, e). to_vec cd (ae_payload e))
       (filter (\<lambda>(_, e). ae_event_type e = LlmCompleted)
         (filter (\<lambda>(s, _). s > n) (ord (tp_by_seq p))))"

section \<open>Replaying a log\<close>

text \<open>
  A record as the broker delivers it, with the instant the program reads it. Replaying ignores the
  records \<open>apply\<close> rejects, as every caller does.
\<close>

record record_frame =
  rf_seq :: int
  rf_event_type :: string
  rf_content :: string
  rf_metadata :: metadata

definition apply_record ::
  "codec \<Rightarrow> int \<times> record_frame \<Rightarrow> task_projection \<Rightarrow> task_projection" where
  "apply_record cd x p =
     snd (apply_event cd (fst x) (rf_seq (snd x)) (rf_event_type (snd x)) (rf_content (snd x))
            (rf_metadata (snd x)) p)"

definition replay :: "codec \<Rightarrow> (int \<times> record_frame) list \<Rightarrow> task_projection \<Rightarrow> task_projection" where
  "replay cd = fold (apply_record cd)"

text \<open>The event a record stands for, \<open>None\<close> when its type is unknown.\<close>

definition decode_record :: "codec \<Rightarrow> string \<Rightarrow> int \<times> record_frame \<Rightarrow> agent_event option" where
  "decode_record cd task_id x =
     map_option
       (\<lambda>et. \<lparr>ae_task_id = task_id, ae_seq = wrap_i64 (rf_seq (snd x)),
              ae_turn_id = meta_turn_id (rf_metadata (snd x)),
              ae_step_id = map_of (rf_metadata (snd x)) ''step_id'', ae_event_type = et,
              ae_schema_version = 1,
              ae_payload = unwrap_or JNull (from_slice cd (rf_content (snd x))),
              ae_created_at = fst x\<rparr>)
       (event_type_from_str (rf_event_type (snd x)))"

definition events_of :: "codec \<Rightarrow> string \<Rightarrow> (int \<times> record_frame) list \<Rightarrow> agent_event list" where
  "events_of cd task_id recs = List.map_filter (decode_record cd task_id) recs"

definition apply_ae :: "codec \<Rightarrow> agent_event \<Rightarrow> task_projection \<Rightarrow> task_projection" where
  "apply_ae cd ae p =
     apply_head cd (ae_seq ae) (ae_turn_id ae) (ae_step_id ae) (ae_event_type ae) (ae_payload ae) ae
       (index_event (ae_seq ae) (ae_turn_id ae) ae p)"

lemmas head_defs = apply_head_def apply_task_created_def apply_turn_started_def
  apply_turn_terminal_def apply_step_start_def apply_step_end_def apply_tokens_def apply_summary_def

lemma apply_record_decode:
  "apply_record cd x p =
     (case decode_record cd (tp_task_id p) x of None \<Rightarrow> p | Some ae \<Rightarrow> apply_ae cd ae p)"
  by (simp add: apply_record_def apply_event_def decode_record_def apply_ae_def Let_def
      split: option.split)

lemma index_event_fields [simp]:
  "tp_task_id (index_event s t ae p) = tp_task_id p"
  "tp_state (index_event s t ae p) = tp_state p"
  "tp_active_turns (index_event s t ae p) = tp_active_turns p"
  "tp_active_steps (index_event s t ae p) = tp_active_steps p"
  "tp_completed_steps (index_event s t ae p) = tp_completed_steps p"
  "tp_token_stats (index_event s t ae p) = tp_token_stats p"
  "tp_max_seq (index_event s t ae p) = max (tp_max_seq p) s"
  "tp_max_turn_id (index_event s t ae p) =
     (case t of None \<Rightarrow> tp_max_turn_id p | Some tid \<Rightarrow> max (tp_max_turn_id p) tid)"
  "tp_by_seq (index_event s t ae p) = AList.update s ae (tp_by_seq p)"
  "tp_by_turn_id (index_event s t ae p) =
     (case t of None \<Rightarrow> tp_by_turn_id p
      | Some tid \<Rightarrow> AList.update tid (unwrap_or [] (map_of (tp_by_turn_id p) tid) @ [s])
                      (tp_by_turn_id p))"
  "tp_recent_turn_ids (index_event s t ae p) =
     (case t of None \<Rightarrow> tp_recent_turn_ids p | Some tid \<Rightarrow> tp_recent_turn_ids p @ [tid])"
  by (simp_all add: index_event_def Let_def split: option.split)

text \<open>The head update leaves the indexes alone.\<close>

lemma apply_head_indexes [simp]:
  "tp_task_id (apply_head cd s t st et pl ae p) = tp_task_id p"
  "tp_max_seq (apply_head cd s t st et pl ae p) = tp_max_seq p"
  "tp_max_turn_id (apply_head cd s t st et pl ae p) = tp_max_turn_id p"
  "tp_by_seq (apply_head cd s t st et pl ae p) = tp_by_seq p"
  "tp_by_turn_id (apply_head cd s t st et pl ae p) = tp_by_turn_id p"
  "tp_recent_turn_ids (apply_head cd s t st et pl ae p) = tp_recent_turn_ids p"
  by (cases et; simp add: head_defs Let_def split: option.split)+

lemma apply_ae_task_id [simp]: "tp_task_id (apply_ae cd ae p) = tp_task_id p"
  by (simp add: apply_ae_def)

lemma replay_events:
  "replay cd recs p = fold (apply_ae cd) (events_of cd (tp_task_id p) recs) p"
proof (induction recs arbitrary: p)
  case Nil
  then show ?case by (simp add: replay_def events_of_def List.map_filter_simps)
next
  case (Cons x recs)
  have "replay cd (x # recs) p = replay cd recs (apply_record cd x p)"
    by (simp add: replay_def)
  then show ?case
    by (simp add: Cons apply_record_decode events_of_def List.map_filter_simps split: option.split)
qed

section \<open>The state the projection derives\<close>

fun next_state :: "task_state \<Rightarrow> event_type \<Rightarrow> task_state" where
  "next_state s TurnStarted = (if s = Ready \<or> s = Claimed then Executing else s)"
| "next_state s e = unwrap_or s (guard_target e)"

lemma apply_head_state [simp]:
  "tp_state (apply_head cd sq t st et pl ae p) = next_state (tp_state p) et"
  by (cases et; simp add: head_defs Let_def split: option.split)

lemma apply_ae_state [simp]:
  "tp_state (apply_ae cd ae p) = next_state (tp_state p) (ae_event_type ae)"
  by (simp add: apply_ae_def)

lemma apply_event_state [simp]:
  "tp_state (snd (apply_event cd now q ty c m p)) =
     (case event_type_from_str ty of None \<Rightarrow> tp_state p | Some et \<Rightarrow> next_state (tp_state p) et)"
  by (simp add: apply_event_def Let_def split: option.split)

lemma fold_state:
  "tp_state (fold (apply_ae cd) evs p) = fold (\<lambda>e s. next_state s e) (map ae_event_type evs) (tp_state p)"
  by (induction evs arbitrary: p) simp_all

text \<open>A log every event of which passed the write guard in the state the log had reached.\<close>

fun guarded_from :: "task_state \<Rightarrow> event_type list \<Rightarrow> bool" where
  "guarded_from s [] = True"
| "guarded_from s (e # es) =
     (validate_task_event_transition (Some s) e = Inr () \<and> guarded_from (next_state s e) es)"

lemma next_state_step: "task_step s e t \<Longrightarrow> next_state s e = t"
  by (erule task_step.cases) auto

lemma next_state_other: "guard_target e = None \<Longrightarrow> next_state s e = s"
  by (cases e) simp_all

lemma guarded_from_run:
  "guarded_from s es \<Longrightarrow> task_run s es (fold (\<lambda>e s. next_state s e) es s)"
proof (induction es arbitrary: s)
  case Nil
  then show ?case by (simp add: task_run.stop)
next
  case (Cons e es)
  then have g: "validate_task_event_transition (Some s) e = Inr ()"
    and r: "task_run (next_state s e) es (fold (\<lambda>e s. next_state s e) es (next_state s e))"
    by auto
  show ?case
  proof (cases "guard_target e")
    case None
    with r show ?thesis by (simp add: next_state_other task_run.stay)
  next
    case (Some t)
    with g have "task_step s e t" by (simp add: guard_iff_task_step)
    with r show ?thesis by (auto simp: next_state_step intro: task_run.move)
  qed
qed

section \<open>Indexes\<close>

lemma fold_turn_seqs:
  "turn_seqs tid (fold (apply_ae cd) evs p) =
     turn_seqs tid p @ map ae_seq (filter (\<lambda>e. ae_turn_id e = Some tid) evs)"
  by (induction evs arbitrary: p)
     (auto simp: apply_ae_def turn_seqs_def hash_lookup_update split: option.split)

lemma fold_recent:
  "tp_recent_turn_ids (fold (apply_ae cd) evs p) =
     tp_recent_turn_ids p @ List.map_filter ae_turn_id evs"
  by (induction evs arbitrary: p)
     (auto simp: apply_ae_def List.map_filter_simps split: option.split)

lemma fold_by_seq:
  "by_seq n (fold (apply_ae cd) evs p) =
     (case filter (\<lambda>e. ae_seq e = n) evs of [] \<Rightarrow> by_seq n p | xs \<Rightarrow> Some (last xs))"
proof (induction evs arbitrary: p)
  case Nil
  then show ?case by simp
next
  case (Cons e evs)
  then show ?case
    by (cases "filter (\<lambda>e. ae_seq e = n) evs")
       (auto simp: apply_ae_def by_seq_def hash_lookup_update split: list.split)
qed

lemma fold_max_seq:
  "tp_max_seq (fold (apply_ae cd) evs p) = fold max (map ae_seq evs) (tp_max_seq p)"
  by (induction evs arbitrary: p) (simp_all add: apply_ae_def max.commute)

lemma fold_by_seq_wf: "hash_wf (tp_by_seq p) \<Longrightarrow> hash_wf (tp_by_seq (fold (apply_ae cd) evs p))"
  by (induction evs arbitrary: p) (simp_all add: apply_ae_def)

section \<open>Active turns, steps and token counters\<close>

lemma apply_ae_active_turns:
  "set (tp_active_turns (apply_ae cd e p)) =
     (case ae_turn_id e of
        None \<Rightarrow> set (tp_active_turns p)
      | Some tid \<Rightarrow>
          if ae_event_type e = TurnStarted then insert tid (set (tp_active_turns p))
          else if is_turn_terminal (ae_event_type e) then set (tp_active_turns p) - {tid}
          else set (tp_active_turns p))"
  by (cases "ae_event_type e"; cases "ae_turn_id e")
     (auto simp: apply_ae_def head_defs Let_def event_class_defs split: option.split)

definition turn_bounds :: "int \<Rightarrow> agent_event list \<Rightarrow> agent_event list" where
  "turn_bounds tid evs =
     filter (\<lambda>e. ae_turn_id e = Some tid \<and>
               (ae_event_type e = TurnStarted \<or> is_turn_terminal (ae_event_type e))) evs"

lemma fold_active_turns:
  "tp_active_turns p = [] \<Longrightarrow>
     tid \<in> set (tp_active_turns (fold (apply_ae cd) evs p)) \<longleftrightarrow>
       turn_bounds tid evs \<noteq> [] \<and> ae_event_type (last (turn_bounds tid evs)) = TurnStarted"
  by (induction evs rule: rev_induct)
     (auto simp: turn_bounds_def apply_ae_active_turns event_class_defs split: option.splits)

lemma apply_ae_active_steps:
  "map_of (tp_active_steps (apply_ae cd e p)) =
     (case ae_step_id e of
        None \<Rightarrow> map_of (tp_active_steps p)
      | Some sid \<Rightarrow>
          if is_step_start (ae_event_type e)
          then (map_of (tp_active_steps p))(sid \<mapsto> (ae_seq e, e))
          else if is_step_terminal (ae_event_type e)
          then (map_of (tp_active_steps p))(sid := None)
          else map_of (tp_active_steps p))"
  by (cases "ae_event_type e"; cases "ae_step_id e")
     (auto simp: apply_ae_def head_defs Let_def event_class_defs hash_lookup_update
        hash_lookup_delete fun_upd_idem split: option.split)

definition step_bounds :: "string \<Rightarrow> agent_event list \<Rightarrow> agent_event list" where
  "step_bounds sid evs =
     filter (\<lambda>e. ae_step_id e = Some sid \<and> is_step_level (ae_event_type e)) evs"

lemma step_level_start_or_end: "is_step_level e \<longleftrightarrow> is_step_start e \<or> is_step_terminal e"
  by (cases e) (simp_all add: event_class_defs)

lemma step_start_not_end: "is_step_start e \<Longrightarrow> \<not> is_step_terminal e"
  by (cases e) (simp_all add: event_class_defs)

lemma fold_active_steps:
  "tp_active_steps p = [] \<Longrightarrow>
     map_of (tp_active_steps (fold (apply_ae cd) evs p)) sid =
       (if step_bounds sid evs \<noteq> [] \<and> is_step_start (ae_event_type (last (step_bounds sid evs)))
        then Some (ae_seq (last (step_bounds sid evs)), last (step_bounds sid evs)) else None)"
  by (induction evs rule: rev_induct)
     (auto simp: step_bounds_def apply_ae_active_steps step_level_start_or_end
        dest: step_start_not_end split: option.splits)

lemma apply_ae_active_steps_wf:
  "hash_wf (tp_active_steps p) \<Longrightarrow> hash_wf (tp_active_steps (apply_ae cd e p))"
  by (cases "ae_event_type e")
     (simp_all add: apply_ae_def head_defs Let_def split: option.split)

lemma fold_active_steps_wf:
  "hash_wf (tp_active_steps p) \<Longrightarrow> hash_wf (tp_active_steps (fold (apply_ae cd) evs p))"
  by (induction evs arbitrary: p) (simp_all add: apply_ae_active_steps_wf)

text \<open>The shape every projection built from records keeps.\<close>

definition projection_ok :: "task_projection \<Rightarrow> bool" where
  "projection_ok p \<longleftrightarrow> hash_wf (tp_by_seq p) \<and> hash_wf (tp_active_steps p) \<and>
     distinct (tp_active_turns p) \<and> (\<forall>n \<in> set (tp_active_turns p). in_i64 n)"

lemma parse_i64_range: "parse_i64 s = Some n \<Longrightarrow> in_i64 n"
  by (auto simp: parse_i64_def Let_def split: list.splits option.splits if_splits)

lemma apply_head_active_turns:
  "tp_active_turns (apply_head cd sq t st et pl ae p) =
     (case t of
        None \<Rightarrow> tp_active_turns p
      | Some n \<Rightarrow> if et = TurnStarted then List.insert n (tp_active_turns p)
                 else if is_turn_terminal et then removeAll n (tp_active_turns p)
                 else tp_active_turns p)"
  by (cases et; cases t) (auto simp: head_defs Let_def event_class_defs split: option.split)

lemma projection_ok_apply [inv_intros]:
  assumes "projection_ok p" "\<And>n. ae_turn_id e = Some n \<Longrightarrow> in_i64 n"
  shows "projection_ok (apply_ae cd e p)"
  using assms apply_ae_active_steps_wf [of p cd e]
  by (auto simp: projection_ok_def apply_ae_def apply_head_active_turns distinct_removeAll
      split: option.splits)

lemma projection_ok_event: "projection_ok p \<Longrightarrow> projection_ok (snd (apply_event cd now q et c m p))"
proof (cases "event_type_from_str et")
  case (Some x)
  let ?r = "\<lparr>rf_seq = q, rf_event_type = et, rf_content = c, rf_metadata = m\<rparr>"
  obtain ae where ae: "decode_record cd (tp_task_id p) (now, ?r) = Some ae"
      "ae_turn_id ae = meta_turn_id m"
    using Some by (simp add: decode_record_def)
  have "snd (apply_event cd now q et c m p) = apply_record cd (now, ?r) p"
    by (simp add: apply_record_def)
  also have "\<dots> = apply_ae cd ae p" using ae by (simp add: apply_record_decode)
  finally have eq: "snd (apply_event cd now q et c m p) = apply_ae cd ae p" .
  have "in_i64 n" if "ae_turn_id ae = Some n" for n
    using that ae(2) parse_i64_range by (cases "map_of m ''turn_id''") (auto simp: meta_turn_id_def)
  then show "projection_ok p \<Longrightarrow> ?thesis"
    unfolding eq by (intro projection_ok_apply)
qed (simp add: apply_event_def Let_def)

text \<open>The completed LLM calls of one model, and one counter of their usage.\<close>

definition counts_for :: "string \<Rightarrow> agent_event \<Rightarrow> bool" where
  "counts_for model e \<longleftrightarrow> ae_event_type e = LlmCompleted \<and> jget ''usage'' (ae_payload e) \<noteq> None \<and>
     unwrap_or ''?'' (as_str (jindex (ae_payload e) ''model'')) = model"

definition usage_count :: "string \<Rightarrow> agent_event \<Rightarrow> int" where
  "usage_count field e = unwrap_or 0 (as_i64 (jindex (jindex (ae_payload e) ''usage'') field))"

definition usage_total :: "string \<Rightarrow> agent_event list \<Rightarrow> token_usage_stats" where
  "usage_total model evs =
     \<lparr>tu_model = model, tu_call_count = wrap_i64 (int (length evs)),
      tu_prompt_tokens = wrap_i64 (sum_list (map (usage_count ''prompt_tokens'') evs)),
      tu_completion_tokens = wrap_i64 (sum_list (map (usage_count ''completion_tokens'') evs)),
      tu_total_tokens = wrap_i64 (sum_list (map (usage_count ''total_tokens'') evs))\<rparr>"

lemma apply_head_tokens:
  "tp_token_stats (apply_head cd sq t st et pl ae p) =
     (if et = LlmCompleted then tp_token_stats (apply_tokens pl p) else tp_token_stats p)"
  by (cases et) (simp_all add: head_defs Let_def split: option.split)

lemma apply_ae_tokens:
  "map_of (tp_token_stats (apply_ae cd e p)) model =
     (if counts_for model e
      then Some (add_usage (jindex (ae_payload e) ''usage'')
             (unwrap_or (empty_stats model) (map_of (tp_token_stats p) model)))
      else map_of (tp_token_stats p) model)"
  by (auto simp: apply_ae_def apply_head_tokens counts_for_def apply_tokens_def Let_def
      hash_lookup_update jindex_def split: option.split)

lemma in_i64_small [simp]: "in_i64 0" "in_i64 1"
  by (simp_all add: in_i64_def)

lemma fold_tokens:
  assumes "tp_token_stats p = []"
  shows "map_of (tp_token_stats (fold (apply_ae cd) evs p)) model =
     (case filter (counts_for model) evs of [] \<Rightarrow> None | xs \<Rightarrow> Some (usage_total model xs))"
proof (induction evs rule: rev_induct)
  case Nil
  then show ?case using assms by simp
next
  case (snoc e evs)
  then show ?case
    by (cases "filter (counts_for model) evs")
       (auto simp: apply_ae_tokens usage_total_def add_usage_def empty_stats_def add_i64_def
          usage_count_def ac_simps split: list.split)
qed

lemma projection_new_simps [simp]:
  "tp_task_id (projection_new now t) = t"
  "tp_state (projection_new now t) = Created"
  "tp_active_turns (projection_new now t) = []"
  "tp_active_steps (projection_new now t) = []"
  "tp_token_stats (projection_new now t) = []"
  "tp_recent_turn_ids (projection_new now t) = []"
  "tp_by_seq (projection_new now t) = []"
  "tp_by_turn_id (projection_new now t) = []"
  "tp_max_seq (projection_new now t) = 0"
  by (simp_all add: projection_new_def)

lemma projection_ok_new [simp, inv_intros]: "projection_ok (projection_new now t)"
  by (simp add: projection_ok_def)

lemma projection_ok_replay [inv_intros]: "projection_ok p \<Longrightarrow> projection_ok (replay cd recs p)"
  by (induction recs arbitrary: p)
     (simp_all add: replay_def apply_record_def projection_ok_event)

lemma queries_new [simp]:
  "turn_seqs tid (projection_new now t) = []" "by_seq n (projection_new now t) = None"
  by (simp_all add: turn_seqs_def by_seq_def)

text \<open>A codec and records for the examples: every content decodes to one given value.\<close>

definition sample_codec :: "json \<Rightarrow> codec" where
  "sample_codec j = \<lparr>from_slice = (\<lambda>_. Some j), to_vec = (\<lambda>_. []), dec_provenance = (\<lambda>_. None),
     enc_provenance = (\<lambda>_. JNull), dec_effective = (\<lambda>_. None), enc_effective = (\<lambda>_. JNull),
     policy_from_slice = (\<lambda>_. None), policy_to_vec = (\<lambda>_. [])\<rparr>"

definition sample_record :: "int \<Rightarrow> event_type \<Rightarrow> metadata \<Rightarrow> int \<times> record_frame" where
  "sample_record seq et m = (seq, \<lparr>rf_seq = seq, rf_event_type = event_type_as_str et,
     rf_content = [], rf_metadata = m\<rparr>)"

lemma decode_sample_record:
  "decode_record (sample_codec j) t (sample_record seq et m) =
     Some \<lparr>ae_task_id = t, ae_seq = wrap_i64 seq, ae_turn_id = meta_turn_id m,
           ae_step_id = map_of m ''step_id'', ae_event_type = et, ae_schema_version = 1,
           ae_payload = j, ae_created_at = seq\<rparr>"
  by (simp add: decode_record_def sample_record_def sample_codec_def)

section \<open>Properties\<close>

text \<open>
  C3. A log that starts with \<open>task_created\<close> and whose later events each pass the write guard drives
  the projection along the task machine: the state read from the projection is the state the run of
  the machine reaches, whatever else (payloads, metadata, unknown records) the log contains.
\<close>

theorem projection_follows_machine:
  assumes "map ae_event_type (events_of cd t recs) = TaskCreated # es" "guarded_from Created es"
  shows "task_run Created es (tp_state (replay cd recs (projection_new now t)))"
  using guarded_from_run [OF assms(2)] assms(1) by (simp add: replay_events fold_state)

theorem projection_follows_machine_witness:
  "task_run Created [TaskReady, TurnStarted, TaskSucceeded]
     (tp_state (replay (sample_codec JNull)
        [sample_record 1 TaskCreated [], sample_record 2 TaskReady [],
         sample_record 3 TurnStarted [(''turn_id'', ''1'')], sample_record 4 TaskSucceeded []]
        (projection_new 0 ''t'')))"
  by (rule projection_follows_machine)
     (simp_all add: events_of_def List.map_filter_simps decode_sample_record
        validate_task_event_transition_def can_transition_def is_terminal_def)

text \<open>
  Once the projection of a guarded log is in a terminal state it stays there, and every further
  event the guard lets through leaves the task state alone.
\<close>

theorem projection_terminal_final:
  assumes "is_terminal (tp_state p)" "guarded_from (tp_state p) (map ae_event_type (events_of cd (tp_task_id p) recs))"
  shows "tp_state (replay cd recs p) = tp_state p"
  using task_run_terminal [OF guarded_from_run [OF assms(2)] assms(1)]
  by (simp add: replay_events fold_state)

theorem projection_terminal_final_witness:
  "tp_state (replay (sample_codec JNull) [sample_record 9 LlmInvoked [], sample_record 10 TurnCompleted []]
     (projection_new 0 ''t''\<lparr>tp_state := Failed\<rparr>)) = Failed"
  by (subst projection_terminal_final)
     (simp_all add: is_terminal_def events_of_def List.map_filter_simps decode_sample_record
        validate_task_event_transition_def projection_new_def)

text \<open>
  C13. The active turns of a task are exactly the turns whose last boundary event in the log, a start
  or a terminal event, is a start.
\<close>

theorem active_turns_exact:
  "tid \<in> set (tp_active_turns (replay cd recs (projection_new now t))) \<longleftrightarrow>
     turn_bounds tid (events_of cd t recs) \<noteq> [] \<and>
     ae_event_type (last (turn_bounds tid (events_of cd t recs))) = TurnStarted"
  by (simp add: replay_events fold_active_turns)

text \<open>
  C14. The incomplete steps are exactly the steps whose last event is a start, each listed once, in
  whatever order the hash map yields them.
\<close>

theorem incomplete_steps_exact:
  assumes "hash_order ord"
  shows "distinct (map is_step_id (incomplete_steps ord (replay cd recs (projection_new now t)))) \<and>
    (sid \<in> is_step_id ` set (incomplete_steps ord (replay cd recs (projection_new now t))) \<longleftrightarrow>
       step_bounds sid (events_of cd t recs) \<noteq> [] \<and>
       is_step_start (ae_event_type (last (step_bounds sid (events_of cd t recs)))))"
proof -
  let ?p = "replay cd recs (projection_new now t)"
  have wf: "hash_wf (tp_active_steps ?p)"
    by (simp add: replay_events fold_active_steps_wf)
  have ids: "map is_step_id (incomplete_steps ord ?p) = map fst (ord (tp_active_steps ?p))"
    by (simp add: incomplete_steps_def split_beta)
  have "mset (map fst (ord (tp_active_steps ?p))) = mset (map fst (tp_active_steps ?p))"
    using assms unfolding hash_order_def by (metis mset_map)
  then have "distinct (map fst (ord (tp_active_steps ?p)))"
    using wf mset_eq_imp_distinct_iff unfolding hash_wf_def by blast
  moreover have "is_step_id ` set (incomplete_steps ord ?p) = fst ` set (tp_active_steps ?p)"
    using ids hash_order_set [OF assms, of "tp_active_steps ?p"] by (metis list.set_map)
  moreover have "sid \<in> fst ` set (tp_active_steps ?p) \<longleftrightarrow> map_of (tp_active_steps ?p) sid \<noteq> None"
    by (simp add: map_of_eq_None_iff)
  ultimately show ?thesis
    using ids by (simp add: replay_events fold_active_steps)
qed

theorem incomplete_steps_exact_witness:
  "is_step_id ` set (incomplete_steps (\<lambda>xs. xs) (replay (sample_codec JNull)
     [sample_record 1 LlmInvoked [(''step_id'', ''s'')], sample_record 2 ToolInvoked [(''step_id'', ''u'')],
      sample_record 3 LlmCompleted [(''step_id'', ''s'')]] (projection_new 0 ''t''))) \<supseteq> {''u''}"
  using incomplete_steps_exact [OF hash_order_id, where sid = "''u''" and cd = "sample_codec JNull"
      and recs = "[sample_record 1 LlmInvoked [(''step_id'', ''s'')],
        sample_record 2 ToolInvoked [(''step_id'', ''u'')],
        sample_record 3 LlmCompleted [(''step_id'', ''s'')]]" and now = 0 and t = "''t''"]
  by (simp add: events_of_def List.map_filter_simps decode_sample_record step_bounds_def
      event_class_defs)

text \<open>
  The indexes are faithful to the log: the sequence numbers of a turn are those of its events in
  log order, and looking a number up gives the last event written under it.
\<close>

theorem projection_indexes_log:
  "turn_seqs tid (replay cd recs (projection_new now t)) =
     map ae_seq (filter (\<lambda>e. ae_turn_id e = Some tid) (events_of cd t recs)) \<and>
   by_seq n (replay cd recs (projection_new now t)) =
     (case filter (\<lambda>e. ae_seq e = n) (events_of cd t recs) of [] \<Rightarrow> None | xs \<Rightarrow> Some (last xs)) \<and>
   tp_max_seq (replay cd recs (projection_new now t)) =
     fold max (map ae_seq (events_of cd t recs)) 0"
  by (simp add: replay_events fold_turn_seqs fold_by_seq fold_max_seq split: list.split)

text \<open>
  The token counters of a model are the sums of the usage its completed calls reported, to the
  width of \<open>i64\<close>; a model without such a call has no row.
\<close>

theorem token_counters_exact:
  "map_of (tp_token_stats (replay cd recs (projection_new now t))) model =
     (case filter (counts_for model) (events_of cd t recs) of
        [] \<Rightarrow> None | xs \<Rightarrow> Some (usage_total model xs))"
  by (simp add: replay_events fold_tokens)

end
