(* ===== verification/Event_Store.thy ===== *)
theory Event_Store
  imports Projection
begin

text \<open>
  The \<open>EventStore\<close> trait of \<open>src/storage.rs\<close> as the record of its methods over a state \<open>'s\<close>, and
  the contract the services rely on: reads report a projection of the task, and a write is checked
  by the guard against that projection, then applied to it. The services are written against the
  record and their lemmas proved from the contract; \<open>Broker_Store\<close> discharges it for the
  production store.
\<close>

section \<open>The trait\<close>

record task =
  tk_task_id :: string
  tk_tenant_id :: string
  tk_user_id :: string
  tk_task_type :: string
  tk_state :: task_state
  tk_provenance :: provenance
  tk_body :: "json option"
  tk_created_at :: int
  tk_metadata :: "json option"
  tk_priority :: int
  tk_effective_policy :: "effective_policy option"

record 's event_store =
  es_create_task :: "string \<Rightarrow> string \<Rightarrow> string \<Rightarrow> provenance \<Rightarrow> json option \<Rightarrow> int \<Rightarrow>
    effective_policy option \<Rightarrow> (app_error, 's, string \<times> agent_event) opn"
  es_get_task :: "string \<Rightarrow> (app_error, 's, task option) opn"
  es_task_exists :: "string \<Rightarrow> (app_error, 's, bool) opn"
  es_is_task_ended :: "string \<Rightarrow> (app_error, 's, bool) opn"
  es_get_task_state :: "string \<Rightarrow> (app_error, 's, task_state option) opn"
  es_get_max_seq :: "string \<Rightarrow> (app_error, 's, int) opn"
  es_get_max_turn_id :: "string \<Rightarrow> (app_error, 's, int) opn"
  es_write_event :: "agent_event \<Rightarrow> (app_error, 's, int) opn"
  es_write_events_batch :: "agent_event list \<Rightarrow> (app_error, 's, int list) opn"
  es_get_event :: "string \<Rightarrow> int \<Rightarrow> (app_error, 's, agent_event option) opn"
  es_get_turn_events :: "string \<Rightarrow> int \<Rightarrow> (app_error, 's, agent_event list) opn"
  es_get_events_after_seq :: "string \<Rightarrow> int \<Rightarrow> (app_error, 's, agent_event list) opn"
  es_get_latest_summary :: "string \<Rightarrow> (app_error, 's, agent_event option) opn"
  es_get_turn_steps :: "string \<Rightarrow> int \<Rightarrow> (app_error, 's, step_execution list) opn"
  es_get_incomplete_turns :: "string \<Rightarrow> (app_error, 's, incomplete_turn list) opn"
  es_get_incomplete_steps :: "string \<Rightarrow> (app_error, 's, incomplete_step list) opn"
  es_detect_seq_gaps :: "string \<Rightarrow> (app_error, 's, int list) opn"
  es_is_turn_seq_continuous :: "string \<Rightarrow> int \<Rightarrow> (app_error, 's, bool) opn"
  es_get_token_usage_stats :: "string \<Rightarrow> (app_error, 's, token_usage_stats list) opn"
  es_count_turns_after_seq :: "string \<Rightarrow> int \<Rightarrow> (app_error, 's, int) opn"
  es_count_events_after_seq :: "string \<Rightarrow> int \<Rightarrow> (app_error, 's, int) opn"
  es_get_llm_payloads_after_seq :: "string \<Rightarrow> int \<Rightarrow> (app_error, 's, string list) opn"
  es_get_recent_turn_ids :: "string \<Rightarrow> int \<Rightarrow> (app_error, 's, int list) opn"
  es_publish_turn_begin :: "string \<Rightarrow> string \<Rightarrow> json \<Rightarrow> (app_error, 's, unit) opn"
  es_set_tenant_policy :: "string \<Rightarrow> capability_policy \<Rightarrow> (app_error, 's, unit) opn"
  es_get_tenant_policy :: "string \<Rightarrow> (app_error, 's, capability_policy option) opn"
  es_invalidate_projection :: "string \<Rightarrow> (app_error, 's, unit) opn"
  es_dispatch_tool :: "string \<Rightarrow> agent_event \<Rightarrow> (app_error, 's, unit) opn"
  es_archive_events_before_seq :: "string \<Rightarrow> int \<Rightarrow> (app_error, 's, int \<times> string) opn"

section \<open>The contract\<close>

text \<open>What a write checks, in its order.\<close>

definition validate_write :: "task_state option \<Rightarrow> agent_event \<Rightarrow> app_error + unit" where
  "validate_write current e =
     (case validate_scope e of
        Inl v \<Rightarrow> Inl (LifecycleInvariant v)
      | Inr _ \<Rightarrow>
          (case validate_payload_required_fields (ae_event_type e) (ae_payload e) of
             Inl x \<Rightarrow> Inl x
           | Inr _ \<Rightarrow> validate_task_event_transition current (ae_event_type e)))"

text \<open>An event as it comes back from the log: its payload and ids have been printed and parsed.\<close>

definition stored_event :: "codec \<Rightarrow> agent_event \<Rightarrow> int \<Rightarrow> int \<Rightarrow> agent_event" where
  "stored_event cd e seq now =
     \<lparr>ae_task_id = ae_task_id e, ae_seq = seq,
      ae_turn_id = Option.bind (ae_turn_id e) (\<lambda>n. parse_i64 (show_int n)),
      ae_step_id = ae_step_id e, ae_event_type = ae_event_type e, ae_schema_version = 1,
      ae_payload = unwrap_or JNull (from_slice cd (to_vec cd (ae_payload e))), ae_created_at = now\<rparr>"

definition turn_id_ok :: "agent_event \<Rightarrow> bool" where
  "turn_id_ok e \<longleftrightarrow> (case ae_turn_id e of None \<Rightarrow> True | Some n \<Rightarrow> in_i64 n)"

lemma stored_event_simps [simp]:
  "ae_event_type (stored_event cd e q n) = ae_event_type e"
  "ae_step_id (stored_event cd e q n) = ae_step_id e"
  "ae_task_id (stored_event cd e q n) = ae_task_id e"
  "ae_seq (stored_event cd e q n) = q"
  by (simp_all add: stored_event_def)

lemma stored_event_turn [simp]: "turn_id_ok e \<Longrightarrow> ae_turn_id (stored_event cd e q n) = ae_turn_id e"
  by (auto simp: stored_event_def turn_id_ok_def parse_show_int split: option.splits)

locale projected_store =
  fixes es :: "'s event_store"
    and proj :: "'s \<Rightarrow> string \<Rightarrow> task_projection option"
    and inv :: "'s \<Rightarrow> bool"
    and cd :: codec
    and turns_iter :: "int iter"
    and steps_iter :: "(string \<times> int \<times> agent_event) iter"
  assumes proj_ok: "inv s \<Longrightarrow> proj s t = Some p \<Longrightarrow> projection_ok p"
    and cached_state:
      "inv s \<Longrightarrow> proj s t = Some p \<Longrightarrow>
         \<exists>s'. es_get_task_state es t s = (Inr (Some (tp_state p)), s') \<and> inv s' \<and> proj s' = proj s"
    and cached_exists:
      "inv s \<Longrightarrow> proj s t = Some p \<Longrightarrow>
         \<exists>s'. es_task_exists es t s = (Inr True, s') \<and> inv s' \<and> proj s' = proj s"
    and cached_ended:
      "inv s \<Longrightarrow> proj s t = Some p \<Longrightarrow>
         \<exists>s'. es_is_task_ended es t s = (Inr (is_terminal (tp_state p)), s') \<and> inv s' \<and> proj s' = proj s"
    and cached_max_turn_id:
      "inv s \<Longrightarrow> proj s t = Some p \<Longrightarrow>
         \<exists>s'. es_get_max_turn_id es t s = (Inr (tp_max_turn_id p), s') \<and> inv s' \<and> proj s' = proj s"
    and cached_turn_events:
      "inv s \<Longrightarrow> proj s t = Some p \<Longrightarrow>
         \<exists>s'. es_get_turn_events es t n s =
           (Inr (List.map_filter (\<lambda>q. by_seq q p) (turn_seqs n p)), s') \<and> inv s' \<and> proj s' = proj s"
    and cached_incomplete_turns:
      "inv s \<Longrightarrow> proj s t = Some p \<Longrightarrow>
         \<exists>s'. es_get_incomplete_turns es t s = (Inr (incomplete_turns turns_iter p), s') \<and>
              inv s' \<and> proj s' = proj s"
    and cached_incomplete_steps:
      "inv s \<Longrightarrow> proj s t = Some p \<Longrightarrow>
         \<exists>s'. es_get_incomplete_steps es t s = (Inr (incomplete_steps steps_iter p), s') \<and>
              inv s' \<and> proj s' = proj s"
    and write_invalid:
      "inv s \<Longrightarrow> validate_write (map_option tp_state (proj s (ae_task_id e))) e = Inl x \<Longrightarrow>
         \<exists>s'. es_write_event es e s = (Inl x, s') \<and> inv s' \<and> proj s' = proj s"
    and write_error:
      "inv s \<Longrightarrow> es_write_event es e s = (Inl x, s') \<Longrightarrow> inv s' \<and> proj s' = proj s"
    and write_ok:
      "inv s \<Longrightarrow> es_write_event es e s = (Inr q, s') \<Longrightarrow>
         inv s' \<and> validate_write (map_option tp_state (proj s (ae_task_id e))) e = Inr () \<and>
         (\<exists>now. proj s' = (proj s)(ae_task_id e :=
            map_option (apply_ae cd (stored_event cd e q now)) (proj s (ae_task_id e))))"
begin

text \<open>The states the projections report.\<close>

definition state_of :: "'s \<Rightarrow> string \<Rightarrow> task_state option" where
  "state_of s t = map_option tp_state (proj s t)"

lemma write_ok_inv: "inv s \<Longrightarrow> es_write_event es e s = (Inr q, s') \<Longrightarrow> inv s'"
  using write_ok by blast

lemma write_inv: "inv s \<Longrightarrow> es_write_event es e s = (r, s') \<Longrightarrow> inv s'"
  using write_ok_inv write_error by (cases r) blast+

lemma write_ok_state:
  assumes "inv s" "es_write_event es e s = (Inr q, s')"
  shows "state_of s' t =
    (if t = ae_task_id e then map_option (\<lambda>x. next_state x (ae_event_type e)) (state_of s t)
     else state_of s t)"
  using write_ok [OF assms] by (auto simp: state_of_def option.map_comp comp_def)

lemma write_ok_guard:
  "inv s \<Longrightarrow> es_write_event es e s = (Inr q, s') \<Longrightarrow>
     validate_task_event_transition (state_of s (ae_task_id e)) (ae_event_type e) = Inr ()"
  using write_ok by (fastforce simp: validate_write_def state_of_def split: sum.splits)

end

end
