(* ===== verification/Service.thy ===== *)
theory Service
  imports Event_Store
begin

text \<open>
  \<open>src/service.rs\<close>: the lifecycle of tasks, turns and steps over any event store. A service reads
  what it needs, builds one event and writes it. The clock reading an event carries is the argument
  \<open>now\<close>, a fresh identifier is the argument \<open>fresh\<close>.
\<close>

type_synonym ('s, 'a) svc = "(app_error, 's, 'a) opn"

text \<open>\<open>let seq = store.write_event(&event).await?; Ok(AgentEvent { seq, ..event })\<close>.\<close>

definition write_new :: "'s event_store \<Rightarrow> agent_event \<Rightarrow> ('s, agent_event) svc" where
  "write_new es ev = andThen (es_write_event es ev) (\<lambda>seq. ok (ev\<lparr>ae_seq := seq\<rparr>))"

section \<open>Tasks\<close>

definition create_task ::
  "'s event_store \<Rightarrow> string \<Rightarrow> provenance \<Rightarrow> json option \<Rightarrow> int \<Rightarrow> effective_policy option
    \<Rightarrow> ('s, string \<times> agent_event) svc" where
  "create_task es task_type prov body priority eff =
     (let tenant_id = unwrap_or ''default'' (pv_source_tenant_id prov);
          user_id = unwrap_or [] (pv_source_user_id prov)
      in es_create_task es task_type tenant_id user_id prov body priority eff)"

definition current_state :: "'s event_store \<Rightarrow> string \<Rightarrow> ('s, task_state) svc" where
  "current_state es tid =
     andThen (es_get_task_state es tid) (\<lambda>st.
       case st of None \<Rightarrow> err (TaskNotFound tid) | Some x \<Rightarrow> ok x)"

definition transition_task ::
  "'s event_store \<Rightarrow> int \<Rightarrow> string \<Rightarrow> task_state \<Rightarrow> event_type \<Rightarrow> json \<Rightarrow> ('s, agent_event) svc" where
  "transition_task es now tid target et payload =
     andThen (current_state es tid) (\<lambda>current.
       if \<not> can_transition current target
       then err (InvalidTaskStateTransition tid (task_state_as_str current) (task_state_as_str target))
       else write_new es (agent_event_new now tid None None et payload))"

definition reason_payload :: "string \<Rightarrow> json" where
  "reason_payload reason = JObj [(''reason'', JStr reason)]"

definition with_failure_reason :: "failure_reason option \<Rightarrow> json \<Rightarrow> json" where
  "with_failure_reason fr payload =
     (case fr of None \<Rightarrow> payload | Some r \<Rightarrow> jset ''failure_reason'' (failure_reason_json r) payload)"

definition mark_task_ready :: "'s event_store \<Rightarrow> int \<Rightarrow> string \<Rightarrow> ('s, agent_event) svc" where
  "mark_task_ready es now tid = transition_task es now tid Ready TaskReady (JObj [])"

definition claim_task :: "'s event_store \<Rightarrow> int \<Rightarrow> string \<Rightarrow> string \<Rightarrow> ('s, agent_event) svc" where
  "claim_task es now tid claimant =
     transition_task es now tid Claimed TaskClaimed (JObj [(''claimant'', JStr claimant)])"

definition block_task :: "'s event_store \<Rightarrow> int \<Rightarrow> string \<Rightarrow> string \<Rightarrow> ('s, agent_event) svc" where
  "block_task es now tid reason = transition_task es now tid Blocked TaskBlocked (reason_payload reason)"

definition succeed_task :: "'s event_store \<Rightarrow> int \<Rightarrow> string \<Rightarrow> string \<Rightarrow> ('s, agent_event) svc" where
  "succeed_task es now tid reason =
     transition_task es now tid Succeeded TaskSucceeded (reason_payload reason)"

definition fail_task ::
  "'s event_store \<Rightarrow> int \<Rightarrow> string \<Rightarrow> string \<Rightarrow> failure_reason option \<Rightarrow> ('s, agent_event) svc" where
  "fail_task es now tid reason fr =
     transition_task es now tid Failed TaskFailed (with_failure_reason fr (reason_payload reason))"

definition cancel_task :: "'s event_store \<Rightarrow> int \<Rightarrow> string \<Rightarrow> string \<Rightarrow> ('s, agent_event) svc" where
  "cancel_task es now tid reason =
     andThen (current_state es tid) (\<lambda>current.
       if \<not> can_transition current Canceled
       then err (InvalidTaskStateTransition tid (task_state_as_str current) ''canceled'')
       else write_new es (agent_event_new now tid None None TaskCanceled (reason_payload reason)))"

section \<open>Turns\<close>

text \<open>The wait for a task just created to become visible: at most \<open>n\<close> looks.\<close>

fun wait_exists :: "nat \<Rightarrow> 's event_store \<Rightarrow> string \<Rightarrow> ('s, bool) svc" where
  "wait_exists 0 es tid = ok False"
| "wait_exists (Suc n) es tid =
     attempt (es_task_exists es tid) (\<lambda>r. if r = Inr True then ok True else wait_exists n es tid)"

definition start_turn ::
  "'s event_store \<Rightarrow> int \<Rightarrow> string \<Rightarrow> string \<Rightarrow> string \<Rightarrow> string option
    \<Rightarrow> ('s, int \<times> string \<times> agent_event) svc" where
  "start_turn es now fresh tid user_input redo_group =
     andThen (wait_exists 30 es tid) (\<lambda>exists.
       if \<not> exists then err (TaskNotFound tid)
       else andThen (es_is_task_ended es tid) (\<lambda>ended.
         if ended then err (TaskAlreadyEnded tid)
         else andThen (es_get_max_turn_id es tid) (\<lambda>max_turn.
           let turn_id = add_i64 max_turn 1;
               rg = unwrap_or (''rg_'' @ fresh) redo_group
           in andThen (write_new es (agent_event_new now tid (Some turn_id) None TurnStarted
                         (turn_started_payload user_input rg 0)))
                (\<lambda>ev. ok (turn_id, rg, ev)))))"

definition complete_turn :: "'s event_store \<Rightarrow> int \<Rightarrow> string \<Rightarrow> int \<Rightarrow> string \<Rightarrow> ('s, agent_event) svc" where
  "complete_turn es now tid turn_id final_output =
     write_new es (agent_event_new now tid (Some turn_id) None TurnCompleted
       (turn_completed_payload final_output))"

definition fail_turn ::
  "'s event_store \<Rightarrow> int \<Rightarrow> string \<Rightarrow> int \<Rightarrow> string \<Rightarrow> string \<Rightarrow> string option \<Rightarrow> failure_reason option
    \<Rightarrow> ('s, agent_event) svc" where
  "fail_turn es now tid turn_id error_type error_message stack_trace fr =
     write_new es (agent_event_new now tid (Some turn_id) None TurnFailed
       (turn_failed_payload error_type error_message fr stack_trace))"

definition cancel_turn :: "'s event_store \<Rightarrow> int \<Rightarrow> string \<Rightarrow> int \<Rightarrow> string \<Rightarrow> ('s, agent_event) svc" where
  "cancel_turn es now tid turn_id reason =
     write_new es (agent_event_new now tid (Some turn_id) None TurnCanceled (reason_payload reason))"

definition block_turn :: "'s event_store \<Rightarrow> int \<Rightarrow> string \<Rightarrow> int \<Rightarrow> string \<Rightarrow> ('s, agent_event) svc" where
  "block_turn es now tid turn_id reason =
     write_new es (agent_event_new now tid (Some turn_id) None TurnBlocked (reason_payload reason))"

definition start_turn_redo ::
  "'s event_store \<Rightarrow> int \<Rightarrow> string \<Rightarrow> int \<Rightarrow> string \<Rightarrow> string \<Rightarrow> int \<Rightarrow> ('s, agent_event) svc" where
  "start_turn_redo es now tid turn_id user_input redo_group redo_count =
     write_new es (agent_event_new now tid (Some turn_id) None TurnStarted
       (turn_started_payload user_input redo_group redo_count))"

section \<open>Steps\<close>

definition set_opt :: "string \<Rightarrow> json option \<Rightarrow> json \<Rightarrow> json" where
  "set_opt k v payload = (case v of None \<Rightarrow> payload | Some j \<Rightarrow> jset k j payload)"

definition llm_invoked_payload ::
  "string \<Rightarrow> message list \<Rightarrow> json list option \<Rightarrow> string option \<Rightarrow> int \<Rightarrow> json" where
  "llm_invoked_payload model messages tools temperature local_seq =
     set_opt ''temperature'' (map_option JFloat temperature)
       (set_opt ''tools'' (map_option JArr tools)
         (JObj [(''step_type'', JStr ''llm_call''), (''model'', JStr model),
                (''messages'', JArr (map message_json messages)), (''local_seq'', JInt local_seq)]))"

definition record_llm_invoked ::
  "'s event_store \<Rightarrow> int \<Rightarrow> string \<Rightarrow> int option \<Rightarrow> string \<Rightarrow> string \<Rightarrow> message list \<Rightarrow> json list option
    \<Rightarrow> string option \<Rightarrow> int \<Rightarrow> ('s, agent_event) svc" where
  "record_llm_invoked es now tid turn_id step_id model messages tools temperature local_seq =
     write_new es (agent_event_new now tid turn_id (Some step_id) LlmInvoked
       (llm_invoked_payload model messages tools temperature local_seq))"

definition llm_completed_payload ::
  "string \<Rightarrow> string option \<Rightarrow> tool_call list option \<Rightarrow> usage option \<Rightarrow> string option \<Rightarrow> int \<Rightarrow> json" where
  "llm_completed_payload model content tool_calls usage finish_reason local_seq =
     set_opt ''finish_reason'' (map_option JStr finish_reason)
       (set_opt ''usage'' (map_option usage_json usage)
         (set_opt ''tool_calls'' (map_option (\<lambda>tc. JArr (map tool_call_json tc)) tool_calls)
           (set_opt ''content'' (map_option JStr content)
             (JObj [(''model'', JStr model), (''local_seq'', JInt local_seq)]))))"

definition record_llm_completed ::
  "'s event_store \<Rightarrow> int \<Rightarrow> string \<Rightarrow> int option \<Rightarrow> string \<Rightarrow> string \<Rightarrow> string option
    \<Rightarrow> tool_call list option \<Rightarrow> usage option \<Rightarrow> string option \<Rightarrow> int \<Rightarrow> ('s, agent_event) svc" where
  "record_llm_completed es now tid turn_id step_id model content tool_calls usage finish_reason
      local_seq =
     write_new es (agent_event_new now tid turn_id (Some step_id) LlmCompleted
       (llm_completed_payload model content tool_calls usage finish_reason local_seq))"

definition record_llm_failed ::
  "'s event_store \<Rightarrow> int \<Rightarrow> string \<Rightarrow> int option \<Rightarrow> string \<Rightarrow> string \<Rightarrow> string \<Rightarrow> failure_reason option
    \<Rightarrow> int \<Rightarrow> int \<Rightarrow> ('s, agent_event) svc" where
  "record_llm_failed es now tid turn_id step_id error_type error_message fr attmpt local_seq =
     write_new es (agent_event_new now tid turn_id (Some step_id) LlmFailed
       (with_failure_reason fr
         (JObj [(''error_type'', JStr error_type), (''error_message'', JStr error_message),
                (''attempt'', JInt attmpt), (''local_seq'', JInt local_seq)])))"

definition tool_invoked_body ::
  "string \<Rightarrow> string \<Rightarrow> string \<Rightarrow> json \<Rightarrow> string option \<Rightarrow> int \<Rightarrow> string option \<Rightarrow> int option \<Rightarrow> json" where
  "tool_invoked_body tool_name tool_call_id idempotency_key inp parent_step_id local_seq work_dir
      timeout_ms =
     set_opt ''timeout_ms'' (map_option JInt timeout_ms)
       (set_opt ''work_dir'' (map_option JStr work_dir)
         (set_opt ''parent_step_id'' (map_option JStr parent_step_id)
           (JObj [(''step_type'', JStr ''tool_call''), (''tool_name'', JStr tool_name),
                  (''tool_call_id'', JStr tool_call_id), (''idempotency_key'', JStr idempotency_key),
                  (''input'', inp), (''local_seq'', JInt local_seq)])))"

definition record_tool_invoked ::
  "'s event_store \<Rightarrow> int \<Rightarrow> string \<Rightarrow> int option \<Rightarrow> string \<Rightarrow> string \<Rightarrow> string \<Rightarrow> string \<Rightarrow> json
    \<Rightarrow> string option \<Rightarrow> int \<Rightarrow> string option \<Rightarrow> int option \<Rightarrow> ('s, agent_event) svc" where
  "record_tool_invoked es now tid turn_id step_id tool_name tool_call_id idempotency_key inp
      parent_step_id local_seq work_dir timeout_ms =
     write_new es (agent_event_new now tid turn_id (Some step_id) ToolInvoked
       (tool_invoked_body tool_name tool_call_id idempotency_key inp parent_step_id local_seq
         work_dir timeout_ms))"

definition record_tool_completed ::
  "'s event_store \<Rightarrow> int \<Rightarrow> string \<Rightarrow> int option \<Rightarrow> string \<Rightarrow> string \<Rightarrow> json \<Rightarrow> bool \<Rightarrow> int
    \<Rightarrow> ('s, agent_event) svc" where
  "record_tool_completed es now tid turn_id step_id tool_call_id output is_error local_seq =
     write_new es (agent_event_new now tid turn_id (Some step_id) ToolCompleted
       (JObj [(''tool_call_id'', JStr tool_call_id), (''output'', output),
              (''is_error'', JBool is_error), (''local_seq'', JInt local_seq)]))"

definition tool_failed_event ::
  "int \<Rightarrow> string \<Rightarrow> int option \<Rightarrow> string \<Rightarrow> string \<Rightarrow> string \<Rightarrow> string \<Rightarrow> failure_reason option \<Rightarrow> int
    \<Rightarrow> int \<Rightarrow> agent_event" where
  "tool_failed_event now tid turn_id step_id tool_call_id error_type error_message fr attmpt local_seq =
     agent_event_new now tid turn_id (Some step_id) ToolFailed
       (with_failure_reason fr
         (JObj [(''tool_call_id'', JStr tool_call_id), (''error_type'', JStr error_type),
                (''error_message'', JStr error_message), (''attempt'', JInt attmpt),
                (''local_seq'', JInt local_seq)]))"

definition record_tool_failed ::
  "'s event_store \<Rightarrow> int \<Rightarrow> string \<Rightarrow> int option \<Rightarrow> string \<Rightarrow> string \<Rightarrow> string \<Rightarrow> string
    \<Rightarrow> failure_reason option \<Rightarrow> int \<Rightarrow> int \<Rightarrow> ('s, agent_event) svc" where
  "record_tool_failed es now tid turn_id step_id tool_call_id error_type error_message fr attmpt
      local_seq =
     write_new es (tool_failed_event now tid turn_id step_id tool_call_id error_type error_message fr
       attmpt local_seq)"

section \<open>Summaries and generic events\<close>

record summary_trigger =
  su_turn_count :: int
  su_token_estimate :: int
  su_event_count :: int

definition should_summarize :: "summary_trigger \<Rightarrow> bool" where
  "should_summarize t \<longleftrightarrow>
     su_turn_count t \<ge> 50 \<or> su_token_estimate t \<ge> 80000 \<or> su_event_count t \<ge> 500"

definition payload_tokens :: "codec \<Rightarrow> string \<Rightarrow> int" where
  "payload_tokens cd text =
     unwrap_or 0
       (Option.bind (from_slice cd text) (\<lambda>p.
        Option.bind (jget ''usage'' p) (\<lambda>usage.
        Option.bind (jget ''total_tokens'' usage) as_i64)))"

definition check_summary_trigger ::
  "codec \<Rightarrow> 's event_store \<Rightarrow> string \<Rightarrow> ('s, summary_trigger) svc" where
  "check_summary_trigger cd es tid =
     andThen (es_get_latest_summary es tid) (\<lambda>latest.
     let upto = unwrap_or 0
           (Option.bind latest (\<lambda>ev. Option.bind (jget ''summarized_up_to_seq'' (ae_payload ev)) as_i64))
     in andThen (es_count_turns_after_seq es tid upto) (\<lambda>turn_count.
        andThen (es_count_events_after_seq es tid upto) (\<lambda>event_count.
        andThen (es_get_llm_payloads_after_seq es tid upto) (\<lambda>payloads.
        ok \<lparr>su_turn_count = turn_count,
            su_token_estimate = foldl (\<lambda>acc text. add_i64 acc (payload_tokens cd text)) 0 payloads,
            su_event_count = event_count\<rparr>))))"

definition write_summary_marker ::
  "'s event_store \<Rightarrow> int \<Rightarrow> string \<Rightarrow> int \<Rightarrow> int \<Rightarrow> string \<Rightarrow> int \<Rightarrow> ('s, agent_event) svc" where
  "write_summary_marker es now tid up_to_turn_id up_to_seq summary covered =
     write_new es (agent_event_new now tid None None SummaryMarker
       (summary_marker_payload up_to_turn_id up_to_seq summary covered))"

definition record_event ::
  "'s event_store \<Rightarrow> int \<Rightarrow> string \<Rightarrow> int option \<Rightarrow> string option \<Rightarrow> event_type \<Rightarrow> json \<Rightarrow> ('s, int) svc" where
  "record_event es now tid turn_id step_id et payload =
     es_write_event es (agent_event_new now tid turn_id step_id et payload)"

section \<open>What the builders give the store to check\<close>

lemma write_new_ok_iff:
  "write_new es ev s = (Inr ev', s') \<longleftrightarrow> (\<exists>q. es_write_event es ev s = (Inr q, s') \<and> ev' = ev\<lparr>ae_seq := q\<rparr>)"
  by (auto simp: write_new_def andThen_Inr_iff)

lemma write_new_err_iff:
  "write_new es ev s = (Inl x, s') \<longleftrightarrow> es_write_event es ev s = (Inl x, s')"
  by (auto simp: write_new_def andThen_def split: prod.splits sum.splits)

text \<open>An event of the right shape: only the task-state guard can still refuse it.\<close>

definition well_formed :: "agent_event \<Rightarrow> bool" where
  "well_formed e \<longleftrightarrow> validate_scope e = Inr () \<and>
     validate_payload_required_fields (ae_event_type e) (ae_payload e) = Inr ()"

lemma validate_write_well_formed [simp]:
  "well_formed e \<Longrightarrow> validate_write c e = validate_task_event_transition c (ae_event_type e)"
  by (simp add: validate_write_def well_formed_def)

lemmas scope_eval = validate_scope_def event_scope_of_def event_class_defs

lemma well_formed_task:
  "is_task_level et \<Longrightarrow> well_formed (agent_event_new now t None None et payload)"
  by (cases et) (simp_all add: well_formed_def scope_eval validate_payload_required_fields_def)

lemma well_formed_turn:
  "is_turn_level et \<Longrightarrow> well_formed (agent_event_new now t (Some n) None et payload)"
  by (cases et) (simp_all add: well_formed_def scope_eval validate_payload_required_fields_def)

fun is_obj :: "json \<Rightarrow> bool" where
  "is_obj (JObj kvs) = True"
| "is_obj _ = False"

lemma is_obj_set_opt [simp]: "is_obj (set_opt k v j) = is_obj j"
  by (cases j) (simp_all add: set_opt_def split: option.split)

lemma jget_set_opt [simp]:
  "is_obj j \<Longrightarrow> jget k (set_opt k' v j) = (if k = k' \<and> v \<noteq> None then v else jget k j)"
  by (cases j) (simp_all add: set_opt_def update_conv split: option.split)

lemma well_formed_llm_invoked:
  "well_formed (agent_event_new now t tu (Some st) LlmInvoked
     (llm_invoked_payload model messages tools temperature local_seq))"
  by (simp add: well_formed_def scope_eval validate_payload_required_fields_def
      llm_invoked_payload_def field_missing_def is_null_def)

lemma well_formed_llm_completed:
  "well_formed (agent_event_new now t tu (Some st) LlmCompleted
     (llm_completed_payload model content tool_calls usage finish_reason local_seq))"
  by (cases usage)
     (simp_all add: well_formed_def scope_eval validate_payload_required_fields_def
      llm_completed_payload_def field_missing_def is_null_def
      usage_json_def)

lemma well_formed_tool_invoked:
  "well_formed (agent_event_new now t tu (Some st) ToolInvoked
     (tool_invoked_body tool_name tool_call_id key inp parent local_seq work_dir timeout))"
  by (simp add: well_formed_def scope_eval validate_payload_required_fields_def
      tool_invoked_body_def field_missing_def is_null_def)

lemma well_formed_step_end:
  "et \<in> {LlmFailed, ToolCompleted, ToolFailed} \<Longrightarrow>
     well_formed (agent_event_new now t tu (Some st) et payload)"
  by (auto simp: well_formed_def scope_eval validate_payload_required_fields_def)

lemma well_formed_summary:
  "well_formed (agent_event_new now t None None SummaryMarker (summary_marker_payload a b txt n))"
  by (simp add: well_formed_def scope_eval validate_payload_required_fields_def
      summary_marker_payload_def field_missing_def is_null_def)

text \<open>The state check of the services is at least as strict as the guard of the store.\<close>

lemma transition_passes_guard:
  "can_transition from target \<Longrightarrow> guard_target et = Some target \<Longrightarrow> et \<noteq> TurnStarted \<Longrightarrow>
     validate_task_event_transition (Some from) et = Inr ()"
  by (auto simp: validate_task_event_transition_def Let_def)

lemma transition_next_state:
  "guard_target et = Some target \<Longrightarrow> et \<noteq> TurnStarted \<Longrightarrow> next_state from et = target"
  by (cases et) auto

section \<open>The services over a projected store\<close>

context projected_store
begin

lemma current_state_cached:
  assumes "inv s" "proj s t = Some p"
  shows "\<exists>s'. current_state es t s = (Inr (tp_state p), s') \<and> inv s' \<and> proj s' = proj s"
  using cached_state [OF assms] by (auto simp: current_state_def andThen_def)

text \<open>A transition the state table does not allow is refused and nothing is written.\<close>

lemma transition_refused:
  assumes "inv s" "proj s t = Some p" "\<not> can_transition (tp_state p) target"
  shows "\<exists>s'. transition_task es now t target et payload s =
      (Inl (InvalidTaskStateTransition t (task_state_as_str (tp_state p)) (task_state_as_str target)), s')
      \<and> inv s' \<and> proj s' = proj s"
  using current_state_cached [OF assms(1,2)] assms(3)
  by (auto simp: transition_task_def andThen_def)

text \<open>An allowed transition is decided by the store alone, and the guard does not stand in its way.\<close>

lemma transition_allowed:
  assumes "inv s" "proj s t = Some p" "can_transition (tp_state p) target"
    and "guard_target et = Some target" "et \<noteq> TurnStarted"
  shows "\<exists>s1. inv s1 \<and> proj s1 = proj s \<and>
      transition_task es now t target et payload s =
        write_new es (agent_event_new now t None None et payload) s1 \<and>
      validate_write (state_of s1 t) (agent_event_new now t None None et payload) = Inr ()"
proof -
  obtain s1 where s1: "current_state es t s = (Inr (tp_state p), s1)" "inv s1" "proj s1 = proj s"
    using current_state_cached [OF assms(1,2)] by blast
  have "is_task_level et"
    using assms(4,5) by (cases et) (simp_all add: event_class_defs)
  then have "validate_write (state_of s1 t) (agent_event_new now t None None et payload) = Inr ()"
    using assms s1(3) transition_passes_guard [OF assms(3-5)]
    by (simp add: well_formed_task state_of_def)
  with s1 assms(3) show ?thesis
    by (intro exI [of _ s1]) (simp add: transition_task_def andThen_def)
qed

lemma transition_ok:
  assumes "inv s" "proj s t = Some p" "guard_target et = Some target" "et \<noteq> TurnStarted"
    and "transition_task es now t target et payload s = (Inr ev, s')"
  shows "can_transition (tp_state p) target" "inv s'" "state_of s' t = Some target"
    "u \<noteq> t \<Longrightarrow> state_of s' u = state_of s u"
proof -
  show ct: "can_transition (tp_state p) target"
    using transition_refused [OF assms(1,2), of target now et payload] assms(5) by auto
  obtain s1 where s1: "inv s1" "proj s1 = proj s"
    "write_new es (agent_event_new now t None None et payload) s1 = (Inr ev, s')"
    using transition_allowed [OF assms(1,2) ct assms(3,4)] assms(5) by metis
  then obtain q where w: "es_write_event es (agent_event_new now t None None et payload) s1 = (Inr q, s')"
    by (auto simp: write_new_ok_iff)
  show "inv s'" using write_ok_inv [OF s1(1) w] .
  show "state_of s' t = Some target"
    using write_ok_state [OF s1(1) w, of t] assms(2) s1(2) transition_next_state [OF assms(3,4)]
    by (simp add: state_of_def)
  show "u \<noteq> t \<Longrightarrow> state_of s' u = state_of s u"
    using write_ok_state [OF s1(1) w, of u] s1(2) by (simp add: state_of_def)
qed

lemma transition_error_keeps:
  assumes "inv s" "proj s t = Some p" "guard_target et = Some target" "et \<noteq> TurnStarted"
    and "transition_task es now t target et payload s = (Inl x, s')"
  shows "inv s' \<and> proj s' = proj s"
proof (cases "can_transition (tp_state p) target")
  case True
  with transition_allowed [OF assms(1,2) True assms(3,4)] assms(5) write_error show ?thesis
    by (metis write_new_err_iff)
next
  case False
  with transition_refused [OF assms(1,2) False, of now et payload] assms(5) show ?thesis by auto
qed

lemma wait_exists_cached:
  assumes "inv s" "proj s t = Some p"
  shows "\<exists>s'. wait_exists (Suc n) es t s = (Inr True, s') \<and> inv s' \<and> proj s' = proj s"
  using cached_exists [OF assms] by (auto simp: attempt_def)

text \<open>
  Starting a turn reads three things and writes one event; what is left to decide is the guard on
  the state \<open>Executing\<close>.
\<close>

lemma start_turn_unfold:
  assumes "inv s" "proj s t = Some p"
  shows "\<exists>s1. inv s1 \<and> proj s1 = proj s \<and>
     start_turn es now fresh t user_input rg s =
       (if is_terminal (tp_state p) then (Inl (TaskAlreadyEnded t), s1)
        else andThen (write_new es (agent_event_new now t (Some (add_i64 (tp_max_turn_id p) 1)) None
                TurnStarted (turn_started_payload user_input (unwrap_or (''rg_'' @ fresh) rg) 0)))
              (\<lambda>ev. ok (add_i64 (tp_max_turn_id p) 1, unwrap_or (''rg_'' @ fresh) rg, ev)) s1)"
proof -
  obtain s1 where s1: "wait_exists 30 es t s = (Inr True, s1)" "inv s1" "proj s1 = proj s"
    using wait_exists_cached [OF assms, of 29] by auto
  then obtain s2 where s2: "es_is_task_ended es t s1 = (Inr (is_terminal (tp_state p)), s2)"
      "inv s2" "proj s2 = proj s"
    using cached_ended [of s1 t p] assms by auto
  then obtain s3 where s3: "es_get_max_turn_id es t s2 = (Inr (tp_max_turn_id p), s3)"
      "inv s3" "proj s3 = proj s"
    using cached_max_turn_id [of s2 t p] assms by auto
  show ?thesis
  proof (cases "is_terminal (tp_state p)")
    case True
    with s1 s2 show ?thesis
      by (intro exI [of _ s2]) (simp add: start_turn_def andThen_apply del: wait_exists.simps)
  next
    case False
    with s1 s2 s3 show ?thesis
      by (intro exI [of _ s3]) (simp add: start_turn_def andThen_apply Let_def del: wait_exists.simps)
  qed
qed

lemma start_turn_refused_unless_ready:
  assumes "inv s" "proj s t = Some p" "\<not> is_terminal (tp_state p)"
    and "tp_state p \<noteq> Ready" "tp_state p \<noteq> Claimed"
  shows "\<exists>s'. start_turn es now fresh t user_input rg s =
     (Inl (LifecycleInvariant (IllegalTransition (tp_state p) Executing TurnStarted)), s') \<and>
     inv s' \<and> proj s' = proj s"
proof -
  let ?ev = "agent_event_new now t (Some (add_i64 (tp_max_turn_id p) 1)) None TurnStarted
      (turn_started_payload user_input (unwrap_or (''rg_'' @ fresh) rg) 0)"
  obtain s1 where s1: "inv s1" "proj s1 = proj s"
    "start_turn es now fresh t user_input rg s = andThen (write_new es ?ev)
       (\<lambda>ev. ok (add_i64 (tp_max_turn_id p) 1, unwrap_or (''rg_'' @ fresh) rg, ev)) s1"
    using start_turn_unfold [OF assms(1,2), of now fresh user_input rg] assms(3) by auto
  have "validate_write (map_option tp_state (proj s1 (ae_task_id ?ev))) ?ev =
      Inl (LifecycleInvariant (IllegalTransition (tp_state p) Executing TurnStarted))"
    using assms s1(2)
    by (simp add: well_formed_turn event_class_defs validate_task_event_transition_def)
  from write_invalid [OF s1(1) this] s1 show ?thesis
    by (auto simp: andThen_def write_new_def)
qed

lemma start_turn_ok:
  assumes "inv s" "proj s t = Some p"
    and "start_turn es now fresh t user_input rg s = (Inr (n, rg', ev), s')"
  shows "(tp_state p = Ready \<or> tp_state p = Claimed) \<and> n = add_i64 (tp_max_turn_id p) 1 \<and> inv s' \<and>
    (\<exists>p'. proj s' t = Some p' \<and> tp_state p' = Executing \<and> n \<in> set (tp_active_turns p'))"
proof -
  let ?n = "add_i64 (tp_max_turn_id p) 1"
  let ?ev = "agent_event_new now t (Some ?n) None TurnStarted
      (turn_started_payload user_input (unwrap_or (''rg_'' @ fresh) rg) 0)"
  obtain s1 where s1: "inv s1" "proj s1 = proj s"
    and eq: "start_turn es now fresh t user_input rg s =
       (if is_terminal (tp_state p) then (Inl (TaskAlreadyEnded t), s1)
        else andThen (write_new es ?ev) (\<lambda>ev. ok (?n, unwrap_or (''rg_'' @ fresh) rg, ev)) s1)"
    using start_turn_unfold [OF assms(1,2), of now fresh user_input rg] by blast
  from assms(3) eq have "\<not> is_terminal (tp_state p)" by (cases "is_terminal (tp_state p)") simp_all
  with assms(3) eq have a: "andThen (write_new es ?ev) (\<lambda>ev. ok (?n, unwrap_or (''rg_'' @ fresh) rg, ev)) s1
       = (Inr (n, rg', ev), s')" by simp
  obtain ev0 where wn: "write_new es ?ev s1 = (Inr ev0, s')" and n: "n = ?n"
    using a unfolding andThen_Inr_iff ok_apply prod.inject sum.inject by blast
  from wn obtain q where w: "es_write_event es ?ev s1 = (Inr q, s')"
    unfolding write_new_ok_iff by blast
  have "validate_task_event_transition (Some (tp_state p)) TurnStarted = Inr ()"
    using write_ok_guard [OF s1(1) w] assms(2) s1(2) by (simp add: state_of_def)
  then have st: "tp_state p = Ready \<or> tp_state p = Claimed"
    by (auto simp: validate_task_event_transition_def split: if_splits)
  from write_ok [OF s1(1) w] obtain now' where i: "inv s'" and
    pr: "proj s' = (proj s1)(ae_task_id ?ev :=
      map_option (apply_ae cd (stored_event cd ?ev q now')) (proj s1 (ae_task_id ?ev)))"
    by blast
  let ?p = "apply_ae cd (stored_event cd ?ev q now') p"
  have "proj s' t = Some ?p" using pr assms(2) s1(2) by simp
  moreover have "turn_id_ok ?ev" by (simp add: turn_id_ok_def add_i64_def)
  then have "set (tp_active_turns ?p) = insert n (set (tp_active_turns p))"
    by (simp add: apply_ae_active_turns n)
  moreover have "tp_state ?p = Executing" using st by auto
  ultimately show ?thesis using st n i by auto
qed

end

end
