(* ===== verification/Recovery.thy ===== *)
theory Recovery
  imports Service
begin

text \<open>
  \<open>src/recovery.rs\<close>: recovery of a task after a crash. Every turn that was started and not closed is
  either redone under its \<open>redo_group\<close> or, when one of its unfinished steps may have had an effect
  that cannot be repeated, closed as failed.
\<close>

section \<open>Which unfinished steps are safe to repeat\<close>

datatype tool_recovery_strategy = ReadOnly | IdempotentWrite | NonIdempotentWrite

definition classify_tool :: "string \<Rightarrow> tool_recovery_strategy" where
  "classify_tool tool_name =
     (if tool_name \<in> {''get_weather'', ''search'', ''read_file'', ''list_directory'',
          ''get_order_status'', ''query_database'', ''fetch_url'', ''calculate'', ''parse''}
      then ReadOnly
      else if tool_name \<in> {''update_config'', ''set_status'', ''upsert_record'',
          ''create_or_update'', ''deploy_versioned''}
      then IdempotentWrite
      else if tool_name \<in> {''send_email'', ''create_order'', ''process_payment'',
          ''send_notification'', ''delete_record'', ''submit_form''}
      then NonIdempotentWrite
      else NonIdempotentWrite)"

datatype recovery_decision =
    SafeToRedo int string int "incomplete_step list"
  | RequiresHumanIntervention int string "incomplete_step list"
  | NoRecovery

definition is_blocking :: "incomplete_step \<Rightarrow> bool" where
  "is_blocking step \<longleftrightarrow>
     classify_tool (str_field ''tool_name'' ''unknown'' (is_payload step)) = NonIdempotentWrite"

definition decide_recovery_from_steps ::
  "incomplete_turn \<Rightarrow> incomplete_step list \<Rightarrow> recovery_decision" where
  "decide_recovery_from_steps turn steps =
     (if steps = [] then SafeToRedo (it_turn_id turn) (it_redo_group turn) (it_redo_count turn) []
      else let blocking = filter is_blocking steps;
               safe = filter (\<lambda>s. \<not> is_blocking s) steps
           in if blocking = []
              then SafeToRedo (it_turn_id turn) (it_redo_group turn) (it_redo_count turn) safe
              else RequiresHumanIntervention (it_turn_id turn) (it_redo_group turn) blocking)"

definition decide_turn_recovery ::
  "'s event_store \<Rightarrow> string \<Rightarrow> incomplete_turn \<Rightarrow> ('s, recovery_decision) svc" where
  "decide_turn_recovery es tid turn =
     andThen (es_get_turn_events es tid (it_turn_id turn)) (\<lambda>_.
     andThen (es_get_incomplete_steps es tid) (\<lambda>steps.
     ok (decide_recovery_from_steps turn (filter (\<lambda>s. is_turn_id s = it_turn_id turn) steps))))"

section \<open>Closing a turn that cannot be redone\<close>

definition skip_non_idempotent_step ::
  "'s event_store \<Rightarrow> int \<Rightarrow> string \<Rightarrow> int \<Rightarrow> incomplete_step \<Rightarrow> ('s, agent_event) svc" where
  "skip_non_idempotent_step es now tid turn_id step =
     record_tool_failed es now tid (Some turn_id) (is_step_id step)
       (str_field ''tool_call_id'' ''unknown'' (is_payload step))
       ''recovery_skipped_non_idempotent''
       (''Recovery skipped: non-idempotent tool '' @ [CHR 0x27] @
         str_field ''tool_name'' ''unknown'' (is_payload step) @ [CHR 0x27] @
         '' had an in-flight step at crash time. Requires human review.'')
       (Some ApplicationError) 1 0"

definition fail_turn_with_non_idempotent_block ::
  "'s event_store \<Rightarrow> int \<Rightarrow> string \<Rightarrow> int \<Rightarrow> incomplete_step list \<Rightarrow> ('s, unit) svc" where
  "fail_turn_with_non_idempotent_block es now tid turn_id blocking =
     andThen (for_each (\<lambda>step. andThen (skip_non_idempotent_step es now tid turn_id step) (\<lambda>_. ok ()))
                blocking) (\<lambda>_.
     andThen (fail_turn es now tid turn_id ''recovery_blocked''
                (''Recovery blocked: '' @ show_nat (length blocking) @
                 '' non-idempotent step(s) require human intervention'') None (Some ApplicationError)) (\<lambda>_.
     ok ()))"

section \<open>Redoing a turn\<close>

record redo_context =
  rc_task_id :: string
  rc_turn_id :: int
  rc_redo_group :: string
  rc_redo_count :: int
  rc_user_input :: string

definition build_redo_context_from_events ::
  "string \<Rightarrow> incomplete_turn \<Rightarrow> agent_event list \<Rightarrow> redo_context option" where
  "build_redo_context_from_events tid turn events =
     (case find (\<lambda>e. ae_event_type e = TurnStarted) events of
        None \<Rightarrow> None
      | Some started \<Rightarrow>
          Some \<lparr>rc_task_id = tid, rc_turn_id = it_turn_id turn, rc_redo_group = it_redo_group turn,
                rc_redo_count = add_i32 (it_redo_count turn) 1,
                rc_user_input = str_field ''user_input'' [] (ae_payload started)\<rparr>)"

definition build_redo_context ::
  "'s event_store \<Rightarrow> string \<Rightarrow> incomplete_turn \<Rightarrow> ('s, redo_context option) svc" where
  "build_redo_context es tid turn =
     andThen (es_get_turn_events es tid (it_turn_id turn)) (\<lambda>events.
       ok (build_redo_context_from_events tid turn events))"

definition recover_turn ::
  "'s event_store \<Rightarrow> int \<Rightarrow> string \<Rightarrow> incomplete_turn \<Rightarrow> ('s, redo_context list) svc" where
  "recover_turn es now tid turn =
     andThen (decide_turn_recovery es tid turn) (\<lambda>decision.
       case decision of
         SafeToRedo _ _ _ _ \<Rightarrow>
           andThen (build_redo_context es tid turn) (\<lambda>ctx.
             ok (case ctx of None \<Rightarrow> [] | Some c \<Rightarrow> [c]))
       | RequiresHumanIntervention turn_id _ blocking \<Rightarrow>
           andThen (fail_turn_with_non_idempotent_block es now tid turn_id blocking) (\<lambda>_. ok [])
       | NoRecovery \<Rightarrow> ok [])"

fun recover_turns ::
  "'s event_store \<Rightarrow> int \<Rightarrow> string \<Rightarrow> incomplete_turn list \<Rightarrow> ('s, redo_context list) svc" where
  "recover_turns es now tid [] = ok []"
| "recover_turns es now tid (turn # turns) =
     andThen (recover_turn es now tid turn) (\<lambda>cs.
     andThen (recover_turns es now tid turns) (\<lambda>cs'. ok (cs @ cs')))"

definition recover_task :: "'s event_store \<Rightarrow> int \<Rightarrow> string \<Rightarrow> ('s, redo_context list) svc" where
  "recover_task es now tid =
     andThen (es_get_incomplete_turns es tid) (\<lambda>turns. recover_turns es now tid turns)"

definition validate_turn_seq_continuity ::
  "'s event_store \<Rightarrow> string \<Rightarrow> int \<Rightarrow> ('s, bool) svc" where
  "validate_turn_seq_continuity es tid turn_id = es_is_turn_seq_continuous es tid turn_id"

section \<open>The decision\<close>

lemma decide_cases:
  "(\<exists>x \<in> set steps. is_blocking x) \<Longrightarrow>
     decide_recovery_from_steps turn steps =
       RequiresHumanIntervention (it_turn_id turn) (it_redo_group turn) (filter is_blocking steps)"
  "\<not> (\<exists>x \<in> set steps. is_blocking x) \<Longrightarrow>
     decide_recovery_from_steps turn steps =
       SafeToRedo (it_turn_id turn) (it_redo_group turn) (it_redo_count turn) steps"
  by (auto simp: decide_recovery_from_steps_def Let_def filter_empty_conv filter_id_conv)

section \<open>What recovery does to the projection\<close>

text \<open>
  The steps a projection holds open for a turn. Closing turn \<open>n\<close> may close open steps recorded for
  \<open>n\<close> and the turn itself, and touches nothing else that is open.
\<close>

definition open_steps :: "task_projection \<Rightarrow> string \<Rightarrow> (int \<times> agent_event) option" where
  "open_steps p = map_of (tp_active_steps p)"

definition step_turn :: "int \<times> agent_event \<Rightarrow> int" where
  "step_turn x = unwrap_or 0 (ae_turn_id (snd x))"

definition unsafe_turn :: "task_projection \<Rightarrow> int \<Rightarrow> bool" where
  "unsafe_turn p n \<longleftrightarrow>
     (\<exists>sid x. open_steps p sid = Some x \<and> step_turn x = n \<and>
        classify_tool (str_field ''tool_name'' ''unknown'' (ae_payload (snd x))) = NonIdempotentWrite)"

definition closes :: "int \<Rightarrow> task_projection \<Rightarrow> task_projection \<Rightarrow> bool" where
  "closes n p p' \<longleftrightarrow>
     set (tp_active_turns p') \<subseteq> set (tp_active_turns p) \<and>
     (\<forall>sid. open_steps p' sid = open_steps p sid \<or>
        (open_steps p' sid = None \<and> (\<exists>x. open_steps p sid = Some x \<and> step_turn x = n)))"

lemma closes_refl [simp]: "closes n p p"
  by (simp add: closes_def)

lemma closesD:
  "closes n p p' \<Longrightarrow> open_steps p' sid = open_steps p sid \<or>
     (open_steps p' sid = None \<and> (\<exists>x. open_steps p sid = Some x \<and> step_turn x = n))"
  by (simp add: closes_def)

lemma closes_turnsD: "closes n p p' \<Longrightarrow> set (tp_active_turns p') \<subseteq> set (tp_active_turns p)"
  by (simp add: closes_def)

lemma closes_trans:
  assumes "closes n p q" "closes n q r"
  shows "closes n p r"
proof -
  have "open_steps r sid = open_steps p sid \<or>
     (open_steps r sid = None \<and> (\<exists>x. open_steps p sid = Some x \<and> step_turn x = n))" for sid
    using closesD [OF assms(1), of sid] closesD [OF assms(2), of sid]
    by (cases "open_steps p sid") auto
  then show ?thesis
    using closes_turnsD [OF assms(1)] closes_turnsD [OF assms(2)] by (auto simp: closes_def)
qed

lemma closes_open_mono: "closes n p p' \<Longrightarrow> open_steps p' sid = Some x \<Longrightarrow> open_steps p sid = Some x"
  using closesD [of n p p' sid] by auto

lemma closes_open_other:
  "closes n p p' \<Longrightarrow> open_steps p sid = Some x \<Longrightarrow> step_turn x \<noteq> n \<Longrightarrow> open_steps p' sid = Some x"
  using closesD [of n p p' sid] by auto

lemma closes_unsafe_mono: "closes n p p' \<Longrightarrow> unsafe_turn p' m \<Longrightarrow> unsafe_turn p m"
  unfolding unsafe_turn_def using closes_open_mono by blast

lemma closes_unsafe_other:
  assumes "closes n p p'" "m \<noteq> n"
  shows "unsafe_turn p' m \<longleftrightarrow> unsafe_turn p m"
proof
  show "unsafe_turn p' m \<Longrightarrow> unsafe_turn p m" by (rule closes_unsafe_mono [OF assms(1)])
  show "unsafe_turn p m \<Longrightarrow> unsafe_turn p' m"
    unfolding unsafe_turn_def using closes_open_other [OF assms(1)] assms(2) by blast
qed

text \<open>The incomplete steps of a turn, read back from the open steps.\<close>

lemma incomplete_steps_open:
  assumes "hash_order ord" "hash_wf (tp_active_steps p)"
  shows "st \<in> set (incomplete_steps ord p) \<longleftrightarrow>
    (\<exists>q ev. open_steps p (is_step_id st) = Some (q, ev) \<and>
       st = \<lparr>is_seq = q, is_turn_id = step_turn (q, ev), is_step_id = is_step_id st,
             is_start_event_type = event_type_as_str (ae_event_type ev), is_payload = ae_payload ev,
             is_started_at = ae_created_at ev\<rparr>)"
proof -
  have "set (ord (tp_active_steps p)) = set (tp_active_steps p)"
    by (rule hash_order_set [OF assms(1)])
  then show ?thesis
    using map_of_wf [OF assms(2)]
    by (auto simp: incomplete_steps_def open_steps_def step_turn_def image_iff
        intro!: bexI [rotated])
qed

lemma unsafe_turn_iff_blocking:
  assumes "hash_order ord" "hash_wf (tp_active_steps p)"
  shows "(\<exists>st \<in> set (incomplete_steps ord p). is_turn_id st = n \<and> is_blocking st) \<longleftrightarrow> unsafe_turn p n"
proof
  assume "\<exists>st \<in> set (incomplete_steps ord p). is_turn_id st = n \<and> is_blocking st"
  then obtain st where st: "st \<in> set (incomplete_steps ord p)" "is_turn_id st = n" "is_blocking st"
    by blast
  from st(1) obtain q ev where o: "open_steps p (is_step_id st) = Some (q, ev)"
      and e: "st = \<lparr>is_seq = q, is_turn_id = step_turn (q, ev), is_step_id = is_step_id st,
             is_start_event_type = event_type_as_str (ae_event_type ev), is_payload = ae_payload ev,
             is_started_at = ae_created_at ev\<rparr>"
    unfolding incomplete_steps_open [OF assms] by blast
  from e have "is_turn_id st = step_turn (q, ev)" "is_payload st = ae_payload ev"
    by (metis incomplete_step.select_convs)+
  with st(2,3) o show "unsafe_turn p n"
    unfolding unsafe_turn_def is_blocking_def by auto
next
  assume "unsafe_turn p n"
  then obtain sid q ev where o: "open_steps p sid = Some (q, ev)" "step_turn (q, ev) = n"
     "classify_tool (str_field ''tool_name'' ''unknown'' (ae_payload ev)) = NonIdempotentWrite"
    unfolding unsafe_turn_def by auto
  let ?st = "\<lparr>is_seq = q, is_turn_id = step_turn (q, ev), is_step_id = sid,
             is_start_event_type = event_type_as_str (ae_event_type ev), is_payload = ae_payload ev,
             is_started_at = ae_created_at ev\<rparr>"
  have "?st \<in> set (incomplete_steps ord p)"
    unfolding incomplete_steps_open [OF assms] using o(1) by simp
  with o(2,3) show "\<exists>st \<in> set (incomplete_steps ord p). is_turn_id st = n \<and> is_blocking st"
    by (intro bexI [of _ ?st]) (auto simp: is_blocking_def)
qed

lemma unsafe_turn_decides:
  fixes turn :: incomplete_turn
  assumes "hash_order ord" "hash_wf (tp_active_steps p)"
  defines "steps \<equiv> filter (\<lambda>s. is_turn_id s = it_turn_id turn) (incomplete_steps ord p)"
  shows "unsafe_turn p (it_turn_id turn) \<Longrightarrow>
      decide_recovery_from_steps turn steps =
        RequiresHumanIntervention (it_turn_id turn) (it_redo_group turn) (filter is_blocking steps)"
    and "\<not> unsafe_turn p (it_turn_id turn) \<Longrightarrow>
      decide_recovery_from_steps turn steps =
        SafeToRedo (it_turn_id turn) (it_redo_group turn) (it_redo_count turn) steps"
proof -
  have b: "(\<exists>x \<in> set steps. is_blocking x) \<longleftrightarrow> unsafe_turn p (it_turn_id turn)"
    using unsafe_turn_iff_blocking [OF assms(1,2), of "it_turn_id turn"] by (auto simp: steps_def)
  show "unsafe_turn p (it_turn_id turn) \<Longrightarrow>
      decide_recovery_from_steps turn steps =
        RequiresHumanIntervention (it_turn_id turn) (it_redo_group turn) (filter is_blocking steps)"
    using b by (intro decide_cases(1)) simp
  show "\<not> unsafe_turn p (it_turn_id turn) \<Longrightarrow>
      decide_recovery_from_steps turn steps =
        SafeToRedo (it_turn_id turn) (it_redo_group turn) (it_redo_count turn) steps"
    using b by (intro decide_cases(2)) simp
qed

lemma map_filter_ids:
  assumes "\<And>n x. f n = Some x \<Longrightarrow> g x = n"
  shows "g ` set (List.map_filter f xs) \<subseteq> set xs"
  using assms by (auto simp: List.map_filter_def)

lemma map_filter_distinct_ids:
  assumes "\<And>n x. f n = Some x \<Longrightarrow> g x = n" "distinct xs"
  shows "distinct (map g (List.map_filter f xs))"
  using assms(2)
proof (induction xs)
  case Nil
  then show ?case by (simp add: List.map_filter_simps)
next
  case (Cons x xs)
  with map_filter_ids [of f g xs, OF assms(1)] show ?case
    by (cases "f x") (auto simp: List.map_filter_simps dest: assms(1))
qed

context projected_store
begin

lemma write_ok_proj:
  assumes "inv s" "proj s t = Some p" "es_write_event es e s = (Inr q, s')" "ae_task_id e = t"
  shows "inv s' \<and> (\<exists>now. proj s' t = Some (apply_ae cd (stored_event cd e q now) p))"
  using write_ok [OF assms(1,3)] assms(2,4) by auto

lemma skip_step_closes:
  assumes "inv s" "proj s t = Some p" "in_i64 n" "hash_wf (tp_active_steps p)"
    and "\<And>x. open_steps p (is_step_id st) = Some x \<Longrightarrow> step_turn x = n"
    and "skip_non_idempotent_step es now t n st s = (Inr ev, s')"
  shows "\<exists>p'. inv s' \<and> proj s' t = Some p' \<and> hash_wf (tp_active_steps p') \<and> closes n p p' \<and>
    open_steps p' (is_step_id st) = None"
proof -
  obtain tc et em where "skip_non_idempotent_step es now t n st =
      write_new es (tool_failed_event now t (Some n) (is_step_id st) tc et em (Some ApplicationError) 1 0)"
    by (simp add: skip_non_idempotent_step_def record_tool_failed_def)
  then obtain q where w: "es_write_event es
      (tool_failed_event now t (Some n) (is_step_id st) tc et em (Some ApplicationError) 1 0) s = (Inr q, s')"
    using assms(6) by (metis write_new_ok_iff)
  let ?e = "tool_failed_event now t (Some n) (is_step_id st) tc et em (Some ApplicationError) 1 0"
  have e: "ae_task_id ?e = t" "ae_event_type ?e = ToolFailed" "ae_step_id ?e = Some (is_step_id st)"
    by (simp_all add: tool_failed_event_def)
  obtain now' where i: "inv s'" and p': "proj s' t = Some (apply_ae cd (stored_event cd ?e q now') p)"
    using write_ok_proj [OF assms(1,2) w e(1)] by blast
  let ?p = "apply_ae cd (stored_event cd ?e q now') p"
  have o: "open_steps ?p = (open_steps p)(is_step_id st := None)"
    by (simp add: open_steps_def apply_ae_active_steps e event_class_defs)
  have "set (tp_active_turns ?p) = set (tp_active_turns p)"
    by (simp add: apply_ae_active_turns e event_class_defs split: option.split)
  with o have "closes n p ?p"
    using assms(5) by (cases "open_steps p (is_step_id st)") (auto simp: closes_def)
  then show ?thesis
    using i p' o assms(4) by (auto intro: apply_ae_active_steps_wf)
qed

lemma skip_steps_close:
  assumes "inv s" "proj s t = Some p" "in_i64 n" "hash_wf (tp_active_steps p)"
    and "\<forall>st \<in> set sts. \<forall>x. open_steps p (is_step_id st) = Some x \<longrightarrow> step_turn x = n"
    and "for_each (\<lambda>st. andThen (skip_non_idempotent_step es now t n st) (\<lambda>_. ok ())) sts s = (Inr u, s')"
  shows "\<exists>p'. inv s' \<and> proj s' t = Some p' \<and> hash_wf (tp_active_steps p') \<and> closes n p p' \<and>
    (\<forall>st \<in> set sts. open_steps p' (is_step_id st) = None)"
  using assms(1,2,4-)
proof (induction sts arbitrary: s p)
  case Nil
  then show ?case by auto
next
  case (Cons st sts)
  from Cons.prems(5) obtain ev s1 where
    1: "skip_non_idempotent_step es now t n st s = (Inr ev, s1)" and
    2: "for_each (\<lambda>st. andThen (skip_non_idempotent_step es now t n st) (\<lambda>_. ok ())) sts s1 = (Inr u, s')"
    unfolding for_each_Cons_iff andThen_ok_iff by blast
  have "open_steps p (is_step_id st) = Some x \<Longrightarrow> step_turn x = n" for x
    using Cons.prems(4) by (meson list.set_intros(1))
  from skip_step_closes [OF Cons.prems(1,2) assms(3) Cons.prems(3) this 1]
  obtain p1 where p1: "inv s1" "proj s1 t = Some p1" "hash_wf (tp_active_steps p1)" "closes n p p1"
      "open_steps p1 (is_step_id st) = None" by auto
  have "\<forall>st \<in> set sts. \<forall>x. open_steps p1 (is_step_id st) = Some x \<longrightarrow> step_turn x = n"
    using Cons.prems(4) closes_open_mono [OF p1(4)] by (meson list.set_intros(2))
  from Cons.IH [OF p1(1-3) this 2] obtain p2 where p2: "inv s'" "proj s' t = Some p2"
      "hash_wf (tp_active_steps p2)" "closes n p1 p2" "\<forall>st \<in> set sts. open_steps p2 (is_step_id st) = None"
    by auto
  have "open_steps p2 (is_step_id st) = None"
    using p1(5) closes_open_mono [OF p2(4), of "is_step_id st"] by (cases "open_steps p2 (is_step_id st)") auto
  with p2 closes_trans [OF p1(4) p2(4)] show ?case by auto
qed

lemma fail_turn_closes:
  assumes "inv s" "proj s t = Some p" "in_i64 n" "hash_wf (tp_active_steps p)"
    and "fail_turn es now t n et em tr fr s = (Inr ev, s')"
  shows "\<exists>p'. inv s' \<and> proj s' t = Some p' \<and> hash_wf (tp_active_steps p') \<and> closes n p p' \<and>
    set (tp_active_turns p') = set (tp_active_turns p) - {n} \<and> open_steps p' = open_steps p"
proof -
  let ?e = "agent_event_new now t (Some n) None TurnFailed (turn_failed_payload et em fr tr)"
  obtain q where w: "es_write_event es ?e s = (Inr q, s')"
    using assms(5) by (auto simp: fail_turn_def write_new_ok_iff)
  obtain now' where i: "inv s'" and p': "proj s' t = Some (apply_ae cd (stored_event cd ?e q now') p)"
    using write_ok_proj [OF assms(1,2) w] by auto
  let ?p = "apply_ae cd (stored_event cd ?e q now') p"
  have "turn_id_ok ?e" using assms(3) by (simp add: turn_id_ok_def)
  then have "set (tp_active_turns ?p) = set (tp_active_turns p) - {n}"
    by (simp add: apply_ae_active_turns event_class_defs)
  moreover have "open_steps ?p = open_steps p"
    by (simp add: open_steps_def apply_ae_active_steps)
  ultimately show ?thesis
    using i p' assms(4) by (auto simp: closes_def intro: apply_ae_active_steps_wf)
qed

text \<open>
  Recovering one turn: an unsafe turn is closed with all its blocking steps, a safe one leaves the
  projection alone and gives the redo context, if the log has the turn's start.
\<close>

lemma recover_turn_closes:
  assumes "inv s" "proj s t = Some p" "hash_order steps_iter" "hash_wf (tp_active_steps p)"
    and "in_i64 (it_turn_id turn)" "recover_turn es now t turn s = (Inr cs, s')"
  shows "\<exists>p'. inv s' \<and> proj s' t = Some p' \<and> hash_wf (tp_active_steps p') \<and>
    closes (it_turn_id turn) p p' \<and>
    (if unsafe_turn p (it_turn_id turn)
     then cs = [] \<and> \<not> unsafe_turn p' (it_turn_id turn) \<and> it_turn_id turn \<notin> set (tp_active_turns p')
     else p' = p \<and> (\<forall>c \<in> set cs. rc_turn_id c = it_turn_id turn \<and> rc_redo_group c = it_redo_group turn \<and>
                       rc_redo_count c = add_i32 (it_redo_count turn) 1))"
proof -
  let ?n = "it_turn_id turn"
  let ?steps = "filter (\<lambda>s. is_turn_id s = ?n) (incomplete_steps steps_iter p)"
  obtain s1 evs where s1: "es_get_turn_events es t ?n s = (Inr evs, s1)" "inv s1" "proj s1 = proj s"
    using cached_turn_events [OF assms(1,2)] by blast
  obtain s2 where s2: "es_get_incomplete_steps es t s1 = (Inr (incomplete_steps steps_iter p), s2)"
      "inv s2" "proj s2 = proj s"
    using cached_incomplete_steps [of s1 t p] s1 assms(2) by auto
  have d: "decide_turn_recovery es t turn s = (Inr (decide_recovery_from_steps turn ?steps), s2)"
    by (simp add: decide_turn_recovery_def andThen_apply s1 s2)
  have p2: "proj s2 t = Some p" using s2(3) assms(2) by simp
  note dec = unsafe_turn_decides [OF assms(3,4), of turn]
  show ?thesis
  proof (cases "unsafe_turn p ?n")
    case True
    let ?b = "filter is_blocking ?steps"
    from assms(6) have f: "\<exists>u. fail_turn_with_non_idempotent_block es now t ?n ?b s2 = (Inr u, s')"
        and cs: "cs = []"
      using dec(1) [OF True] by (auto simp: recover_turn_def andThen_apply d split: prod.splits sum.splits)
    then obtain u s3 ev where
      l: "for_each (\<lambda>st. andThen (skip_non_idempotent_step es now t ?n st) (\<lambda>_. ok ())) ?b s2 = (Inr u, s3)"
      and e: "fail_turn es now t ?n ''recovery_blocked'' (''Recovery blocked: '' @ show_nat (length ?b) @
                 '' non-idempotent step(s) require human intervention'') None (Some ApplicationError) s3
               = (Inr ev, s')"
      unfolding fail_turn_with_non_idempotent_block_def andThen_Inr_iff ok_apply prod.inject by blast
    have own: "\<forall>st \<in> set ?b. \<forall>x. open_steps p (is_step_id st) = Some x \<longrightarrow> step_turn x = ?n"
    proof (intro ballI allI impI)
      fix st x
      assume st: "st \<in> set ?b" "open_steps p (is_step_id st) = Some x"
      then have "st \<in> set (incomplete_steps steps_iter p)" "is_turn_id st = ?n" by auto
      then obtain q ev where "open_steps p (is_step_id st) = Some (q, ev)" "is_turn_id st = step_turn (q, ev)"
        unfolding incomplete_steps_open [OF assms(3,4)] by (metis incomplete_step.select_convs(2))
      with st \<open>is_turn_id st = ?n\<close> show "step_turn x = ?n" by simp
    qed
    from skip_steps_close [OF s2(2) p2 assms(5,4) own l] obtain p3 where
      p3: "inv s3" "proj s3 t = Some p3" "hash_wf (tp_active_steps p3)" "closes ?n p p3"
        "\<forall>st \<in> set ?b. open_steps p3 (is_step_id st) = None" by blast
    from fail_turn_closes [OF p3(1,2) assms(5) p3(3) e] obtain p4 where
      p4: "inv s'" "proj s' t = Some p4" "hash_wf (tp_active_steps p4)" "closes ?n p3 p4"
        "set (tp_active_turns p4) = set (tp_active_turns p3) - {?n}" "open_steps p4 = open_steps p3" by blast
    have "\<not> unsafe_turn p4 ?n"
    proof
      assume "unsafe_turn p4 ?n"
      with p4(6) have "unsafe_turn p3 ?n" by (simp add: unsafe_turn_def)
      then obtain st where st: "st \<in> set (incomplete_steps steps_iter p3)" "is_turn_id st = ?n" "is_blocking st"
        using unsafe_turn_iff_blocking [OF assms(3) p3(3)] by blast
      then have "st \<in> set (incomplete_steps steps_iter p)"
        unfolding incomplete_steps_open [OF assms(3) p3(3)] incomplete_steps_open [OF assms(3,4)]
        using closes_open_mono [OF p3(4)] by blast
      with st p3(5) have "open_steps p3 (is_step_id st) = None" by auto
      with st(1) show False unfolding incomplete_steps_open [OF assms(3) p3(3)] by auto
    qed
    with True cs p4 closes_trans [OF p3(4) p4(4)] show ?thesis by auto
  next
    case False
    obtain s3 evs' where s3: "es_get_turn_events es t ?n s2 = (Inr evs', s3)" "inv s3" "proj s3 = proj s"
      using cached_turn_events [OF s2(2) p2] s2(3) by metis
    from assms(6) have "s' = s3" and
      "cs = (case build_redo_context_from_events t turn evs' of None \<Rightarrow> [] | Some c \<Rightarrow> [c])"
      using dec(2) [OF False]
      by (simp_all add: recover_turn_def andThen_apply d build_redo_context_def s3)
    moreover have "\<forall>c \<in> set cs. rc_turn_id c = ?n \<and> rc_redo_group c = it_redo_group turn \<and>
        rc_redo_count c = add_i32 (it_redo_count turn) 1"
      using calculation by (auto simp: build_redo_context_from_events_def split: option.splits)
    ultimately show ?thesis using False s3 assms(2,4) by auto
  qed
qed

lemma recover_turns_closes:
  assumes "inv s" "proj s t = Some p" "hash_order steps_iter" "distinct (map it_turn_id turns)"
    and "\<forall>turn \<in> set turns. in_i64 (it_turn_id turn)" "recover_turns es now t turns s = (Inr cs, s')"
  shows "\<exists>p'. inv s' \<and> proj s' t = Some p' \<and> set (tp_active_turns p') \<subseteq> set (tp_active_turns p) \<and>
    (\<forall>n. n \<notin> it_turn_id ` set turns \<longrightarrow> unsafe_turn p' n = unsafe_turn p n) \<and>
    (\<forall>turn \<in> set turns. unsafe_turn p (it_turn_id turn) \<longrightarrow>
       \<not> unsafe_turn p' (it_turn_id turn) \<and> it_turn_id turn \<notin> set (tp_active_turns p')) \<and>
    (\<forall>c \<in> set cs. \<exists>turn \<in> set turns. \<not> unsafe_turn p (it_turn_id turn) \<and>
       rc_turn_id c = it_turn_id turn \<and> rc_redo_group c = it_redo_group turn \<and>
       rc_redo_count c = add_i32 (it_redo_count turn) 1)"
  using assms(1,2,4-)
proof (induction turns arbitrary: s p cs)
  case Nil
  then show ?case by auto
next
  case (Cons turn turns)
  let ?n = "it_turn_id turn"
  from Cons.prems(5) obtain cs1 s1 cs2 where
    1: "recover_turn es now t turn s = (Inr cs1, s1)" and
    2: "recover_turns es now t turns s1 = (Inr cs2, s')" and cs: "cs = cs1 @ cs2"
    unfolding recover_turns.simps andThen_Inr_iff ok_apply prod.inject sum.inject by blast
  have wf: "hash_wf (tp_active_steps p)"
    using proj_ok [OF Cons.prems(1,2)] by (simp add: projection_ok_def)
  have "in_i64 ?n" using Cons.prems(4) by simp
  from recover_turn_closes [OF Cons.prems(1,2) assms(3) wf this 1] obtain p1 where
    p1: "inv s1" "proj s1 t = Some p1" "closes ?n p p1" and
    c1: "if unsafe_turn p ?n
     then cs1 = [] \<and> \<not> unsafe_turn p1 ?n \<and> ?n \<notin> set (tp_active_turns p1)
     else p1 = p \<and> (\<forall>c \<in> set cs1. rc_turn_id c = ?n \<and> rc_redo_group c = it_redo_group turn \<and>
                       rc_redo_count c = add_i32 (it_redo_count turn) 1)" by blast
  have d: "distinct (map it_turn_id turns)" "?n \<notin> it_turn_id ` set turns"
    "\<forall>turn \<in> set turns. in_i64 (it_turn_id turn)"
    using Cons.prems(3,4) by auto
  from Cons.IH [OF p1(1,2) d(1,3) 2] obtain p2 where
    p2: "inv s'" "proj s' t = Some p2" "set (tp_active_turns p2) \<subseteq> set (tp_active_turns p1)"
      "\<And>n. n \<notin> it_turn_id ` set turns \<Longrightarrow> unsafe_turn p2 n = unsafe_turn p1 n"
      "\<And>u. u \<in> set turns \<Longrightarrow> unsafe_turn p1 (it_turn_id u) \<Longrightarrow>
         \<not> unsafe_turn p2 (it_turn_id u) \<and> it_turn_id u \<notin> set (tp_active_turns p2)"
      "\<And>c. c \<in> set cs2 \<Longrightarrow> \<exists>u \<in> set turns. \<not> unsafe_turn p1 (it_turn_id u) \<and>
         rc_turn_id c = it_turn_id u \<and> rc_redo_group c = it_redo_group u \<and>
         rc_redo_count c = add_i32 (it_redo_count u) 1" by blast
  have other: "n \<noteq> ?n \<Longrightarrow> unsafe_turn p1 n = unsafe_turn p n" for n
    by (rule closes_unsafe_other [OF p1(3)])
  have ne: "u \<in> set turns \<Longrightarrow> it_turn_id u \<noteq> ?n" for u using d(2) by (metis imageI)
  have "set (tp_active_turns p2) \<subseteq> set (tp_active_turns p)"
    using p2(3) closes_turnsD [OF p1(3)] by blast
  moreover have "\<forall>n. n \<notin> it_turn_id ` set (turn # turns) \<longrightarrow> unsafe_turn p2 n = unsafe_turn p n"
    using p2(4) other by auto
  moreover have "unsafe_turn p ?n \<Longrightarrow> \<not> unsafe_turn p2 ?n \<and> ?n \<notin> set (tp_active_turns p2)"
    using c1 p2(3) p2(4) [OF d(2)] by auto
  then have "\<forall>u \<in> set (turn # turns). unsafe_turn p (it_turn_id u) \<longrightarrow>
       \<not> unsafe_turn p2 (it_turn_id u) \<and> it_turn_id u \<notin> set (tp_active_turns p2)"
    using p2(5) other ne by auto
  moreover have "\<exists>u \<in> set (turn # turns). \<not> unsafe_turn p (it_turn_id u) \<and>
       rc_turn_id c = it_turn_id u \<and> rc_redo_group c = it_redo_group u \<and>
       rc_redo_count c = add_i32 (it_redo_count u) 1" if "c \<in> set cs" for c
  proof -
    from that cs consider "c \<in> set cs1" | "c \<in> set cs2" by auto
    then show ?thesis
    proof cases
      case 1
      with c1 show ?thesis by (auto split: if_splits)
    next
      case 2
      from p2(6) [OF 2] other ne show ?thesis by auto
    qed
  qed
  ultimately show ?case using p2(1,2) by blast
qed

lemma incomplete_turns_ids:
  "it_turn_id ` set (incomplete_turns ord p) \<subseteq> set (ord (tp_active_turns p))"
  by (auto simp: incomplete_turns_def List.map_filter_def split: option.splits list.splits)

lemma incomplete_turns_distinct:
  assumes "distinct (ord (tp_active_turns p))"
  shows "distinct (map it_turn_id (incomplete_turns ord p))"
  unfolding incomplete_turns_def
  by (rule map_filter_distinct_ids [OF _ assms]) (auto split: option.splits list.splits)

lemma recover_task_closes:
  assumes "inv s" "proj s t = Some p" "hash_order steps_iter" "hash_order turns_iter"
    and "recover_task es now t s = (Inr cs, s')"
  shows "\<exists>p'. inv s' \<and> proj s' t = Some p' \<and>
    (\<forall>turn \<in> set (incomplete_turns turns_iter p). unsafe_turn p (it_turn_id turn) \<longrightarrow>
       \<not> unsafe_turn p' (it_turn_id turn) \<and> it_turn_id turn \<notin> set (tp_active_turns p')) \<and>
    (\<forall>c \<in> set cs. \<exists>turn \<in> set (incomplete_turns turns_iter p). \<not> unsafe_turn p (it_turn_id turn) \<and>
       rc_turn_id c = it_turn_id turn \<and> rc_redo_group c = it_redo_group turn \<and>
       rc_redo_count c = add_i32 (it_redo_count turn) 1)"
proof -
  obtain s1 where s1: "es_get_incomplete_turns es t s = (Inr (incomplete_turns turns_iter p), s1)"
      "inv s1" "proj s1 = proj s"
    using cached_incomplete_turns [OF assms(1,2)] by blast
  have r: "recover_turns es now t (incomplete_turns turns_iter p) s1 = (Inr cs, s')"
    using assms(5) s1(1) by (simp add: recover_task_def andThen_apply)
  have ok: "projection_ok p" by (rule proj_ok [OF assms(1,2)])
  have "mset (turns_iter (tp_active_turns p)) = mset (tp_active_turns p)"
    using assms(4) by (simp add: hash_order_def)
  then have "distinct (turns_iter (tp_active_turns p))"
    using ok mset_eq_imp_distinct_iff unfolding projection_ok_def by blast
  then have d: "distinct (map it_turn_id (incomplete_turns turns_iter p))"
    by (rule incomplete_turns_distinct)
  have i: "\<forall>turn \<in> set (incomplete_turns turns_iter p). in_i64 (it_turn_id turn)"
    using incomplete_turns_ids [of turns_iter p] ok hash_order_set [OF assms(4), of "tp_active_turns p"]
    by (auto simp: projection_ok_def)
  from s1(3) assms(2) have "proj s1 t = Some p" by simp
  from recover_turns_closes [OF s1(2) this assms(3) d i r] show ?thesis by blast
qed

end

end
