(* ===== verification/Context_Builder.thy ===== *)
theory Context_Builder
  imports Service
begin

text \<open>
  \<open>src/context.rs\<close>: rebuilding the LLM conversation from a task's events: the latest summary, then
  the messages of the events after it.
\<close>

record llm_context =
  lc_summary :: string
  lc_summarized_up_to_seq :: int
  lc_summarized_up_to_turn_id :: "int option"
  lc_messages :: "message list"
  lc_incremental_start_seq :: int

definition role_message :: "string \<Rightarrow> string \<Rightarrow> message" where
  "role_message role content = \<lparr>msg_role = role, msg_content = content\<rparr>"

definition user_messages :: "json \<Rightarrow> message list" where
  "user_messages payload =
     (case Option.bind (jget ''user_input'' payload) as_str of
        None \<Rightarrow> [] | Some user_input \<Rightarrow> [role_message ''user'' user_input])"

definition content_messages :: "json \<Rightarrow> message list" where
  "content_messages payload =
     (case Option.bind (jget ''content'' payload) as_str of
        None \<Rightarrow> []
      | Some content \<Rightarrow> if content = [] then [] else [role_message ''assistant'' content])"

definition tool_call_messages :: "codec \<Rightarrow> json \<Rightarrow> message list" where
  "tool_call_messages cd payload =
     (case jget ''tool_calls'' payload of
        Some (JArr calls) \<Rightarrow>
          if calls = [] then []
          else [role_message ''assistant'' (''[tool_calls] '' @ to_vec cd (JArr calls))]
      | _ \<Rightarrow> [])"

definition tool_messages :: "codec \<Rightarrow> json \<Rightarrow> message list" where
  "tool_messages cd payload =
     (case jget ''output'' payload of
        None \<Rightarrow> []
      | Some output \<Rightarrow>
          [role_message ''tool'' (''['' @ str_field ''tool_name'' ''tool'' payload @ ''] ''
             @ to_vec cd output)])"

definition event_messages :: "codec \<Rightarrow> agent_event \<Rightarrow> message list" where
  "event_messages cd e =
     (case ae_event_type e of
        TurnStarted \<Rightarrow> user_messages (ae_payload e)
      | LlmCompleted \<Rightarrow> content_messages (ae_payload e) @ tool_call_messages cd (ae_payload e)
      | ToolCompleted \<Rightarrow> tool_messages cd (ae_payload e)
      | _ \<Rightarrow> [])"

fun messages_from :: "codec \<Rightarrow> message list \<Rightarrow> agent_event list \<Rightarrow> message list" where
  "messages_from cd messages [] = messages"
| "messages_from cd messages (e # es) = messages_from cd (messages @ event_messages cd e) es"

definition events_to_messages :: "codec \<Rightarrow> agent_event list \<Rightarrow> message list" where
  "events_to_messages cd events = messages_from cd [] events"

definition build_llm_context :: "codec \<Rightarrow> 's event_store \<Rightarrow> string \<Rightarrow> ('s, llm_context) svc" where
  "build_llm_context cd es tid =
     andThen (es_get_latest_summary es tid) (\<lambda>latest.
     let (text, upto, turn) =
           (case latest of
              Some ev \<Rightarrow>
                (str_field ''summary'' [] (ae_payload ev),
                 i64_field ''summarized_up_to_seq'' 0 (ae_payload ev),
                 Option.bind (jget ''summarized_up_to_turn_id'' (ae_payload ev)) as_i64)
            | None \<Rightarrow> ([], 0, None))
     in andThen (es_get_events_after_seq es tid upto) (\<lambda>events.
        ok \<lparr>lc_summary = text, lc_summarized_up_to_seq = upto, lc_summarized_up_to_turn_id = turn,
            lc_messages = events_to_messages cd events, lc_incremental_start_seq = add_i64 upto 1\<rparr>))"

definition full_replay ::
  "codec \<Rightarrow> 's event_store \<Rightarrow> string \<Rightarrow> ('s, agent_event list \<times> message list) svc" where
  "full_replay cd es tid =
     andThen (es_get_events_after_seq es tid 0) (\<lambda>events. ok (events, events_to_messages cd events))"

definition build_turn_context ::
  "codec \<Rightarrow> 's event_store \<Rightarrow> string \<Rightarrow> int \<Rightarrow> ('s, message list) svc" where
  "build_turn_context cd es tid turn_id =
     andThen (es_get_turn_events es tid turn_id) (\<lambda>events. ok (events_to_messages cd events))"

fun turns_messages ::
  "codec \<Rightarrow> 's event_store \<Rightarrow> string \<Rightarrow> message list \<Rightarrow> int list \<Rightarrow> ('s, message list) svc" where
  "turns_messages cd es tid acc [] = ok acc"
| "turns_messages cd es tid acc (n # ns) =
     andThen (es_get_turn_events es tid n) (\<lambda>events.
       turns_messages cd es tid (acc @ events_to_messages cd events) ns)"

definition build_recent_turns_context ::
  "codec \<Rightarrow> 's event_store \<Rightarrow> string \<Rightarrow> int \<Rightarrow> ('s, message list) svc" where
  "build_recent_turns_context cd es tid recent_turns =
     andThen (es_get_recent_turn_ids es tid recent_turns) (\<lambda>ids.
       turns_messages cd es tid [] (rev ids))"

definition build_system_prompt :: "llm_context \<Rightarrow> string" where
  "build_system_prompt context =
     (if lc_summary context = [] then []
      else ''Previous conversation summary (up to turn '' @
             (case lc_summarized_up_to_turn_id context of None \<Rightarrow> ''?'' | Some n \<Rightarrow> show_int n)
             @ ''):'' @ [CHR 0x0A] @ lc_summary context)"

section \<open>Messages are built event by event\<close>

lemma messages_from_concat: "messages_from cd acc es = acc @ concat (map (event_messages cd) es)"
  by (induction es arbitrary: acc) simp_all

lemma events_to_messages_concat [simp]:
  "events_to_messages cd es = concat (map (event_messages cd) es)"
  by (simp add: events_to_messages_def messages_from_concat)

context projected_store
begin

lemma turns_messages_cached:
  assumes "inv s" "proj s t = Some p"
  shows "\<exists>s'. turns_messages cdc es t acc ns s =
     (Inr (acc @ concat (map (\<lambda>n. events_to_messages cdc
             (List.map_filter (\<lambda>q. by_seq q p) (turn_seqs n p))) ns)), s') \<and>
     inv s' \<and> proj s' = proj s"
  using assms
proof (induction ns arbitrary: acc s)
  case Nil
  then show ?case by auto
next
  case (Cons n ns)
  obtain s1 where s1: "es_get_turn_events es t n s =
      (Inr (List.map_filter (\<lambda>q. by_seq q p) (turn_seqs n p)), s1)" "inv s1" "proj s1 = proj s"
    using cached_turn_events [OF Cons.prems] by blast
  with Cons.prems have "proj s1 t = Some p" by simp
  from Cons.IH [OF s1(2) this, of "acc @ events_to_messages cdc
      (List.map_filter (\<lambda>q. by_seq q p) (turn_seqs n p))"] s1 show ?case
    by (auto simp: andThen_apply)
qed

end

end
