(* ===== verification/Dispatcher.thy ===== *)
theory Dispatcher
  imports Models "HOL-Library.List_Lexorder" "HOL-Library.Char_ord"
begin

text \<open>
  \<open>src/dispatcher.rs\<close>: the dispatch scheduler. Per task type it keeps a priority queue of turns and
  a count of the turns in flight, with at most \<open>max_concurrent\<close> of them. A higher priority goes
  first, and among equal priorities the one enqueued first. Rust's \<open>BinaryHeap\<close> is the bag of
  its elements with \<open>pop\<close> taking the greatest; the instant a turn was enqueued is an \<open>int\<close>.
\<close>

section \<open>Entries and their order\<close>

record queued_turn =
  qt_task_type :: string
  qt_task_id :: string
  qt_turn_id :: int
  qt_user_input :: string
  qt_redo_group :: string
  qt_redo_count :: int
  qt_cached_llm :: "string list"
  qt_priority :: int
  qt_enqueued_at :: int

text \<open>
  The entry's \<open>Ord\<close> reads only the priority and the sequence number, so it is the order of this
  key: the greater key has the higher priority, or the same priority and the smaller number.
\<close>

datatype pri_key = PriKey int nat

fun pri_key_le :: "pri_key \<Rightarrow> pri_key \<Rightarrow> bool" where
  "pri_key_le (PriKey p s) (PriKey p' s') \<longleftrightarrow> p < p' \<or> (p = p' \<and> s' \<le> s)"

instantiation pri_key :: linorder
begin

definition less_eq_pri_key :: "pri_key \<Rightarrow> pri_key \<Rightarrow> bool" where
  "less_eq_pri_key a b \<longleftrightarrow> pri_key_le a b"

definition less_pri_key :: "pri_key \<Rightarrow> pri_key \<Rightarrow> bool" where
  "less_pri_key a b \<longleftrightarrow> a \<le> b \<and> \<not> b \<le> a"

instance
proof
  fix a b c :: pri_key
  show "a < b \<longleftrightarrow> a \<le> b \<and> \<not> b \<le> a" by (rule less_pri_key_def)
  show "a \<le> a" by (cases a) (simp add: less_eq_pri_key_def)
  show "a \<le> b \<Longrightarrow> b \<le> c \<Longrightarrow> a \<le> c"
    by (cases a; cases b; cases c) (auto simp: less_eq_pri_key_def)
  show "a \<le> b \<Longrightarrow> b \<le> a \<Longrightarrow> a = b" by (cases a; cases b) (auto simp: less_eq_pri_key_def)
  show "a \<le> b \<or> b \<le> a" by (cases a; cases b) (auto simp: less_eq_pri_key_def)
qed

end

lemma pri_key_le_iff [simp]: "PriKey p s \<le> PriKey p' s' \<longleftrightarrow> p < p' \<or> (p = p' \<and> s' \<le> s)"
  by (simp add: less_eq_pri_key_def)

record pri_entry =
  pe_priority :: int
  pe_seq :: nat
  pe_turn :: queued_turn

definition pe_key :: "pri_entry \<Rightarrow> pri_key" where
  "pe_key e = PriKey (pe_priority e) (pe_seq e)"

fun heap_max :: "pri_entry \<Rightarrow> pri_entry list \<Rightarrow> pri_entry" where
  "heap_max m [] = m"
| "heap_max m (e # es) = heap_max (if pe_key m < pe_key e then e else m) es"

definition heap_pop :: "pri_entry list \<Rightarrow> (pri_entry \<times> pri_entry list) option" where
  "heap_pop es =
     (case es of [] \<Rightarrow> None | e # r \<Rightarrow> let m = heap_max e r in Some (m, remove1 m es))"

section \<open>The dispatcher\<close>

record type_queue =
  tq_pending :: "pri_entry list"
  tq_in_flight :: nat

definition type_queue_default :: type_queue where
  "type_queue_default = \<lparr>tq_pending = [], tq_in_flight = 0\<rparr>"

record dispatcher =
  d_queues :: "(string \<times> type_queue) list"
  d_max_concurrent :: nat
  d_next_seq :: nat

definition dispatcher_new :: "nat \<Rightarrow> dispatcher" where
  "dispatcher_new n = \<lparr>d_queues = [], d_max_concurrent = max n 1, d_next_seq = 0\<rparr>"

definition entry_of :: "nat \<Rightarrow> queued_turn \<Rightarrow> pri_entry" where
  "entry_of seq turn = \<lparr>pe_priority = qt_priority turn, pe_seq = seq, pe_turn = turn\<rparr>"

definition enqueue :: "queued_turn \<Rightarrow> dispatcher \<Rightarrow> nat \<times> dispatcher" where
  "enqueue turn d =
     (let seq = d_next_seq d;
          q = unwrap_or type_queue_default (map_of (d_queues d) (qt_task_type turn));
          q' = q\<lparr>tq_pending := entry_of seq turn # tq_pending q\<rparr>
      in (length (tq_pending q'),
          d\<lparr>d_queues := AList.update (qt_task_type turn) q' (d_queues d),
            d_next_seq := (seq + 1) mod 2 ^ 64\<rparr>))"

definition try_pop :: "string \<Rightarrow> dispatcher \<Rightarrow> queued_turn option \<times> dispatcher" where
  "try_pop tt d =
     (case map_of (d_queues d) tt of
        None \<Rightarrow> (None, d)
      | Some q \<Rightarrow>
          if tq_in_flight q \<ge> d_max_concurrent d then (None, d)
          else (case heap_pop (tq_pending q) of
                  None \<Rightarrow> (None, d)
                | Some (e, rest) \<Rightarrow>
                    (Some (pe_turn e),
                     d\<lparr>d_queues := AList.update tt
                         (q\<lparr>tq_pending := rest, tq_in_flight := tq_in_flight q + 1\<rparr>)
                         (d_queues d)\<rparr>)))"

definition on_turn_terminal :: "string \<Rightarrow> dispatcher \<Rightarrow> dispatcher" where
  "on_turn_terminal tt d =
     (case map_of (d_queues d) tt of
        None \<Rightarrow> d
      | Some q \<Rightarrow>
          if tq_in_flight q > 0
          then d\<lparr>d_queues := AList.update tt (q\<lparr>tq_in_flight := tq_in_flight q - 1\<rparr>) (d_queues d)\<rparr>
          else d)"

definition in_flight :: "string \<Rightarrow> dispatcher \<Rightarrow> nat" where
  "in_flight tt d = unwrap_or 0 (map_option tq_in_flight (map_of (d_queues d) tt))"

definition pending_count :: "string \<Rightarrow> dispatcher \<Rightarrow> nat" where
  "pending_count tt d = unwrap_or 0 (map_option (\<lambda>q. length (tq_pending q)) (map_of (d_queues d) tt))"

definition snapshot :: "dispatcher \<Rightarrow> (string \<times> nat \<times> nat) list" where
  "snapshot d =
     sort_key fst (map (\<lambda>(tt, q). (tt, length (tq_pending q), tq_in_flight q)) (d_queues d))"

section \<open>The heap gives the greatest entry\<close>

lemma heap_max_in: "heap_max m es \<in> set (m # es)"
  by (induction es arbitrary: m) (auto split: if_splits)

lemma heap_max_ge: "x \<in> set (m # es) \<Longrightarrow> pe_key x \<le> pe_key (heap_max m es)"
proof (induction es arbitrary: m x)
  case Nil
  then show ?case by simp
next
  case (Cons e es)
  let ?m = "if pe_key m < pe_key e then e else m"
  have top: "pe_key ?m \<le> pe_key (heap_max ?m es)" using Cons.IH by simp
  have "pe_key x \<le> pe_key ?m" if "x = m \<or> x = e" using that by auto
  with top Cons show ?case by (metis heap_max.simps(2) list.set_intros(2) order_trans set_ConsD)
qed

lemma heap_pop_None [simp]: "heap_pop es = None \<longleftrightarrow> es = []"
  by (auto simp: heap_pop_def Let_def split: list.splits)

lemma heap_pop_Nil [simp]: "heap_pop [] = None"
  by simp

lemma heap_pop_SomeD:
  assumes "heap_pop es = Some (e, rest)"
  shows "e \<in> set es" "rest = remove1 e es" "\<forall>x \<in> set es. pe_key x \<le> pe_key e"
  using assms heap_max_in heap_max_ge
  by (auto simp: heap_pop_def Let_def split: list.splits)

section \<open>The abstract queue\<close>

text \<open>
  What the scheduler promises of one task type: a waiting list, kept by non-increasing priority,
  where a new turn goes behind every turn of at least its priority and the first one is taken.
\<close>

definition insert_stable :: "('a \<Rightarrow> int) \<Rightarrow> 'a \<Rightarrow> 'a list \<Rightarrow> 'a list" where
  "insert_stable p x xs =
     takeWhile (\<lambda>y. p x \<le> p y) xs @ x # dropWhile (\<lambda>y. p x \<le> p y) xs"

locale stable_queue =
  fixes empty :: "'q"
    and push :: "'a \<Rightarrow> 'q \<Rightarrow> 'q"
    and pop :: "'q \<Rightarrow> ('a \<times> 'q) option"
    and waiting :: "'q \<Rightarrow> 'a list"
    and invar :: "'q \<Rightarrow> bool"
    and prio :: "'a \<Rightarrow> int"
  assumes waiting_empty: "waiting empty = []"
    and waiting_push: "invar q \<Longrightarrow> waiting (push x q) = insert_stable prio x (waiting q)"
    and pop_None: "invar q \<Longrightarrow> pop q = None \<longleftrightarrow> waiting q = []"
    and pop_Some: "invar q \<Longrightarrow> pop q = Some (x, q') \<Longrightarrow> waiting q = x # waiting q' \<and> invar q'"
    and invar_empty: "invar empty"
    and invar_push: "invar q \<Longrightarrow> invar (push x q)"
begin

fun drain :: "nat \<Rightarrow> 'q \<Rightarrow> 'a list" where
  "drain 0 q = []"
| "drain (Suc n) q = (case pop q of None \<Rightarrow> [] | Some (x, q') \<Rightarrow> x # drain n q')"

lemma drain_takes: "invar q \<Longrightarrow> drain n q = take n (waiting q)"
proof (induction n arbitrary: q)
  case 0
  then show ?case by simp
next
  case (Suc n)
  show ?case
  proof (cases "pop q")
    case None
    then have "waiting q = []" using pop_None [OF Suc.prems] by simp
    with None show ?thesis by simp
  next
    case (Some r)
    then obtain x q' where "pop q = Some (x, q')" by (cases r) auto
    with Suc pop_Some show ?thesis by simp
  qed
qed

lemma push_all_invar: "invar q \<Longrightarrow> invar (fold push xs q)"
  by (induction xs arbitrary: q) (auto intro: invar_push)

lemma push_all_waiting:
  "invar q \<Longrightarrow> waiting (fold push xs q) = fold (insert_stable prio) xs (waiting q)"
  by (induction xs arbitrary: q) (auto simp: waiting_push invar_push)

end

lemma insert_stable_snoc:
  "p a < p x \<Longrightarrow> insert_stable p x (xs @ [a]) = insert_stable p x xs @ [a]"
  by (induction xs) (auto simp: insert_stable_def)

lemma insert_stable_all: "\<forall>y \<in> set xs. p x \<le> p y \<Longrightarrow> insert_stable p x xs = xs @ [x]"
  by (simp add: insert_stable_def takeWhile_eq_all_conv [THEN iffD2] dropWhile_eq_Nil_conv [THEN iffD2])

lemma set_insert_stable [simp]: "set (insert_stable p x xs) = insert x (set xs)"
proof -
  have "set xs = set (takeWhile (\<lambda>y. p x \<le> p y) xs) \<union> set (dropWhile (\<lambda>y. p x \<le> p y) xs)"
    by (metis set_append takeWhile_dropWhile_id)
  then show ?thesis by (auto simp: insert_stable_def)
qed

lemma insert_stable_Cons:
  "insert_stable p x (y # ys) = (if p x \<le> p y then y # insert_stable p x ys else x # y # ys)"
  by (simp add: insert_stable_def)

lemma insert_stable_sorted:
  "sorted_wrt (\<lambda>a b. p b \<le> p a) xs \<Longrightarrow> sorted_wrt (\<lambda>a b. p b \<le> p a) (insert_stable p x xs)"
proof (induction xs)
  case Nil
  then show ?case by (simp add: insert_stable_def)
next
  case (Cons y ys)
  then show ?case by (fastforce simp: insert_stable_Cons)
qed

section \<open>The heap implements the abstract queue\<close>

definition waiting_turns :: "pri_entry list \<Rightarrow> queued_turn list" where
  "waiting_turns es = map pe_turn (rev (sort_key pe_key es))"

definition entries_ok :: "nat \<Rightarrow> pri_entry list \<Rightarrow> bool" where
  "entries_ok n es \<longleftrightarrow>
     distinct (map pe_seq es) \<and> (\<forall>e \<in> set es. pe_seq e < n \<and> pe_priority e = qt_priority (pe_turn e))"

lemma entries_ok_inj: "entries_ok n es \<Longrightarrow> inj_on pe_key (set es)"
  by (auto simp: entries_ok_def distinct_map inj_on_def pe_key_def)

lemma entries_ok_mono: "entries_ok n es \<Longrightarrow> n \<le> m \<Longrightarrow> entries_ok m es"
  by (auto simp: entries_ok_def)

lemma entries_ok_push: "entries_ok n es \<Longrightarrow> entries_ok (Suc n) (entry_of n t # es)"
  by (auto simp: entries_ok_def entry_of_def less_Suc_eq)

lemma entries_ok_remove1: "entries_ok n es \<Longrightarrow> entries_ok n (remove1 e es)"
  using set_remove1_subset [of e es]
  by (auto simp: entries_ok_def distinct_map distinct_remove1 inj_on_def)

lemma rev_insort_new:
  assumes "sorted (map pe_key es)"
    and "\<forall>e \<in> set es. pe_seq e < n \<and> pe_priority e = qt_priority (pe_turn e)"
  shows "map pe_turn (rev (insort_key pe_key (entry_of n t) es))
         = insert_stable qt_priority t (map pe_turn (rev es))"
  using assms
proof (induction es)
  case Nil
  then show ?case by (simp add: entry_of_def insert_stable_def)
next
  case (Cons a es)
  have a: "pe_seq a < n" "pe_priority a = qt_priority (pe_turn a)" using Cons.prems by auto
  show ?case
  proof (cases "pe_key (entry_of n t) \<le> pe_key a")
    case True
    have "\<forall>e \<in> set (a # es). qt_priority t \<le> qt_priority (pe_turn e)"
    proof
      fix e assume e: "e \<in> set (a # es)"
      with Cons.prems have "pe_key a \<le> pe_key e" by auto
      with True have "pe_key (entry_of n t) \<le> pe_key e" by simp
      moreover have "pe_priority e = qt_priority (pe_turn e)" using e Cons.prems by auto
      ultimately show "qt_priority t \<le> qt_priority (pe_turn e)"
        by (auto simp: pe_key_def entry_of_def)
    qed
    then have "insert_stable qt_priority t (map pe_turn (rev (a # es)))
               = map pe_turn (rev (a # es)) @ [t]"
      by (intro insert_stable_all) auto
    with True show ?thesis by (simp add: entry_of_def)
  next
    case False
    then have "qt_priority (pe_turn a) < qt_priority t"
      using a by (auto simp: pe_key_def entry_of_def)
    then show ?thesis
      using False Cons by (simp add: insert_stable_snoc)
  qed
qed

lemma waiting_turns_push:
  assumes "entries_ok n es"
  shows "waiting_turns (entry_of n t # es) = insert_stable qt_priority t (waiting_turns es)"
  using rev_insort_new [of "sort_key pe_key es" n t] assms
  by (simp add: waiting_turns_def entries_ok_def)

lemma waiting_turns_pop:
  assumes "entries_ok n es" "heap_pop es = Some (e, rest)"
  shows "waiting_turns es = pe_turn e # waiting_turns rest"
proof -
  note h = heap_pop_SomeD [OF assms(2)]
  have "sort_key pe_key es = sort_key pe_key rest @ [e]"
  proof (rule sort_key_inj_key_eq)
    show "mset es = mset (sort_key pe_key rest @ [e])" using h(1,2) by simp
    show "inj_on pe_key (set es)" by (rule entries_ok_inj [OF assms(1)])
    show "sorted (map pe_key (sort_key pe_key rest @ [e]))"
      using h set_remove1_subset [of e es] by (auto simp: sorted_append)
  qed
  then show ?thesis by (simp add: waiting_turns_def)
qed

lemma waiting_turns_Nil [simp]: "waiting_turns es = [] \<longleftrightarrow> es = []"
  by (metis waiting_turns_def map_is_Nil_conv rev_is_Nil_conv length_0_conv length_sort)

lemma waiting_turns_empty [simp]: "waiting_turns [] = []"
  by simp

lemma set_waiting_turns: "set (waiting_turns es) = pe_turn ` set es"
  by (simp add: waiting_turns_def)

lemma length_waiting_turns [simp]: "length (waiting_turns es) = length es"
  by (simp add: waiting_turns_def)

definition seq_push :: "queued_turn \<Rightarrow> nat \<times> pri_entry list \<Rightarrow> nat \<times> pri_entry list" where
  "seq_push t q = (Suc (fst q), entry_of (fst q) t # snd q)"

definition seq_pop :: "nat \<times> pri_entry list \<Rightarrow> (queued_turn \<times> (nat \<times> pri_entry list)) option" where
  "seq_pop q = map_option (\<lambda>(e, rest). (pe_turn e, (fst q, rest))) (heap_pop (snd q))"

interpretation pq: stable_queue "(0, [])" seq_push seq_pop "\<lambda>q. waiting_turns (snd q)"
  "\<lambda>q. entries_ok (fst q) (snd q)" qt_priority
proof unfold_locales
  fix q x q'
  assume inv: "entries_ok (fst q) (snd q)"
  show "waiting_turns (snd (seq_push x q)) = insert_stable qt_priority x (waiting_turns (snd q))"
    using inv by (simp add: seq_push_def waiting_turns_push)
  show "seq_pop q = None \<longleftrightarrow> waiting_turns (snd q) = []"
    by (simp add: seq_pop_def)
  show "entries_ok (fst (seq_push x q)) (snd (seq_push x q))"
    using inv by (simp add: seq_push_def entries_ok_push)
  assume "seq_pop q = Some (x, q')"
  then obtain e where e: "heap_pop (snd q) = Some (e, snd q')" "x = pe_turn e" "fst q' = fst q"
    by (auto simp: seq_pop_def)
  then show "waiting_turns (snd q) = x # waiting_turns (snd q') \<and> entries_ok (fst q') (snd q')"
    using waiting_turns_pop [OF inv] heap_pop_SomeD(2) [OF e(1)] entries_ok_remove1 [OF inv] by simp
qed (auto simp: waiting_turns_def entries_ok_def)

section \<open>The dispatcher and its specification\<close>

definition waiting :: "string \<Rightarrow> dispatcher \<Rightarrow> queued_turn list" where
  "waiting tt d =
     (case map_of (d_queues d) tt of None \<Rightarrow> [] | Some q \<Rightarrow> waiting_turns (tq_pending q))"

definition queue_ok :: "dispatcher \<Rightarrow> string \<Rightarrow> type_queue \<Rightarrow> bool" where
  "queue_ok d tt q \<longleftrightarrow> entries_ok (d_next_seq d) (tq_pending q) \<and>
     tq_in_flight q \<le> d_max_concurrent d \<and> (\<forall>e \<in> set (tq_pending q). qt_task_type (pe_turn e) = tt)"

definition dispatcher_ok :: "dispatcher \<Rightarrow> bool" where
  "dispatcher_ok d \<longleftrightarrow> hash_wf (d_queues d) \<and> 1 \<le> d_max_concurrent d \<and>
     (\<forall>tt q. map_of (d_queues d) tt = Some q \<longrightarrow> queue_ok d tt q)"

lemma dispatcher_okD:
  "dispatcher_ok d \<Longrightarrow> map_of (d_queues d) tt = Some q \<Longrightarrow> queue_ok d tt q"
  by (simp add: dispatcher_ok_def)

lemma dispatcher_new_ok [inv_intros]: "dispatcher_ok (dispatcher_new n)"
  by (simp add: dispatcher_ok_def dispatcher_new_def)

text \<open>Fewer than \<open>2 ^ 64\<close> turns have been enqueued: the counter has not wrapped.\<close>

lemma enqueue_ok [inv_intros]:
  assumes "dispatcher_ok d" "d_next_seq d + 1 < 2 ^ 64"
  shows "dispatcher_ok (snd (enqueue t d))"
proof -
  let ?q = "unwrap_or type_queue_default (map_of (d_queues d) (qt_task_type t))"
  have q: "queue_ok d (qt_task_type t) ?q"
    using assms(1) dispatcher_okD [OF assms(1)]
    by (cases "map_of (d_queues d) (qt_task_type t)")
       (auto simp: queue_ok_def type_queue_default_def entries_ok_def)
  have "queue_ok (snd (enqueue t d)) tt q'"
    if "map_of (d_queues (snd (enqueue t d))) tt = Some q'" for tt q'
  proof (cases "tt = qt_task_type t")
    case True
    with that q assms(2) entries_ok_push [of "d_next_seq d" "tq_pending ?q" t] show ?thesis
      by (auto simp: enqueue_def Let_def hash_lookup_update queue_ok_def entry_of_def)
  next
    case False
    with that have "map_of (d_queues d) tt = Some q'"
      by (simp add: enqueue_def Let_def hash_lookup_update)
    from dispatcher_okD [OF assms(1) this] have "queue_ok d tt q'" .
    with assms(2) entries_ok_mono [of "d_next_seq d" "tq_pending q'" "Suc (d_next_seq d)"]
    show ?thesis by (simp add: enqueue_def Let_def queue_ok_def)
  qed
  with assms show ?thesis by (simp add: dispatcher_ok_def enqueue_def Let_def)
qed

lemma try_pop_ok [inv_intros]:
  assumes "dispatcher_ok d"
  shows "dispatcher_ok (snd (try_pop tt d))"
proof (cases "map_of (d_queues d) tt")
  case None
  with assms show ?thesis by (simp add: try_pop_def)
next
  case (Some q)
  note qok = dispatcher_okD [OF assms Some]
  show ?thesis
  proof (cases "tq_in_flight q \<ge> d_max_concurrent d \<or> heap_pop (tq_pending q) = None")
    case True
    with Some assms show ?thesis by (auto simp: try_pop_def)
  next
    case False
    then obtain e rest where p: "heap_pop (tq_pending q) = Some (e, rest)"
      by (cases "heap_pop (tq_pending q)") auto
    have "rest = remove1 e (tq_pending q)" by (rule heap_pop_SomeD(2) [OF p])
    with qok False have "queue_ok d tt (q\<lparr>tq_pending := rest, tq_in_flight := tq_in_flight q + 1\<rparr>)"
      using entries_ok_remove1 set_remove1_subset by (fastforce simp: queue_ok_def)
    with assms Some False p show ?thesis
      by (auto simp: try_pop_def dispatcher_ok_def hash_lookup_update queue_ok_def)
  qed
qed

lemma on_turn_terminal_ok [inv_intros]:
  assumes "dispatcher_ok d"
  shows "dispatcher_ok (on_turn_terminal tt d)"
proof (cases "map_of (d_queues d) tt")
  case None
  with assms show ?thesis by (simp add: on_turn_terminal_def)
next
  case (Some q)
  have "queue_ok d tt (q\<lparr>tq_in_flight := tq_in_flight q - 1\<rparr>)"
    using dispatcher_okD [OF assms Some] by (auto simp: queue_ok_def)
  with assms Some show ?thesis
    by (auto simp: on_turn_terminal_def dispatcher_ok_def hash_lookup_update queue_ok_def)
qed

text \<open>What each operation does to the waiting lists and the counts.\<close>

lemma waiting_enqueue:
  assumes "dispatcher_ok d"
  shows "waiting tt (snd (enqueue t d)) =
     (if tt = qt_task_type t then insert_stable qt_priority t (waiting tt d) else waiting tt d)"
proof (cases "map_of (d_queues d) (qt_task_type t)")
  case None
  then show ?thesis
    using waiting_turns_push [of "d_next_seq d" "[]" t]
    by (auto simp: waiting_def enqueue_def Let_def hash_lookup_update type_queue_default_def
        entries_ok_def waiting_turns_def [of "[]"])
next
  case (Some q)
  with dispatcher_okD [OF assms] have "entries_ok (d_next_seq d) (tq_pending q)"
    by (simp add: queue_ok_def)
  with Some show ?thesis
    by (simp add: waiting_def enqueue_def Let_def hash_lookup_update waiting_turns_push)
qed

lemma in_flight_enqueue [simp]: "in_flight tt (snd (enqueue t d)) = in_flight tt d"
  by (cases "map_of (d_queues d) (qt_task_type t)")
     (auto simp: in_flight_def enqueue_def Let_def hash_lookup_update type_queue_default_def)

lemma pending_count_waiting: "pending_count tt d = length (waiting tt d)"
  by (simp add: pending_count_def waiting_def split: option.split)

lemma enqueue_returns: "fst (enqueue t d) = pending_count (qt_task_type t) (snd (enqueue t d))"
  by (simp add: enqueue_def pending_count_def Let_def hash_lookup_update)

lemma max_concurrent_kept [simp]:
  "d_max_concurrent (snd (enqueue t d)) = d_max_concurrent d"
  "d_max_concurrent (snd (try_pop tt d)) = d_max_concurrent d"
  "d_max_concurrent (on_turn_terminal tt d) = d_max_concurrent d"
  by (auto simp: enqueue_def try_pop_def on_turn_terminal_def Let_def split: option.split)

lemma next_seq_kept [simp]:
  "d_next_seq (snd (try_pop tt d)) = d_next_seq d"
  "d_next_seq (on_turn_terminal tt d) = d_next_seq d"
  by (auto simp: try_pop_def on_turn_terminal_def split: option.split)

lemma try_pop_result:
  assumes "dispatcher_ok d"
  shows "try_pop tt d =
     (case waiting tt d of
        [] \<Rightarrow> (None, d)
      | t # ts \<Rightarrow> if in_flight tt d < d_max_concurrent d then (Some t, snd (try_pop tt d)) else (None, d))"
proof (cases "map_of (d_queues d) tt")
  case None
  then show ?thesis by (simp add: try_pop_def waiting_def)
next
  case (Some q)
  then have inv: "entries_ok (d_next_seq d) (tq_pending q)"
    using dispatcher_okD [OF assms] by (simp add: queue_ok_def)
  show ?thesis
  proof (cases "heap_pop (tq_pending q)")
    case None
    then have "waiting_turns (tq_pending q) = []" by simp
    with None Some show ?thesis by (simp add: try_pop_def waiting_def)
  next
    case p: (Some r)
    obtain e rest where r: "r = (e, rest)" by (cases r)
    with p Some waiting_turns_pop [OF inv] show ?thesis
      by (auto simp: try_pop_def waiting_def in_flight_def)
  qed
qed

lemma try_pop_Some_state:
  assumes "dispatcher_ok d" "try_pop tt d = (Some t, d')"
  shows "waiting tt d = t # waiting tt d'" "in_flight tt d' = in_flight tt d + 1"
    "in_flight tt d < d_max_concurrent d"
    "tt' \<noteq> tt \<Longrightarrow> waiting tt' d' = waiting tt' d \<and> in_flight tt' d' = in_flight tt' d"
proof -
  from assms(2) obtain q e rest where q: "map_of (d_queues d) tt = Some q"
    "heap_pop (tq_pending q) = Some (e, rest)" "t = pe_turn e" "tq_in_flight q < d_max_concurrent d"
    "d' = d\<lparr>d_queues := AList.update tt (q\<lparr>tq_pending := rest, tq_in_flight := tq_in_flight q + 1\<rparr>)
             (d_queues d)\<rparr>"
    by (auto simp: try_pop_def split: option.splits if_splits)
  have "entries_ok (d_next_seq d) (tq_pending q)"
    using dispatcher_okD [OF assms(1) q(1)] by (simp add: queue_ok_def)
  from waiting_turns_pop [OF this q(2)] q
  show "waiting tt d = t # waiting tt d'" "in_flight tt d' = in_flight tt d + 1"
    "in_flight tt d < d_max_concurrent d"
    "tt' \<noteq> tt \<Longrightarrow> waiting tt' d' = waiting tt' d \<and> in_flight tt' d' = in_flight tt' d"
    by (simp_all add: waiting_def in_flight_def hash_lookup_update)
qed

lemma waiting_on_turn_terminal [simp]: "waiting tt' (on_turn_terminal tt d) = waiting tt' d"
  by (auto simp: waiting_def on_turn_terminal_def hash_lookup_update split: option.split)

lemma in_flight_on_turn_terminal:
  "in_flight tt' (on_turn_terminal tt d) = (if tt' = tt then in_flight tt d - 1 else in_flight tt' d)"
  by (auto simp: in_flight_def on_turn_terminal_def hash_lookup_update split: option.split)

text \<open>The specification: waiting lists and counts per type, and the same three operations on them.\<close>

record dispatch_spec =
  ds_waiting :: "string \<Rightarrow> queued_turn list"
  ds_in_flight :: "string \<Rightarrow> nat"

definition abs_dispatch :: "dispatcher \<Rightarrow> dispatch_spec" where
  "abs_dispatch d = \<lparr>ds_waiting = (\<lambda>tt. waiting tt d), ds_in_flight = (\<lambda>tt. in_flight tt d)\<rparr>"

datatype dispatch_op = OpEnqueue queued_turn | OpPop string | OpTerminal string

fun dispatch_step :: "dispatch_op \<Rightarrow> dispatcher \<Rightarrow> queued_turn option \<times> dispatcher" where
  "dispatch_step (OpEnqueue t) d = (None, snd (enqueue t d))"
| "dispatch_step (OpPop tt) d = try_pop tt d"
| "dispatch_step (OpTerminal tt) d = (None, on_turn_terminal tt d)"

fun spec_step :: "nat \<Rightarrow> dispatch_op \<Rightarrow> dispatch_spec \<Rightarrow> queued_turn option \<times> dispatch_spec" where
  "spec_step cap (OpEnqueue t) s =
     (None, s\<lparr>ds_waiting := (ds_waiting s)(qt_task_type t :=
                insert_stable qt_priority t (ds_waiting s (qt_task_type t)))\<rparr>)"
| "spec_step cap (OpPop tt) s =
     (case ds_waiting s tt of
        [] \<Rightarrow> (None, s)
      | t # ts \<Rightarrow>
          if ds_in_flight s tt < cap
          then (Some t, s\<lparr>ds_waiting := (ds_waiting s)(tt := ts),
                          ds_in_flight := (ds_in_flight s)(tt := ds_in_flight s tt + 1)\<rparr>)
          else (None, s))"
| "spec_step cap (OpTerminal tt) s =
     (None, s\<lparr>ds_in_flight := (ds_in_flight s)(tt := ds_in_flight s tt - 1)\<rparr>)"

fun dispatch_run :: "dispatch_op list \<Rightarrow> dispatcher \<Rightarrow> queued_turn option list \<times> dispatcher" where
  "dispatch_run [] d = ([], d)"
| "dispatch_run (x # xs) d =
     (case dispatch_step x d of (r, d') \<Rightarrow> case dispatch_run xs d' of (rs, d'') \<Rightarrow> (r # rs, d''))"

fun spec_run :: "nat \<Rightarrow> dispatch_op list \<Rightarrow> dispatch_spec \<Rightarrow> queued_turn option list \<times> dispatch_spec" where
  "spec_run cap [] s = ([], s)"
| "spec_run cap (x # xs) s =
     (case spec_step cap x s of (r, s') \<Rightarrow> case spec_run cap xs s' of (rs, s'') \<Rightarrow> (r # rs, s''))"

lemma dispatch_step_ok:
  "dispatcher_ok d \<Longrightarrow> d_next_seq d + 1 < 2 ^ 64 \<Longrightarrow> dispatcher_ok (snd (dispatch_step x d))"
  by (cases x) (auto intro: inv_intros simp del: power_numeral)

lemma dispatch_step_next_seq:
  "d_next_seq d + 1 < 2 ^ 64 \<Longrightarrow> d_next_seq (snd (dispatch_step x d)) \<le> d_next_seq d + 1"
  by (cases x) (auto simp: enqueue_def Let_def)

lemma dispatch_step_max [simp]: "d_max_concurrent (snd (dispatch_step x d)) = d_max_concurrent d"
  by (cases x) simp_all

lemma dispatch_step_refines:
  assumes "dispatcher_ok d"
  shows "spec_step (d_max_concurrent d) x (abs_dispatch d) =
     (fst (dispatch_step x d), abs_dispatch (snd (dispatch_step x d)))"
proof (cases x)
  case (OpEnqueue t)
  then show ?thesis by (auto simp: abs_dispatch_def waiting_enqueue [OF assms])
next
  case (OpPop tt)
  show ?thesis
  proof (cases "fst (try_pop tt d)")
    case None
    with try_pop_result [OF assms, of tt] OpPop show ?thesis
      by (cases "waiting tt d") (auto simp: abs_dispatch_def split: if_splits, metis fst_conv option.distinct(1))
  next
    case (Some t)
    then have p: "try_pop tt d = (Some t, snd (try_pop tt d))" by (metis prod.collapse)
    note st = try_pop_Some_state [OF assms p]
    with OpPop Some show ?thesis by (auto simp: abs_dispatch_def)
  qed
next
  case (OpTerminal tt)
  then show ?thesis by (auto simp: abs_dispatch_def in_flight_on_turn_terminal)
qed

lemma dispatch_run_refines_aux:
  assumes "dispatcher_ok d" "d_next_seq d + length xs < 2 ^ 64"
  shows "spec_run (d_max_concurrent d) xs (abs_dispatch d) =
       (fst (dispatch_run xs d), abs_dispatch (snd (dispatch_run xs d)))
     \<and> dispatcher_ok (snd (dispatch_run xs d))
     \<and> d_max_concurrent (snd (dispatch_run xs d)) = d_max_concurrent d"
  using assms
proof (induction xs arbitrary: d)
  case Nil
  then show ?case by simp
next
  case (Cons x xs)
  let ?d = "snd (dispatch_step x d)"
  have "d_next_seq d + 1 < 2 ^ 64" using Cons.prems by simp
  then have "dispatcher_ok ?d" "d_next_seq ?d + length xs < 2 ^ 64"
    using Cons.prems dispatch_step_ok [of d x] dispatch_step_next_seq [of d x] by auto
  from Cons.IH [OF this] dispatch_step_refines [OF Cons.prems(1), of x] show ?case
    by (auto simp: split_beta)
qed

text \<open>A concrete turn for the examples.\<close>

definition sample_turn :: "string \<Rightarrow> int \<Rightarrow> queued_turn" where
  "sample_turn t prio = \<lparr>qt_task_type = ''db.repair'', qt_task_id = t, qt_turn_id = 1, qt_user_input = [],
     qt_redo_group = [], qt_redo_count = 0, qt_cached_llm = [], qt_priority = prio, qt_enqueued_at = 0\<rparr>"

section \<open>Properties\<close>

text \<open>
  C1. The heap-based dispatcher is a functional refinement of the waiting-list scheduler: along any
  sequence of enqueues, pops and terminal callbacks it hands out the same turns at the same points,
  highest priority first and first come first served among equals, and keeps the same waiting lists
  and in-flight counts, as long as fewer than \<open>2 ^ 64\<close> operations have run.
\<close>

theorem dispatcher_refines_scheduler:
  assumes "length xs < 2 ^ 64"
  shows "spec_run (max n 1) xs \<lparr>ds_waiting = (\<lambda>_. []), ds_in_flight = (\<lambda>_. 0)\<rparr> =
     (fst (dispatch_run xs (dispatcher_new n)), abs_dispatch (snd (dispatch_run xs (dispatcher_new n))))"
proof -
  have "abs_dispatch (dispatcher_new n) = \<lparr>ds_waiting = (\<lambda>_. []), ds_in_flight = (\<lambda>_. 0)\<rparr>"
    by (simp add: abs_dispatch_def dispatcher_new_def waiting_def in_flight_def)
  with dispatch_run_refines_aux [OF dispatcher_new_ok [of n]] assms show ?thesis
    by (simp add: dispatcher_new_def)
qed

text \<open>With capacity 1 the later but more urgent turn goes first and the other waits.\<close>

theorem dispatcher_refines_scheduler_witness:
  "fst (spec_run 1 [OpEnqueue (sample_turn ''a'' 1), OpEnqueue (sample_turn ''b'' 5)
       , OpPop ''db.repair'', OpPop ''db.repair''] \<lparr>ds_waiting = (\<lambda>_. []), ds_in_flight = (\<lambda>_. 0)\<rparr>) =
     [None, None, Some (sample_turn ''b'' 5), None]"
  using dispatcher_refines_scheduler
    [of "[OpEnqueue (sample_turn ''a'' 1), OpEnqueue (sample_turn ''b'' 5)
       , OpPop ''db.repair'', OpPop ''db.repair'']" 1]
  by (simp add: sample_turn_def enqueue_def try_pop_def dispatcher_new_def heap_pop_def entry_of_def
      pe_key_def less_pri_key_def type_queue_default_def Let_def)

text \<open>
  Capacity: whatever sequence of operations runs, no task type ever has more turns in flight
  than the dispatcher's limit, which is at least 1.
\<close>

theorem dispatcher_capacity:
  assumes "length xs < 2 ^ 64"
  shows "in_flight tt (snd (dispatch_run xs (dispatcher_new n))) \<le> max n 1"
proof -
  let ?d = "snd (dispatch_run xs (dispatcher_new n))"
  have "dispatcher_ok ?d" "d_max_concurrent ?d = max n 1"
    using dispatch_run_refines_aux [OF dispatcher_new_ok [of n]] assms
    by (simp_all add: dispatcher_new_def)
  then show ?thesis
    using dispatcher_okD [of ?d tt]
    by (cases "map_of (d_queues ?d) tt") (auto simp: in_flight_def queue_ok_def)
qed

theorem dispatcher_capacity_witness:
  "in_flight ''db.repair'' (snd (dispatch_run
     [OpEnqueue (sample_turn ''a'' 1), OpEnqueue (sample_turn ''b'' 5), OpPop ''db.repair'', OpPop ''db.repair''] (dispatcher_new 1))) \<le> 1"
  using dispatcher_capacity
    [of "[OpEnqueue (sample_turn ''a'' 1), OpEnqueue (sample_turn ''b'' 5), OpPop ''db.repair'', OpPop ''db.repair'']" "''db.repair''" 1]
  by simp

text \<open>
  The snapshot lists every task type the dispatcher has ever queued, each once, with its pending
  and in-flight counts, in the order of the names; a type that has gone idle is still listed.
\<close>

theorem snapshot_lists_all_types:
  assumes "hash_wf (d_queues d)"
  shows "sorted (map fst (snapshot d)) \<and> distinct (map fst (snapshot d)) \<and>
    ((tt, p, f) \<in> set (snapshot d) \<longleftrightarrow>
       tt \<in> fst ` set (d_queues d) \<and> p = pending_count tt d \<and> f = in_flight tt d)"
proof -
  have "sorted (map fst (snapshot d))" by (simp add: snapshot_def)
  moreover have "mset (map fst (snapshot d)) = mset (map fst (d_queues d))"
    by (simp add: snapshot_def multiset.map_comp comp_def split_beta)
  then have "distinct (map fst (snapshot d))"
    using assms mset_eq_imp_distinct_iff unfolding hash_wf_def by blast
  moreover have "(tt, p, f) \<in> set (snapshot d) \<longleftrightarrow>
       tt \<in> fst ` set (d_queues d) \<and> p = pending_count tt d \<and> f = in_flight tt d"
    using map_of_wf [OF assms, of tt]
    by (force simp: snapshot_def pending_count_def in_flight_def)
  ultimately show ?thesis by blast
qed

theorem snapshot_lists_all_types_witness:
  "(''db.repair'', 0, 0) \<in> set (snapshot (snd (dispatch_run
     [OpEnqueue (sample_turn ''a'' 1), OpPop ''db.repair'', OpTerminal ''db.repair''] (dispatcher_new 1))))"
  by (subst snapshot_lists_all_types [THEN conjunct2, THEN conjunct2])
     (simp_all add: sample_turn_def enqueue_def try_pop_def on_turn_terminal_def dispatcher_new_def
      heap_pop_def entry_of_def pe_key_def type_queue_default_def pending_count_def in_flight_def
      hash_wf_def Let_def)

end
