(* ===== verification/Retry.thy ===== *)
theory Retry
  imports Models
begin

text \<open>
  \<open>src/retry.rs\<close>: the retry budget. A failure that is worth retrying is retried while the turn has
  been redone fewer than \<open>max_attempts\<close> times; anything else closes the turn.
\<close>

record retry_policy =
  max_attempts :: int

definition retry_policy_default :: retry_policy where
  "retry_policy_default = \<lparr>max_attempts = 2\<rparr>"

datatype retry_decision =
    Retry failure_reason int    \<comment> \<open>reason, next redo count\<close>
  | Fail failure_reason bool    \<comment> \<open>reason, budget exhausted\<close>

definition decide :: "retry_policy \<Rightarrow> failure_reason \<Rightarrow> int \<Rightarrow> retry_decision" where
  "decide p reason current_redo_count =
     (if is_retryable reason \<and> current_redo_count < max_attempts p
      then Retry reason (add_i32 current_redo_count 1)
      else Fail reason (is_retryable reason))"

text \<open>
  A turn that keeps failing: the counter the orchestrator keeps starts at 0 and moves to
  \<open>next_redo_count\<close> at every retry. \<open>retries p rs\<close> is how many of the failures \<open>rs\<close>, in order, are
  answered by a retry before the first is final.
\<close>

fun retries_from :: "retry_policy \<Rightarrow> int \<Rightarrow> failure_reason list \<Rightarrow> nat" where
  "retries_from p c [] = 0"
| "retries_from p c (r # rs) =
     (case decide p r c of Retry _ c' \<Rightarrow> Suc (retries_from p c' rs) | Fail _ _ \<Rightarrow> 0)"

lemma decide_Retry_iff:
  "decide p r c = Retry r' c' \<longleftrightarrow>
     is_retryable r \<and> c < max_attempts p \<and> r' = r \<and> c' = add_i32 c 1"
  by (auto simp: decide_def)

lemma decide_Fail_iff:
  "decide p r c = Fail r' b \<longleftrightarrow>
     \<not> (is_retryable r \<and> c < max_attempts p) \<and> r' = r \<and> b = is_retryable r"
  by (auto simp: decide_def)

text \<open>The counter never overflows: it is below \<open>max_attempts\<close>, itself an \<open>i32\<close>.\<close>

lemma next_redo_exact:
  assumes "in_i32 (max_attempts p)" "0 \<le> c" "c < max_attempts p"
  shows "add_i32 c 1 = c + 1"
  using assms by (intro add_i32_exact) (auto simp: in_i32_def)

lemma retries_from_bound:
  assumes "in_i32 (max_attempts p)" "0 \<le> c"
  shows "retries_from p c rs \<le> nat (max_attempts p - c)"
  using assms(2)
proof (induction rs arbitrary: c)
  case Nil
  then show ?case by simp
next
  case (Cons r rs)
  show ?case
  proof (cases "is_retryable r \<and> c < max_attempts p")
    case True
    then have "decide p r c = Retry r (c + 1)"
      using next_redo_exact [OF assms(1)] Cons.prems by (simp add: decide_def)
    moreover have "retries_from p (c + 1) rs \<le> nat (max_attempts p - (c + 1))"
      using Cons.IH Cons.prems by simp
    ultimately show ?thesis using True by simp arith
  next
    case False
    then show ?thesis by (auto simp: decide_def)
  qed
qed

lemma retries_from_all_retryable:
  assumes "in_i32 (max_attempts p)" "0 \<le> c" "\<forall>r \<in> set rs. is_retryable r"
    "int (length rs) \<le> max_attempts p - c"
  shows "retries_from p c rs = length rs"
  using assms(2-)
proof (induction rs arbitrary: c)
  case Nil
  then show ?case by simp
next
  case (Cons r rs)
  then have "decide p r c = Retry r (c + 1)"
    using next_redo_exact [OF assms(1)] by (simp add: decide_def)
  with Cons show ?case by simp
qed

lemma retries_from_exact:
  assumes "in_i32 (max_attempts p)" "0 \<le> c"
  shows "retries_from p c rs = length (takeWhile is_retryable (take (nat (max_attempts p - c)) rs))"
  using assms(2)
proof (induction rs arbitrary: c)
  case Nil
  then show ?case by simp
next
  case (Cons r rs)
  show ?case
  proof (cases "is_retryable r \<and> c < max_attempts p")
    case True
    then have "decide p r c = Retry r (c + 1)"
      using next_redo_exact [OF assms(1)] Cons.prems by (simp add: decide_def)
    moreover have "nat (max_attempts p - c) = Suc (nat (max_attempts p - (c + 1)))"
      using True by linarith
    ultimately show ?thesis using True Cons by simp
  next
    case False
    then show ?thesis by (cases "nat (max_attempts p - c)") (auto simp: decide_def)
  qed
qed

section \<open>Properties\<close>

text \<open>
  C31. The retry budget: a turn that keeps failing is redone once for each failure up to the first
  one not worth retrying, and never more than \<open>max_attempts\<close> times.
\<close>

theorem retry_budget_exact:
  assumes "in_i32 (max_attempts p)"
  shows "retries_from p 0 rs = length (takeWhile is_retryable (take (nat (max_attempts p)) rs))"
  using retries_from_exact [OF assms, of 0 rs] by simp

theorem retry_budget_exact_witness:
  "retries_from retry_policy_default 0
     [SandboxTimeout, AgentUnresponsive, SandboxTimeout, BrokerError] = 2"
  by (subst retry_budget_exact)
     (simp_all add: retry_policy_default_def in_i32_def is_retryable_def)

text \<open>
  A failure class survives its trip through the event payload: printing a reason and
  classifying the text again gives the same reason, so the retry decision taken from the log is the
  one taken from the reason; and an application error, a policy breach or a cancellation is closed
  at once without using up the budget.
\<close>

theorem classify_decides_like_reason:
  "decide p (classify_failure (failure_reason_as_str r) msg) c = decide p r c \<and>
   (r \<in> {ApplicationError, ReasonPolicy, ReasonCanceled} \<longleftrightarrow> decide p r c = Fail r False)"
  by (cases r) (simp_all add: classify_failure_def decide_def is_retryable_def)

end
