(* ===== verification/Registry.thy ===== *)
theory Registry
  imports Fixus_Prelude
begin

text \<open>
  \<open>src/task_registry.rs\<close>: the process-wide registry of turns someone waits for. A oneshot channel is
  a number; sending on it appends the outcome to the list of what has been sent. A sender is used up
  by the one send it makes.
\<close>

datatype turn_outcome =
    Completed string int int      \<comment> \<open>final output, turn, event count\<close>
  | TurnOutcomeFailed int string string
  | Timeout int

record pending_turn =
  pt_task_id :: string
  pt_turn_id :: int
  pt_redo_group :: string
  pt_result_tx :: nat

record task_registry =
  tg_active_turns :: "(string \<times> pending_turn) list"
  tg_sent :: "(nat \<times> turn_outcome) list"
  tg_next_channel :: nat

definition registry_new :: task_registry where
  "registry_new = \<lparr>tg_active_turns = [], tg_sent = [], tg_next_channel = 0\<rparr>"

definition pending_turn_new ::
  "string \<Rightarrow> int \<Rightarrow> string \<Rightarrow> task_registry \<Rightarrow> pending_turn \<times> task_registry" where
  "pending_turn_new task_id turn_id redo_group r =
     (\<lparr>pt_task_id = task_id, pt_turn_id = turn_id, pt_redo_group = redo_group,
       pt_result_tx = tg_next_channel r\<rparr>,
      r\<lparr>tg_next_channel := tg_next_channel r + 1\<rparr>)"

definition send :: "nat \<Rightarrow> turn_outcome \<Rightarrow> task_registry \<Rightarrow> task_registry" where
  "send ch outcome r = r\<lparr>tg_sent := tg_sent r @ [(ch, outcome)]\<rparr>"

definition register_pending_turn :: "string \<Rightarrow> pending_turn \<Rightarrow> task_registry \<Rightarrow> task_registry" where
  "register_pending_turn task_id turn r =
     (let r' = r\<lparr>tg_active_turns := AList.update task_id turn (tg_active_turns r)\<rparr>
      in case map_of (tg_active_turns r) task_id of
           None \<Rightarrow> r'
         | Some old \<Rightarrow>
             send (pt_result_tx old)
               (TurnOutcomeFailed (pt_turn_id old) ''replaced'' ''Turn replaced by new request'') r')"

definition take_pending_turn ::
  "string \<Rightarrow> task_registry \<Rightarrow> pending_turn option \<times> task_registry" where
  "take_pending_turn task_id r =
     (map_of (tg_active_turns r) task_id,
      r\<lparr>tg_active_turns := AList.delete task_id (tg_active_turns r)\<rparr>)"

definition complete_pending_turn ::
  "string \<Rightarrow> turn_outcome \<Rightarrow> task_registry \<Rightarrow> (string + unit) \<times> task_registry" where
  "complete_pending_turn task_id outcome r =
     (case take_pending_turn task_id r of
        (None, r') \<Rightarrow> (Inl (''No pending turn for session '' @ task_id), r')
      | (Some pending, r') \<Rightarrow> (Inr (), send (pt_result_tx pending) outcome r'))"

section \<open>Every waiter is told once\<close>

text \<open>
  A channel is open while its turn is registered and done once something was sent on it; channels not
  handed out yet are neither.
\<close>

definition open_channels :: "task_registry \<Rightarrow> nat list" where
  "open_channels r = map (\<lambda>(_, p). pt_result_tx p) (tg_active_turns r)"

definition done_channels :: "task_registry \<Rightarrow> nat list" where
  "done_channels r = map fst (tg_sent r)"

definition registry_ok :: "task_registry \<Rightarrow> bool" where
  "registry_ok r \<longleftrightarrow> hash_wf (tg_active_turns r) \<and>
     distinct (open_channels r @ done_channels r) \<and>
     set (open_channels r @ done_channels r) = {..<tg_next_channel r}"

text \<open>What the orchestrator does: open a channel and register it, or complete.\<close>

datatype registry_op = OpStart string int string | OpComplete string turn_outcome

fun registry_step :: "registry_op \<Rightarrow> task_registry \<Rightarrow> task_registry" where
  "registry_step (OpStart t n rg) r =
     (case pending_turn_new t n rg r of (p, r') \<Rightarrow> register_pending_turn t p r')"
| "registry_step (OpComplete t outcome) r = snd (complete_pending_turn t outcome r)"

lemma registry_ok_new [simp, inv_intros]: "registry_ok registry_new"
  by (simp add: registry_ok_def registry_new_def open_channels_def done_channels_def)

lemma open_channels_mset:
  "hash_wf m \<Longrightarrow> map_of m k = Some v \<Longrightarrow> mset m = add_mset (k, v) (mset (AList.delete k m))"
proof (induction m)
  case Nil
  then show ?case by simp
next
  case (Cons x m)
  obtain k' v' where x: "x = (k', v')" by fastforce
  show ?case
  proof (cases "k' = k")
    case True
    with Cons.prems x have "v' = v" "k \<notin> fst ` set m" by (auto simp: hash_wf_def)
    then have "AList.delete k m = m" by (simp add: delete_id)
    with True x \<open>v' = v\<close> show ?thesis by simp
  next
    case False
    with Cons x show ?thesis by (simp add: hash_wf_def)
  qed
qed

lemma update_mset:
  "hash_wf m \<Longrightarrow> map_of m k = Some v \<Longrightarrow>
     mset (AList.update k w m) = add_mset (k, w) (mset (AList.delete k m))"
proof (induction m)
  case Nil
  then show ?case by simp
next
  case (Cons x m)
  obtain k' v' where x: "x = (k', v')" by fastforce
  show ?case
  proof (cases "k' = k")
    case True
    with Cons.prems x have "k \<notin> fst ` set m" by (auto simp: hash_wf_def)
    then have "AList.delete k m = m" by (simp add: delete_id)
    with True x show ?thesis by simp
  next
    case False
    with Cons x show ?thesis by (simp add: hash_wf_def)
  qed
qed

lemma update_absent: "map_of m k = None \<Longrightarrow> AList.update k w m = m @ [(k, w)]"
  by (induction m) (auto split: if_splits)

lemma distinct_upto_mset:
  "distinct xs \<and> set xs = {..<n} \<longleftrightarrow> mset xs = mset_set {..<n}" for xs :: "nat list" and n
proof -
  have "distinct xs \<and> set xs = {..<n} \<longleftrightarrow> mset xs = mset [0..<n]"
  proof
    assume "distinct xs \<and> set xs = {..<n}"
    then show "mset xs = mset [0..<n]"
      by (intro set_eq_iff_mset_eq_distinct [THEN iffD1]) (auto simp: atLeast0LessThan)
  next
    assume m: "mset xs = mset [0..<n]"
    have "distinct xs" using mset_eq_imp_distinct_iff [OF m] by simp
    moreover have "set xs = {..<n}" using mset_eq_setD [OF m] by (simp add: atLeast0LessThan)
    ultimately show "distinct xs \<and> set xs = {..<n}" ..
  qed
  then show ?thesis by (simp add: atLeast0LessThan)
qed

lemma registry_ok_mset:
  "registry_ok r \<longleftrightarrow> hash_wf (tg_active_turns r) \<and>
     mset (open_channels r) + mset (done_channels r) = mset_set {..<tg_next_channel r}"
  unfolding registry_ok_def distinct_upto_mset mset_append ..

lemma mset_set_Suc: "mset_set {..<Suc n} = add_mset n (mset_set {..<n})"
  by (simp add: lessThan_Suc)

lemma registry_step_ok [inv_intros]: "registry_ok r \<Longrightarrow> registry_ok (registry_step x r)"
proof (cases x)
  case (OpStart t n rg)
  assume r: "registry_ok r"
  show ?thesis
  proof (cases "map_of (tg_active_turns r) t")
    case None
    then have new: "t \<notin> fst ` set (tg_active_turns r)" by (simp add: map_of_eq_None_iff)
    from r OpStart None new show ?thesis
      unfolding registry_ok_mset
      by (simp add: pending_turn_new_def register_pending_turn_def Let_def
          update_absent open_channels_def done_channels_def hash_wf_def mset_set_Suc split: option.split)
  next
    case (Some old)
    from r have wf: "hash_wf (tg_active_turns r)" by (simp add: registry_ok_mset)
    note ms = open_channels_mset [OF wf Some] update_mset [OF wf Some]
    have "mset (map (\<lambda>(_, p). pt_result_tx p) (tg_active_turns r)) =
        add_mset (pt_result_tx old)
          (mset (map (\<lambda>(_, p). pt_result_tx p) (AList.delete t (tg_active_turns r))))"
      by (simp add: ms)
    moreover have "mset (map (\<lambda>(_, p). pt_result_tx p) (AList.update t p (tg_active_turns r))) =
        add_mset (pt_result_tx p)
          (mset (map (\<lambda>(_, p). pt_result_tx p) (AList.delete t (tg_active_turns r))))" for p
      by (simp add: ms)
    ultimately show ?thesis
      using r OpStart Some wf
      unfolding registry_ok_mset
      by (simp add: pending_turn_new_def register_pending_turn_def Let_def send_def
          open_channels_def done_channels_def mset_set_Suc del: mset_map)
  qed
next
  case (OpComplete t outcome)
  assume r: "registry_ok r"
  show ?thesis
  proof (cases "map_of (tg_active_turns r) t")
    case None
    then have "AList.delete t (tg_active_turns r) = tg_active_turns r"
      by (simp add: delete_id map_of_eq_None_iff)
    with None r OpComplete show ?thesis
      by (simp add: complete_pending_turn_def take_pending_turn_def)
  next
    case (Some old)
    from r have wf: "hash_wf (tg_active_turns r)" by (simp add: registry_ok_mset)
    have "mset (map (\<lambda>(_, p). pt_result_tx p) (tg_active_turns r)) =
        add_mset (pt_result_tx old)
          (mset (map (\<lambda>(_, p). pt_result_tx p) (AList.delete t (tg_active_turns r))))"
      by (simp add: open_channels_mset [OF wf Some])
    with r OpComplete Some wf show ?thesis
      unfolding registry_ok_mset
      by (simp add: complete_pending_turn_def take_pending_turn_def send_def
          open_channels_def done_channels_def del: mset_map)
  qed
qed

lemma registry_run_ok: "registry_ok r \<Longrightarrow> registry_ok (fold registry_step xs r)"
  by (induction xs arbitrary: r) (simp_all add: registry_step_ok)

section \<open>Properties\<close>

text \<open>
  Along every sequence of turns started and completed, each waiter's channel is used at most once
  and none is lost: every channel handed out is either still registered or has been sent exactly one
  outcome, a turn that is replaced included.
\<close>

theorem registry_tells_each_waiter_once:
  "let r = fold registry_step xs registry_new
   in distinct (open_channels r @ done_channels r) \<and>
      set (open_channels r @ done_channels r) = {..<tg_next_channel r}"
  using registry_run_ok [OF registry_ok_new, of xs] by (simp add: registry_ok_def Let_def)

text \<open>
  The registry is keyed by the task alone: an outcome that arrives late, for a turn another has
  replaced, is delivered to the waiter of the newer turn.
\<close>

theorem late_outcome_reaches_newer_turn:
  "tg_sent (fold registry_step
     [OpStart ''t'' 1 ''a'', OpStart ''t'' 2 ''b'', OpComplete ''t'' (Completed ''old'' 1 5)]
     registry_new) =
   [(0, TurnOutcomeFailed 1 ''replaced'' ''Turn replaced by new request''), (1, Completed ''old'' 1 5)]"
  by (simp add: registry_new_def pending_turn_new_def register_pending_turn_def send_def
      complete_pending_turn_def take_pending_turn_def)

end
