(* ===== verification/Metrics.thy ===== *)
theory Metrics
  imports Fixus_Prelude
begin

text \<open>
  \<open>src/metrics.rs\<close>: the business metrics. A vector of counters or gauges is the association list from
  label values to the number it holds, a histogram keeps its observations in order; the text format
  is the exporter's. A counter is a \<open>u64\<close>. Durations are nanoseconds, where the code passes their
  seconds as a float.
\<close>

type_synonym 'a vec = "(string list \<times> 'a) list"

record metrics =
  mt_turn_enqueued :: "nat vec"
  mt_turn_dispatched :: "nat vec"
  mt_turn_terminal :: "nat vec"
  mt_retry_attempts :: "nat vec"
  mt_task_created :: "nat vec"
  mt_watchdog_reclaims :: "nat vec"
  mt_token_input :: "nat vec"
  mt_token_output :: "nat vec"
  mt_token_total :: "nat vec"
  mt_queue_wait :: "nat list vec"
  mt_turn_duration :: "nat list vec"
  mt_in_flight :: "int vec"
  mt_pending :: "int vec"
  mt_dependency_up :: "int vec"

section \<open>The catalog of metrics\<close>

text \<open>
  What \<open>Metrics::new\<close> declares: per metric its name, help text, kind and label names. The bounds of a
  histogram's buckets are in milliseconds; without bounds the exporter's own are used. An arrow in a help
  text is written ''to''.
\<close>

datatype metric_kind = Counter | Gauge | Histogram "nat list option"

record metric_desc =
  md_name :: string
  md_help :: string
  md_kind :: metric_kind
  md_labels :: "string list"

definition metric :: "metric_kind \<Rightarrow> string \<Rightarrow> string \<Rightarrow> string list \<Rightarrow> metric_desc" where
  "metric kind name help labels =
     \<lparr>md_name = name, md_help = help, md_kind = kind, md_labels = labels\<rparr>"

definition metric_catalog :: "(string \<times> metric_desc) list" where
  "metric_catalog =
     [(''turn_enqueued'', metric Counter ''fixus_turn_enqueued_total'' ''Turns entered the dispatch queue'' [''task_type'']),
      (''turn_dispatched'', metric Counter ''fixus_turn_dispatched_total''
        ''Turns popped from the queue and dispatched to the broker'' [''task_type'']),
      (''turn_terminal'', metric Counter ''fixus_turn_terminal_total''
        ''Turns reaching a terminal state (success|failed)'' [''task_type'', ''outcome'']),
      (''retry_attempts'', metric Counter ''fixus_retry_attempts_total''
        ''Turn-level retry decisions (CR-3 retry budget consumed)'' [''task_type'']),
      (''task_created'', metric Counter ''fixus_task_created_total'' ''Tasks created'' [''task_type'']),
      (''watchdog_reclaims'', metric Counter ''fixus_turn_watchdog_reclaims_total''
        ''Turns reclaimed by the watchdog (dispatched but no terminal within turn_lease)'' [''task_type'']),
      (''token_input'', metric Counter ''fixus_token_input_tokens_total''
        ''Input (prompt) tokens consumed, summed per llm_completed (CR-8)'' [''task_type'', ''model'']),
      (''token_output'', metric Counter ''fixus_token_output_tokens_total''
        ''Output (completion) tokens consumed, summed per llm_completed (CR-8)'' [''task_type'', ''model'']),
      (''token_total'', metric Counter ''fixus_token_total_tokens_total''
        ''Total tokens consumed, summed per llm_completed (CR-8)'' [''task_type'', ''model'']),
      (''queue_wait'', metric (Histogram None) ''fixus_turn_queue_wait_seconds''
        ''Seconds a turn waited in the dispatch queue (enqueue to dispatch)'' [''task_type'']),
      (''turn_duration'', metric (Histogram (Some [50, 100, 250, 500, 1000, 2500, 5000, 10000, 30000, 60000, 120000, 300000,
          600000]))
        ''fixus_turn_duration_seconds''
        ''Seconds from first dispatch to terminal (first dispatch to terminal wall clock)''
        [''task_type'', ''outcome'']),
      (''in_flight'', metric Gauge ''fixus_in_flight_turns''
        ''Turns currently dispatched and awaiting terminal (per task_type)'' [''task_type'']),
      (''pending'', metric Gauge ''fixus_pending_turns'' ''Turns queued awaiting dispatch (per task_type)'' [''task_type'']),
      (''dependency_up'', metric Gauge ''fixus_dependency_up'' ''Dependency health (1=ok, 0=degraded/unknown)'' [''dependency''])]"

text \<open>
  Construction is two passes: every vector is made and kept in a local variable, an \<open>expect\<close> on each, and
  then the variables are registered by name, one after the other, an \<open>expect\<close> on each again. None is the
  panic of an \<open>expect\<close>. Making a vector and adding it to the registry are the exporter's, so both are
  parameters.
\<close>

definition registration_order :: "string list" where
  "registration_order =
     [''turn_enqueued'', ''turn_dispatched'', ''turn_terminal'', ''retry_attempts'', ''task_created'',
      ''watchdog_reclaims'', ''token_input'', ''token_output'', ''token_total'', ''queue_wait'',
      ''turn_duration'', ''in_flight'', ''pending'', ''dependency_up'']"

fun declare_metrics :: "(metric_desc \<Rightarrow> 'v option) \<Rightarrow> (string \<times> metric_desc) list \<Rightarrow>
    (string \<times> 'v) list option" where
  "declare_metrics vec_new [] = Some []"
| "declare_metrics vec_new ((x, d) # ds) =
     (case vec_new d of
        None \<Rightarrow> None
      | Some v \<Rightarrow> map_option ((#) (x, v)) (declare_metrics vec_new ds))"

fun register_metrics :: "('v \<Rightarrow> 'r \<Rightarrow> 'r option) \<Rightarrow> (string \<Rightarrow> 'v option) \<Rightarrow> string list \<Rightarrow> 'r \<Rightarrow> 'r option" where
  "register_metrics register var [] r = Some r"
| "register_metrics register var (x # xs) r =
     (case var x of
        None \<Rightarrow> None
      | Some v \<Rightarrow> (case register v r of None \<Rightarrow> None | Some r \<Rightarrow> register_metrics register var xs r))"

definition build_metrics :: "(metric_desc \<Rightarrow> 'v option) \<Rightarrow> ('v \<Rightarrow> 'r \<Rightarrow> 'r option) \<Rightarrow> 'r \<Rightarrow>
    ((string \<times> 'v) list \<times> 'r) option" where
  "build_metrics vec_new register r =
     (case declare_metrics vec_new metric_catalog of
        None \<Rightarrow> None
      | Some vars \<Rightarrow> map_option (Pair vars) (register_metrics register (map_of vars) registration_order r))"

definition metrics_new :: metrics where
  "metrics_new =
     \<lparr>mt_turn_enqueued = [], mt_turn_dispatched = [], mt_turn_terminal = [], mt_retry_attempts = [],
      mt_task_created = [], mt_watchdog_reclaims = [], mt_token_input = [], mt_token_output = [],
      mt_token_total = [], mt_queue_wait = [], mt_turn_duration = [], mt_in_flight = [],
      mt_pending = [], mt_dependency_up = []\<rparr>"

definition inc_by :: "nat \<Rightarrow> string list \<Rightarrow> nat vec \<Rightarrow> nat vec" where
  "inc_by n labels v = AList.update labels ((unwrap_or 0 (map_of v labels) + n) mod 2 ^ 64) v"

definition observe :: "nat \<Rightarrow> string list \<Rightarrow> nat list vec \<Rightarrow> nat list vec" where
  "observe x labels v = AList.update labels (unwrap_or [] (map_of v labels) @ [x]) v"

definition record_turn_enqueued :: "string \<Rightarrow> metrics \<Rightarrow> metrics" where
  "record_turn_enqueued task_type m = m\<lparr>mt_turn_enqueued := inc_by 1 [task_type] (mt_turn_enqueued m)\<rparr>"

definition record_turn_dispatched :: "string \<Rightarrow> nat \<Rightarrow> metrics \<Rightarrow> metrics" where
  "record_turn_dispatched task_type queue_wait m =
     m\<lparr>mt_turn_dispatched := inc_by 1 [task_type] (mt_turn_dispatched m),
       mt_queue_wait := observe queue_wait [task_type] (mt_queue_wait m)\<rparr>"

definition record_turn_terminal :: "string \<Rightarrow> string \<Rightarrow> nat \<Rightarrow> metrics \<Rightarrow> metrics" where
  "record_turn_terminal task_type outcome duration m =
     m\<lparr>mt_turn_terminal := inc_by 1 [task_type, outcome] (mt_turn_terminal m),
       mt_turn_duration := observe duration [task_type, outcome] (mt_turn_duration m)\<rparr>"

definition record_retry :: "string \<Rightarrow> metrics \<Rightarrow> metrics" where
  "record_retry task_type m = m\<lparr>mt_retry_attempts := inc_by 1 [task_type] (mt_retry_attempts m)\<rparr>"

definition record_task_created :: "string \<Rightarrow> metrics \<Rightarrow> metrics" where
  "record_task_created task_type m = m\<lparr>mt_task_created := inc_by 1 [task_type] (mt_task_created m)\<rparr>"

definition record_watchdog_reclaim :: "string \<Rightarrow> metrics \<Rightarrow> metrics" where
  "record_watchdog_reclaim task_type m =
     m\<lparr>mt_watchdog_reclaims := inc_by 1 [task_type] (mt_watchdog_reclaims m)\<rparr>"

text \<open>A negative token count counts as nothing: \<open>n.max(0) as u64\<close>.\<close>

definition record_llm_tokens :: "string \<Rightarrow> string \<Rightarrow> int \<Rightarrow> int \<Rightarrow> int \<Rightarrow> metrics \<Rightarrow> metrics" where
  "record_llm_tokens task_type model input_tokens output_tokens total_tokens m =
     m\<lparr>mt_token_input := inc_by (nat (max input_tokens 0)) [task_type, model] (mt_token_input m),
       mt_token_output := inc_by (nat (max output_tokens 0)) [task_type, model] (mt_token_output m),
       mt_token_total := inc_by (nat (max total_tokens 0)) [task_type, model] (mt_token_total m)\<rparr>"

definition set_in_flight :: "string \<Rightarrow> int \<Rightarrow> metrics \<Rightarrow> metrics" where
  "set_in_flight task_type n m = m\<lparr>mt_in_flight := AList.update [task_type] n (mt_in_flight m)\<rparr>"

definition set_pending :: "string \<Rightarrow> int \<Rightarrow> metrics \<Rightarrow> metrics" where
  "set_pending task_type n m = m\<lparr>mt_pending := AList.update [task_type] n (mt_pending m)\<rparr>"

definition set_dependency_up :: "string \<Rightarrow> bool \<Rightarrow> metrics \<Rightarrow> metrics" where
  "set_dependency_up dep up m =
     m\<lparr>mt_dependency_up := AList.update [dep] (if up then 1 else 0) (mt_dependency_up m)\<rparr>"

section \<open>Names, labels and buckets\<close>

text \<open>What the exporter demands of a metric: the format of its names, and rising buckets.\<close>

definition name_char :: "char \<Rightarrow> bool" where
  "name_char c \<longleftrightarrow> is_ascii_alphanumeric c \<or> c = CHR ''_''"

definition valid_name :: "string \<Rightarrow> bool" where
  "valid_name s \<longleftrightarrow> s \<noteq> [] \<and> list_all name_char s \<and> digit_val (hd s) = None"

definition valid_desc :: "metric_desc \<Rightarrow> bool" where
  "valid_desc d \<longleftrightarrow>
     valid_name (md_name d) \<and> md_help d \<noteq> [] \<and> list_all valid_name (md_labels d) \<and> distinct (md_labels d) \<and>
     (case md_kind d of Histogram (Some bs) \<Rightarrow> sorted_wrt (<) bs | _ \<Rightarrow> True)"

lemma valid_names:
  "list_all valid_name (map (md_name \<circ> snd) metric_catalog)"
  "list_all valid_name (concat (map (md_labels \<circ> snd) metric_catalog))"
  by (simp_all add: metric_catalog_def metric_def valid_name_def name_char_def is_ascii_alphanumeric_def
      digit_val_def Let_def)

lemma catalog_valid: "list_all (valid_desc \<circ> snd) metric_catalog"
  using valid_names by (simp add: metric_catalog_def metric_def valid_desc_def)

lemma catalog_names_distinct: "distinct (map (md_name \<circ> snd) metric_catalog)" "distinct (map fst metric_catalog)"
  by (simp_all add: metric_catalog_def metric_def)

lemma registration_order_is_catalog: "registration_order = map fst metric_catalog"
  by (simp add: registration_order_def metric_catalog_def)

text \<open>
  What is relied on of the exporter: a well-formed metric can be made, and a registry takes every metric
  whose name it does not have yet and gathers what it took. \<open>desc_of\<close> is the description a vector was made
  with, \<open>gathered\<close> the vectors a registry holds.
\<close>

definition exporter_ok :: "(metric_desc \<Rightarrow> 'v option) \<Rightarrow> ('v \<Rightarrow> 'r \<Rightarrow> 'r option) \<Rightarrow> ('v \<Rightarrow> metric_desc) \<Rightarrow>
    ('r \<Rightarrow> 'v list) \<Rightarrow> bool" where
  "exporter_ok vec_new register desc_of gathered \<longleftrightarrow>
     (\<forall>d. valid_desc d \<longrightarrow> (\<exists>v. vec_new d = Some v \<and> desc_of v = d)) \<and>
     (\<forall>v r. md_name (desc_of v) \<notin> (md_name \<circ> desc_of) ` set (gathered r) \<longrightarrow>
        (\<exists>r'. register v r = Some r' \<and> gathered r' = gathered r @ [v]))"

lemma declare_metrics_succeeds:
  assumes "exporter_ok vec_new register desc_of gathered"
  shows "list_all (valid_desc \<circ> snd) ds \<Longrightarrow>
    \<exists>vars. declare_metrics vec_new ds = Some vars \<and> map (apsnd desc_of) vars = ds"
proof (induction ds)
  case (Cons d ds)
  then obtain v vars where "vec_new (snd d) = Some v" "desc_of v = snd d"
    "declare_metrics vec_new ds = Some vars" "map (apsnd desc_of) vars = ds"
    using assms by (auto simp: exporter_ok_def)
  then show ?case by (cases d) auto
qed simp

lemma register_metrics_succeeds:
  assumes "exporter_ok vec_new register desc_of gathered"
  shows "list_all (\<lambda>x. var x \<noteq> None) xs \<Longrightarrow>
    distinct (map (md_name \<circ> desc_of) (gathered r @ map (the \<circ> var) xs)) \<Longrightarrow>
    \<exists>r'. register_metrics register var xs r = Some r' \<and> gathered r' = gathered r @ map (the \<circ> var) xs"
proof (induction xs arbitrary: r)
  case (Cons x xs)
  then obtain v where v: "var x = Some v" by auto
  with Cons.prems have "md_name (desc_of v) \<notin> (md_name \<circ> desc_of) ` set (gathered r)" by auto
  then obtain r1 where r1: "register v r = Some r1" "gathered r1 = gathered r @ [v]"
    using assms unfolding exporter_ok_def by blast
  with Cons.prems v have "distinct (map (md_name \<circ> desc_of) (gathered r1 @ map (the \<circ> var) xs))"
    by (simp add: comp_def)
  with Cons.IH [of r1] Cons.prems r1 v show ?case by auto
qed simp

text \<open>The label values of every series are as many as its metric has labels.\<close>

definition arity :: "nat \<Rightarrow> 'a vec \<Rightarrow> bool" where
  "arity n v \<longleftrightarrow> list_all (\<lambda>(l, _). length l = n) v"

definition labels_of :: "string \<Rightarrow> nat" where
  "labels_of name =
     (case List.find (\<lambda>d. md_name d = name) (map snd metric_catalog) of None \<Rightarrow> 0 | Some d \<Rightarrow> length (md_labels d))"

definition labels_fit :: "metrics \<Rightarrow> bool" where
  "labels_fit m \<longleftrightarrow>
     arity (labels_of ''fixus_turn_enqueued_total'') (mt_turn_enqueued m) \<and>
     arity (labels_of ''fixus_turn_dispatched_total'') (mt_turn_dispatched m) \<and>
     arity (labels_of ''fixus_turn_terminal_total'') (mt_turn_terminal m) \<and>
     arity (labels_of ''fixus_retry_attempts_total'') (mt_retry_attempts m) \<and>
     arity (labels_of ''fixus_task_created_total'') (mt_task_created m) \<and>
     arity (labels_of ''fixus_turn_watchdog_reclaims_total'') (mt_watchdog_reclaims m) \<and>
     arity (labels_of ''fixus_token_input_tokens_total'') (mt_token_input m) \<and>
     arity (labels_of ''fixus_token_output_tokens_total'') (mt_token_output m) \<and>
     arity (labels_of ''fixus_token_total_tokens_total'') (mt_token_total m) \<and>
     arity (labels_of ''fixus_turn_queue_wait_seconds'') (mt_queue_wait m) \<and>
     arity (labels_of ''fixus_turn_duration_seconds'') (mt_turn_duration m) \<and>
     arity (labels_of ''fixus_in_flight_turns'') (mt_in_flight m) \<and>
     arity (labels_of ''fixus_pending_turns'') (mt_pending m) \<and>
     arity (labels_of ''fixus_dependency_up'') (mt_dependency_up m)"

lemma arity_update [simp]: "arity n v \<Longrightarrow> length l = n \<Longrightarrow> arity n (AList.update l x v)"
  by (induction v) (auto simp: arity_def)

lemma labels_of_catalog:
  "labels_of ''fixus_turn_enqueued_total'' = 1" "labels_of ''fixus_turn_dispatched_total'' = 1"
  "labels_of ''fixus_turn_terminal_total'' = 2" "labels_of ''fixus_retry_attempts_total'' = 1"
  "labels_of ''fixus_task_created_total'' = 1" "labels_of ''fixus_turn_watchdog_reclaims_total'' = 1"
  "labels_of ''fixus_token_input_tokens_total'' = 2" "labels_of ''fixus_token_output_tokens_total'' = 2"
  "labels_of ''fixus_token_total_tokens_total'' = 2" "labels_of ''fixus_turn_queue_wait_seconds'' = 1"
  "labels_of ''fixus_turn_duration_seconds'' = 2" "labels_of ''fixus_in_flight_turns'' = 1"
  "labels_of ''fixus_pending_turns'' = 1" "labels_of ''fixus_dependency_up'' = 1"
  by (simp_all add: labels_of_def metric_catalog_def metric_def)

lemmas labels_fit_defs = labels_fit_def labels_of_catalog inc_by_def observe_def

lemma labels_fit_new [simp, inv_intros]: "labels_fit metrics_new"
  by (simp add: labels_fit_def metrics_new_def arity_def)

lemma labels_fit_ops [inv_intros]:
  assumes "labels_fit m"
  shows "labels_fit (record_turn_enqueued t m)" "labels_fit (record_turn_dispatched t w m)"
    "labels_fit (record_turn_terminal t outcome d m)" "labels_fit (record_retry t m)"
    "labels_fit (record_task_created t m)" "labels_fit (record_watchdog_reclaim t m)"
    "labels_fit (record_llm_tokens t model a b c m)" "labels_fit (set_in_flight t n m)"
    "labels_fit (set_pending t n m)" "labels_fit (set_dependency_up t up m)"
  using assms
  by (simp_all add: labels_fit_defs record_turn_enqueued_def record_turn_dispatched_def
      record_turn_terminal_def record_retry_def record_task_created_def record_watchdog_reclaim_def
      record_llm_tokens_def set_in_flight_def set_pending_def set_dependency_up_def)

section \<open>A counter and its histogram agree\<close>

text \<open>
  A duration is observed exactly when the terminal counter moves, so for every label pair the
  histogram's count is the counter (up to the width of the counter).
\<close>

definition counted :: "nat vec \<Rightarrow> nat list vec \<Rightarrow> bool" where
  "counted c h \<longleftrightarrow>
     (\<lambda>l. unwrap_or 0 (map_of c l)) = (\<lambda>l. length (unwrap_or [] (map_of h l)) mod 2 ^ 64)"

definition histograms_ok :: "metrics \<Rightarrow> bool" where
  "histograms_ok m \<longleftrightarrow> counted (mt_turn_terminal m) (mt_turn_duration m) \<and>
     counted (mt_turn_dispatched m) (mt_queue_wait m)"

definition metrics_ok :: "metrics \<Rightarrow> bool" where
  "metrics_ok m \<longleftrightarrow> histograms_ok m \<and> labels_fit m"

lemma counted_step: "counted c h \<Longrightarrow> counted (inc_by 1 l c) (observe x l h)"
  unfolding counted_def fun_eq_iff
  by (auto simp: inc_by_def observe_def hash_lookup_update mod_Suc_eq)

lemma histograms_ok_ops [inv_intros]:
  assumes "histograms_ok m"
  shows "histograms_ok (record_turn_enqueued t m)" "histograms_ok (record_turn_dispatched t w m)"
    "histograms_ok (record_turn_terminal t outcome d m)" "histograms_ok (record_retry t m)"
    "histograms_ok (record_task_created t m)" "histograms_ok (record_watchdog_reclaim t m)"
    "histograms_ok (record_llm_tokens t model a b c m)" "histograms_ok (set_in_flight t n m)"
    "histograms_ok (set_pending t n m)" "histograms_ok (set_dependency_up t up m)"
  using assms
  by (simp_all add: histograms_ok_def record_turn_enqueued_def record_turn_dispatched_def
      record_turn_terminal_def record_retry_def record_task_created_def record_watchdog_reclaim_def
      record_llm_tokens_def set_in_flight_def set_pending_def set_dependency_up_def counted_step [unfolded One_nat_def])

lemma metrics_ok_new [simp, inv_intros]: "metrics_ok metrics_new"
  by (simp add: metrics_ok_def histograms_ok_def) (simp add: metrics_new_def counted_def)

lemma metrics_ok_ops [inv_intros]:
  assumes "metrics_ok m"
  shows "metrics_ok (record_turn_enqueued t m)" "metrics_ok (record_turn_dispatched t w m)"
    "metrics_ok (record_turn_terminal t outcome d m)" "metrics_ok (record_retry t m)"
    "metrics_ok (record_task_created t m)" "metrics_ok (record_watchdog_reclaim t m)"
    "metrics_ok (record_llm_tokens t model a b c m)" "metrics_ok (set_in_flight t n m)"
    "metrics_ok (set_pending t n m)" "metrics_ok (set_dependency_up t up m)"
  using assms by (simp_all add: metrics_ok_def histograms_ok_ops labels_fit_ops)

section \<open>What a scrape shows\<close>

text \<open>
  The label values of the series a field holds; the fields of the struct are the local variables of
  \<open>Metrics::new\<close>.
\<close>

definition rows :: "string \<Rightarrow> metrics \<Rightarrow> string list list" where
  "rows x m =
    (if x = ''turn_enqueued'' then map fst (mt_turn_enqueued m)
     else if x = ''turn_dispatched'' then map fst (mt_turn_dispatched m)
     else if x = ''turn_terminal'' then map fst (mt_turn_terminal m)
     else if x = ''retry_attempts'' then map fst (mt_retry_attempts m)
     else if x = ''task_created'' then map fst (mt_task_created m)
     else if x = ''watchdog_reclaims'' then map fst (mt_watchdog_reclaims m)
     else if x = ''token_input'' then map fst (mt_token_input m)
     else if x = ''token_output'' then map fst (mt_token_output m)
     else if x = ''token_total'' then map fst (mt_token_total m)
     else if x = ''queue_wait'' then map fst (mt_queue_wait m)
     else if x = ''turn_duration'' then map fst (mt_turn_duration m)
     else if x = ''in_flight'' then map fst (mt_in_flight m)
     else if x = ''pending'' then map fst (mt_pending m)
     else if x = ''dependency_up'' then map fst (mt_dependency_up m)
     else [])"

text \<open>
  \<open>Metrics::render\<close> gathers the registry: the series of the registered vectors, and of no other. Per series,
  the description of its metric and its label values.
\<close>

definition scrape :: "('v \<Rightarrow> metric_desc) \<Rightarrow> (string \<times> 'v) list \<Rightarrow> 'v list \<Rightarrow> metrics \<Rightarrow>
    (metric_desc \<times> string list) list" where
  "scrape desc_of vars collectors m =
     concat (map (\<lambda>v. concat (map (\<lambda>(x, w). if w = v then map (Pair (desc_of v)) (rows x m) else []) vars))
       collectors)"

text \<open>The recording operations, and the series each has to leave behind.\<close>

datatype recording =
    RecEnqueued string
  | RecDispatched string nat
  | RecTerminal string string nat
  | RecRetry string
  | RecCreated string
  | RecReclaim string
  | RecTokens string string int int int
  | RecInFlight string int
  | RecPending string int
  | RecDependency string bool

fun record_one :: "recording \<Rightarrow> metrics \<Rightarrow> metrics" where
  "record_one (RecEnqueued t) = record_turn_enqueued t"
| "record_one (RecDispatched t w) = record_turn_dispatched t w"
| "record_one (RecTerminal t outcome d) = record_turn_terminal t outcome d"
| "record_one (RecRetry t) = record_retry t"
| "record_one (RecCreated t) = record_task_created t"
| "record_one (RecReclaim t) = record_watchdog_reclaim t"
| "record_one (RecTokens t model a b c) = record_llm_tokens t model a b c"
| "record_one (RecInFlight t n) = set_in_flight t n"
| "record_one (RecPending t n) = set_pending t n"
| "record_one (RecDependency dep up) = set_dependency_up dep up"

fun series_of :: "recording \<Rightarrow> (string \<times> string list) list" where
  "series_of (RecEnqueued t) = [(''fixus_turn_enqueued_total'', [t])]"
| "series_of (RecDispatched t w) =
     [(''fixus_turn_dispatched_total'', [t]), (''fixus_turn_queue_wait_seconds'', [t])]"
| "series_of (RecTerminal t outcome d) =
     [(''fixus_turn_terminal_total'', [t, outcome]), (''fixus_turn_duration_seconds'', [t, outcome])]"
| "series_of (RecRetry t) = [(''fixus_retry_attempts_total'', [t])]"
| "series_of (RecCreated t) = [(''fixus_task_created_total'', [t])]"
| "series_of (RecReclaim t) = [(''fixus_turn_watchdog_reclaims_total'', [t])]"
| "series_of (RecTokens t model a b c) =
     [(''fixus_token_input_tokens_total'', [t, model]), (''fixus_token_output_tokens_total'', [t, model]),
      (''fixus_token_total_tokens_total'', [t, model])]"
| "series_of (RecInFlight t n) = [(''fixus_in_flight_turns'', [t])]"
| "series_of (RecPending t n) = [(''fixus_pending_turns'', [t])]"
| "series_of (RecDependency dep up) = [(''fixus_dependency_up'', [dep])]"


definition keys_distinct :: "metrics \<Rightarrow> bool" where
  "keys_distinct m \<longleftrightarrow> list_all (\<lambda>x. distinct (rows x m)) registration_order"

lemma map_fst_update: "set (map fst (AList.update l x v)) = insert l (set (map fst v))"
  by (simp add: AList.dom_update)

lemmas recording_defs = record_turn_enqueued_def record_turn_dispatched_def record_turn_terminal_def
  record_retry_def record_task_created_def record_watchdog_reclaim_def record_llm_tokens_def
  set_in_flight_def set_pending_def set_dependency_up_def inc_by_def observe_def

lemma keys_distinct_record: "keys_distinct m \<Longrightarrow> keys_distinct (record_one op m)"
  by (cases op) (simp_all add: keys_distinct_def registration_order_def rows_def recording_defs AList.distinct_update)

lemma keys_distinct_run: "keys_distinct (fold record_one ops metrics_new)"
proof (induction ops rule: rev_induct)
  case Nil
  show ?case by (simp add: keys_distinct_def registration_order_def rows_def metrics_new_def)
next
  case (snoc op ops)
  then show ?case by (simp add: keys_distinct_record)
qed

lemma labels_fit_run: "labels_fit (fold record_one ops metrics_new)"
proof (induction ops rule: rev_induct)
  case (snoc op ops)
  then show ?case by (cases op) (simp_all add: labels_fit_ops)
qed simp

text \<open>The series of the whole catalog, in its order.\<close>

definition catalog_series :: "metrics \<Rightarrow> (metric_desc \<times> string list) list" where
  "catalog_series m = concat (map (\<lambda>(x, d). map (Pair d) (rows x m)) metric_catalog)"

definition metric_series :: "metrics \<Rightarrow> (string \<times> string list) set" where
  "metric_series m = (\<lambda>(d, l). (md_name d, l)) ` set (catalog_series m)"

lemma metric_series_eq: "metric_series m = (\<Union>(x, d) \<in> set metric_catalog. Pair (md_name d) ` set (rows x m))"
  by (simp add: metric_series_def catalog_series_def image_UN image_image split_def)

lemma metric_series_record: "metric_series (record_one op m) = metric_series m \<union> set (series_of op)"
  by (cases op) (auto simp: metric_series_eq metric_catalog_def metric_def rows_def recording_defs AList.dom_update)

lemma metric_series_run: "metric_series (fold record_one ops metrics_new) = (\<Union>op \<in> set ops. set (series_of op))"
proof (induction ops rule: rev_induct)
  case Nil
  show ?case by (simp add: metric_series_eq metric_catalog_def metric_def rows_def metrics_new_def)
next
  case (snoc op ops)
  then show ?case by (simp add: metric_series_record Un_commute)
qed

lemma labels_fit_catalog:
  assumes "labels_fit m" "(d, l) \<in> set (catalog_series m)"
  shows "length l = length (md_labels d)"
  using assms
  by (auto simp: catalog_series_def metric_catalog_def metric_def rows_def labels_fit_def labels_of_catalog
      arity_def list_all_iff)

lemma catalog_series_distinct:
  assumes "keys_distinct m"
  shows "distinct (catalog_series m)"
proof -
  have part: "\<lbrakk>distinct (map (md_name \<circ> snd) ds); list_all (\<lambda>x. distinct (rows x m)) (map fst ds)\<rbrakk> \<Longrightarrow>
      distinct (concat (map (\<lambda>(x, d). map (Pair d) (rows x m)) ds))" for ds
  proof (induction ds)
    case (Cons xd ds)
    obtain x d where xd: "xd = (x, d)" by force
    have "\<forall>y \<in> set ds. md_name d \<noteq> md_name (snd y)"
      using Cons.prems(1) xd by (auto simp: image_iff)
    with Cons xd show ?case by (force simp: distinct_map inj_on_def)
  qed simp
  show ?thesis
    unfolding catalog_series_def
    using assms catalog_names_distinct(1) by (intro part) (simp_all add: keys_distinct_def registration_order_is_catalog)
qed

text \<open>Of the fields of a struct, each with a vector of its own, a vector finds its own series.\<close>

lemma own_series:
  assumes "distinct (map snd vars)" "(x, v) \<in> set vars"
  shows "concat (map (\<lambda>(y, w). if w = v then f y else []) vars) = f x"
proof -
  have other: "v \<notin> snd ` set ds \<Longrightarrow> concat (map (\<lambda>(y, w). if w = v then f y else []) ds) = []" for ds
    by (induction ds) auto
  show ?thesis
    using assms
  proof (induction vars)
    case (Cons yw ds)
    show ?case
    proof (cases "yw = (x, v)")
      case True
      with Cons.prems have "v \<notin> snd ` set ds" by auto
      with True show ?thesis by (simp add: other)
    next
      case False
      with Cons.prems have "(x, v) \<in> set ds" by auto
      moreover from this Cons.prems have "snd yw \<noteq> v" by (force simp: image_iff)
      ultimately show ?thesis using Cons by (simp add: split_def)
    qed
  qed simp
qed

lemma scrape_is_catalog_series:
  assumes "map (apsnd desc_of) vars = metric_catalog"
  shows "scrape desc_of vars (map (the \<circ> map_of vars) registration_order) m = catalog_series m"
proof -
  have fst: "map fst vars = map fst metric_catalog" and snd: "map (desc_of \<circ> snd) vars = map snd metric_catalog"
    by (simp_all add: assms [symmetric] comp_def)
  have d: "distinct (map fst vars)" using catalog_names_distinct(2) fst by simp
  have "distinct (map (md_name \<circ> desc_of \<circ> snd) vars)"
    using catalog_names_distinct(1) unfolding assms [symmetric] by (simp add: comp_def)
  then have d2: "distinct (map snd vars)" by (auto simp: distinct_map inj_on_def)
  have each: "map (the \<circ> map_of vars) (map fst vars) = map snd vars"
    using d by (auto simp: map_of_is_SomeI intro!: map_cong)
  have "scrape desc_of vars (map (the \<circ> map_of vars) registration_order) m =
      concat (map (\<lambda>(x, v). concat (map (\<lambda>(y, w). if w = v then map (Pair (desc_of v)) (rows y m) else []) vars)) vars)"
    unfolding registration_order_is_catalog fst [symmetric] each scrape_def by (simp add: comp_def split_def)
  also have "\<dots> = concat (map (\<lambda>(x, v). map (Pair (desc_of v)) (rows x m)) vars)"
    by (intro arg_cong [where f = concat] map_cong refl)
       (auto simp: own_series [OF d2, of _ _ "\<lambda>y. map (Pair (desc_of _)) (rows y m)"])
  also have "\<dots> = catalog_series m"
    unfolding catalog_series_def assms [symmetric] by (simp add: comp_def split_def)
  finally show ?thesis .
qed

section \<open>Properties\<close>

text \<open>
  C39. What is recorded is what a scrape shows: with an exporter that takes every well-formed metric of a new
  name, the construction does not panic, and after any sequence of recording operations the scrape shows
  exactly the series those operations are about, each once, under the metric meant for it and with one
  value per label of that metric. A vector that is made but never registered, or registered twice, or
  filled in place of another, would show here.
\<close>

theorem recorded_series_are_scraped:
  assumes "exporter_ok vec_new register desc_of gathered" "gathered r = []"
  shows "\<exists>vars r'. build_metrics vec_new register r = Some (vars, r') \<and>
    (\<forall>ops. let shown = scrape desc_of vars (gathered r') (fold record_one ops metrics_new) in
       distinct shown \<and> (\<lambda>(d, l). (md_name d, l)) ` set shown = (\<Union>op \<in> set ops. set (series_of op)) \<and>
       list_all (\<lambda>(d, l). length l = length (md_labels d)) shown)"
proof -
  obtain vars where vars: "declare_metrics vec_new metric_catalog = Some vars"
    "map (apsnd desc_of) vars = metric_catalog"
    using declare_metrics_succeeds [OF assms(1) catalog_valid] by blast
  have fst: "map fst vars = registration_order"
    by (simp add: registration_order_is_catalog vars(2) [symmetric])
  have snd: "map (the \<circ> map_of vars) registration_order = map snd vars"
    using catalog_names_distinct(2) unfolding fst [symmetric] registration_order_is_catalog [symmetric]
    by (auto simp: map_of_is_SomeI intro!: map_cong)
  have "list_all (\<lambda>x. map_of vars x \<noteq> None) registration_order"
    unfolding fst [symmetric] by (simp add: list_all_iff map_of_eq_None_iff)
  moreover have "distinct (map (md_name \<circ> desc_of) (gathered r @ map (the \<circ> map_of vars) registration_order))"
    using catalog_names_distinct(1) unfolding snd vars(2) [symmetric] by (simp add: assms(2) comp_def)
  ultimately obtain r' where "register_metrics register (map_of vars) registration_order r = Some r'"
    "gathered r' = map (the \<circ> map_of vars) registration_order"
    using register_metrics_succeeds [OF assms(1), of "map_of vars" registration_order r] assms(2) by auto
  with vars show ?thesis
    using catalog_series_distinct [OF keys_distinct_run] metric_series_run labels_fit_catalog [OF labels_fit_run]
    by (auto simp: build_metrics_def scrape_is_catalog_series Let_def list_all_iff simp flip: metric_series_def)
qed

theorem recorded_series_are_scraped_witness:
  "\<exists>vars r'. build_metrics (\<lambda>d. if valid_desc d then Some d else None)
       (\<lambda>d r. if md_name d \<in> md_name ` set r then None else Some (r @ [d])) [] = Some (vars, r') \<and>
     (\<forall>ops. let shown = scrape id vars r' (fold record_one ops metrics_new) in
        distinct shown \<and> (\<lambda>(d, l). (md_name d, l)) ` set shown = (\<Union>op \<in> set ops. set (series_of op)) \<and>
        list_all (\<lambda>(d, l). length l = length (md_labels d)) shown)"
  using recorded_series_are_scraped [of "\<lambda>d. if valid_desc d then Some d else None"
      "\<lambda>d r. if md_name d \<in> md_name ` set r then None else Some (r @ [d])" id id "[]"]
  by (simp add: exporter_ok_def)

end
