(* ===== verification/Consumer_Group.thy ===== *)
theory Consumer_Group
  imports Fixus_Prelude "HOL-Library.Sublist"
begin

text \<open>
  The loop every consumer of the repository runs over the frames of a broker consumer group
  (\<open>run_lifecycle_consumer\<close> and \<open>run_result_consumer\<close> in \<open>src/orchestrator.rs\<close>, \<open>try_consume_results\<close> in
  \<open>src/bin/tools-bank/main.rs\<close>). A frame is an error, a record with the shard and the number it is
  committed under, or a control frame. A record is committed unless its handling gave up on it. Three
  errors in a row end the consumer, for the caller to join again.
\<close>

record group_record =
  gr_shard :: nat
  gr_seq :: int
  gr_event_type :: string
  gr_content :: string

datatype group_frame = GfError | GfRecord group_record | GfOther

text \<open>
  The loop over the frames: \<open>True\<close> when the stream ended, \<open>False\<close> when the consumer gave up, and the
  commits in order.
\<close>

fun consume ::
  "(group_record \<Rightarrow> ('e, 's, bool) opn) \<Rightarrow> nat \<Rightarrow> (nat \<times> int) list \<Rightarrow> group_frame list
    \<Rightarrow> ('e, 's, bool \<times> (nat \<times> int) list) opn" where
  "consume handler errors commits [] = ok (True, commits)"
| "consume handler errors commits (GfError # fs) =
     (if errors + 1 \<ge> 3 then ok (False, commits) else consume handler (errors + 1) commits fs)"
| "consume handler errors commits (GfRecord rec # fs) =
     andThen (handler rec) (\<lambda>good.
       consume handler 0 (if good then commits @ [(gr_shard rec, gr_seq rec)] else commits) fs)"
| "consume handler errors commits (GfOther # fs) = consume handler 0 commits fs"

section \<open>What is committed\<close>

text \<open>The positions of the records among the frames.\<close>

definition delivered :: "group_frame list \<Rightarrow> (nat \<times> int) list" where
  "delivered fs = List.map_filter
     (\<lambda>f. case f of GfRecord r \<Rightarrow> Some (gr_shard r, gr_seq r) | _ \<Rightarrow> None) fs"

lemma delivered_simps [simp]:
  "delivered [] = []" "delivered (GfError # fs) = delivered fs" "delivered (GfOther # fs) = delivered fs"
  "delivered (GfRecord r # fs) = (gr_shard r, gr_seq r) # delivered fs"
  by (simp_all add: delivered_def map_filter_simps)

lemma three_errors:
  assumes "e < 3" "f \<noteq> GfError"
  shows "sublist (replicate 3 GfError) (replicate e GfError @ f # fs) \<longleftrightarrow> sublist (replicate 3 GfError) fs"
proof -
  from assms(1) have "e \<in> {0, 1, 2}" by auto
  with assms(2) show ?thesis by (auto simp: numeral_eq_Suc sublist_Cons_right)
qed

lemma consume_spec:
  assumes "\<And>rec s. \<exists>b. fst (handler rec s) = Inr b" "e < 3"
  shows "\<exists>done s'. consume handler e commits fs s =
      (Inr (\<not> sublist (replicate 3 GfError) (replicate e GfError @ fs), commits @ done), s') \<and>
      subseq done (delivered fs)"
  using assms(2)
proof (induction fs arbitrary: e commits s)
  case Nil
  then have "\<not> sublist (replicate 3 GfError) (replicate e GfError)"
    using sublist_length_le [of "replicate 3 GfError" "replicate e GfError"] by auto
  then show ?case by simp
next
  case (Cons f fs)
  show ?case
  proof (cases f)
    case GfError
    have shift: "replicate e GfError @ GfError # fs = replicate (Suc e) GfError @ fs"
      by (simp add: replicate_app_Cons_same)
    show ?thesis
    proof (cases "e + 1 \<ge> 3")
      case True
      with Cons.prems have e: "Suc e = 3" by simp
      have "sublist (replicate 3 GfError) (replicate e GfError @ GfError # fs)"
        unfolding shift \<open>Suc e = 3\<close> by simp
      with e GfError show ?thesis by simp
    next
      case False
      then have "Suc e < 3" by simp
      from Cons.IH [OF this, of commits s] False show ?thesis
        unfolding GfError shift by simp
    qed
  next
    case (GfRecord r)
    obtain b s1 where b: "handler r s = (Inr b, s1)" using assms(1) by (metis prod.collapse)
    let ?c = "if b then commits @ [(gr_shard r, gr_seq r)] else commits"
    obtain d s' where d: "consume handler 0 ?c fs s1 =
        (Inr (\<not> sublist (replicate 3 GfError) fs, ?c @ d), s')" "subseq d (delivered fs)"
      using Cons.IH [of 0 ?c s1] by auto
    let ?d = "if b then (gr_shard r, gr_seq r) # d else d"
    have "consume handler e commits (f # fs) s =
        (Inr (\<not> sublist (replicate 3 GfError) (replicate e GfError @ f # fs), commits @ ?d), s')"
      using b d(1) GfRecord three_errors [OF Cons.prems, of f fs] by (simp add: andThen_apply)
    moreover have "subseq ?d (delivered (f # fs))" using d(2) GfRecord by (cases b) auto
    ultimately show ?thesis by blast
  next
    case GfOther
    with Cons.IH [of 0 commits s] three_errors [OF Cons.prems, of f fs] show ?thesis by simp
  qed
qed

section \<open>Joining again\<close>

text \<open>
  A session with the broker: whether joining and opening the stream succeed, the frames it delivers, and
  whether leaving at its end succeeds. It ends well or with an error, with what it has committed.
\<close>

record group_session =
  gs_joined :: bool
  gs_frames :: "group_frame list"
  gs_left :: bool

definition run_session ::
  "(group_record \<Rightarrow> ('e, 's, bool) opn) \<Rightarrow> group_session \<Rightarrow> ('e, 's, bool \<times> (nat \<times> int) list) opn" where
  "run_session handler ss =
     (if \<not> gs_joined ss then ok (False, [])
      else andThen (consume handler 0 [] (gs_frames ss)) (\<lambda>(ended, commits).
             ok (ended \<and> gs_left ss, commits)))"

text \<open>
  The loop around it, over the sessions the broker grants: a session that ended with an error is followed
  by a pause of a second, any other by the next at once.
\<close>

fun rejoin ::
  "(group_record \<Rightarrow> ('e, 's, bool) opn) \<Rightarrow> group_session list \<Rightarrow> ('e, 's, (bool \<times> (nat \<times> int) list) list) opn"
where
  "rejoin handler [] = ok []"
| "rejoin handler (ss # sss) =
     andThen (run_session handler ss) (\<lambda>r. andThen (rejoin handler sss) (\<lambda>rs. ok (r # rs)))"

definition pauses :: "(bool \<times> (nat \<times> int) list) list \<Rightarrow> nat" where
  "pauses rs = length (filter (\<lambda>r. \<not> fst r) rs)"

section \<open>What is handled\<close>

text \<open>The records a session hands to the handler, and the handler run over a list of records.\<close>

fun handled :: "nat \<Rightarrow> group_frame list \<Rightarrow> group_record list" where
  "handled e [] = []"
| "handled e (GfError # fs) = (if e + 1 \<ge> 3 then [] else handled (e + 1) fs)"
| "handled e (GfRecord r # fs) = r # handled 0 fs"
| "handled e (GfOther # fs) = handled 0 fs"

definition session_records :: "group_session \<Rightarrow> group_record list" where
  "session_records ss = (if gs_joined ss then handled 0 (gs_frames ss) else [])"

fun run_handler ::
  "(group_record \<Rightarrow> ('e, 's, bool) opn) \<Rightarrow> group_record list \<Rightarrow> 's \<Rightarrow> (nat \<times> int) list \<times> 's" where
  "run_handler handler [] s = ([], s)"
| "run_handler handler (r # rs) s =
     (case handler r s of
        (Inl _, s1) \<Rightarrow> ([], s1)
      | (Inr b, s1) \<Rightarrow>
          (case run_handler handler rs s1 of
             (cs, s2) \<Rightarrow> (if b then (gr_shard r, gr_seq r) # cs else cs, s2)))"

definition never_fails :: "(group_record \<Rightarrow> ('e, 's, bool) opn) \<Rightarrow> bool" where
  "never_fails handler \<longleftrightarrow> (\<forall>r s. \<exists>b. fst (handler r s) = Inr b)"

lemma never_failsE:
  assumes "never_fails handler"
  obtains b s' where "handler r s = (Inr b, s')"
  using assms unfolding never_fails_def by (metis prod.collapse)

lemma run_handler_commits:
  "set (fst (run_handler handler rs s)) \<subseteq> (\<lambda>r. (gr_shard r, gr_seq r)) ` set rs"
proof (induction rs arbitrary: s)
  case Nil
  then show ?case by simp
next
  case (Cons r rs)
  obtain x s1 where "handler r s = (x, s1)" by force
  with Cons [of s1] show ?case by (auto split: sum.split prod.split)
qed

lemma run_handler_append:
  assumes "never_fails handler"
  shows "run_handler handler (xs @ ys) s =
    (let (cs, s1) = run_handler handler xs s; (ds, s2) = run_handler handler ys s1 in (cs @ ds, s2))"
proof (induction xs arbitrary: s)
  case Nil
  then show ?case by simp
next
  case (Cons x xs)
  obtain b s1 where "handler x s = (Inr b, s1)" by (rule never_failsE [OF assms])
  with Cons [of s1] show ?case by (simp split: prod.split)
qed

lemma consume_runs_handler:
  assumes "never_fails handler"
  shows "\<exists>ended. consume handler e commits fs s =
    (Inr (ended, commits @ fst (run_handler handler (handled e fs) s)),
     snd (run_handler handler (handled e fs) s))"
proof (induction fs arbitrary: e commits s)
  case Nil
  then show ?case by auto
next
  case (Cons f fs)
  show ?case
  proof (cases f)
    case GfError
    with Cons [of "e + 1" commits s] show ?thesis by auto
  next
    case (GfRecord r)
    obtain b s1 where "handler r s = (Inr b, s1)" by (rule never_failsE [OF assms])
    with Cons [of 0 "if b then commits @ [(gr_shard r, gr_seq r)] else commits" s1] GfRecord
    show ?thesis by (auto simp: andThen_apply split: prod.split)
  next
    case GfOther
    with Cons [of 0 commits s] show ?thesis by simp
  qed
qed

lemma run_session_runs_handler:
  assumes "never_fails handler"
  obtains good where "run_session handler ss s =
    (Inr (good, fst (run_handler handler (session_records ss) s)),
     snd (run_handler handler (session_records ss) s))"
proof (cases "gs_joined ss")
  case True
  obtain ended where "consume handler 0 [] (gs_frames ss) s =
      (Inr (ended, fst (run_handler handler (handled 0 (gs_frames ss)) s)),
       snd (run_handler handler (handled 0 (gs_frames ss)) s))"
    using consume_runs_handler [OF assms, of 0 "[]" "gs_frames ss" s] by auto
  with True that show ?thesis by (simp add: run_session_def session_records_def andThen_apply)
qed (use that in \<open>simp add: run_session_def session_records_def\<close>)

lemma rejoin_runs_handler:
  assumes "never_fails handler"
  shows "\<exists>results. rejoin handler sss s =
    (Inr results, snd (run_handler handler (concat (map session_records sss)) s)) \<and> length results = length sss"
proof (induction sss arbitrary: s)
  case Nil
  then show ?case by simp
next
  case (Cons ss sss)
  obtain good where ss: "run_session handler ss s =
      (Inr (good, fst (run_handler handler (session_records ss) s)),
       snd (run_handler handler (session_records ss) s))"
    by (rule run_session_runs_handler [OF assms])
  obtain results where "rejoin handler sss (snd (run_handler handler (session_records ss) s)) =
      (Inr results, snd (run_handler handler (concat (map session_records sss))
        (snd (run_handler handler (session_records ss) s))))" "length results = length sss"
    using Cons by blast
  with ss show ?case
    by (simp add: andThen_apply run_handler_append [OF assms] split_beta Let_def)
qed

section \<open>The group\<close>

text \<open>
  The broker's side of a consumer group. The members compete for the shards of a stream; for every shard the
  broker keeps a position, which starts where the group last left it and moves to what members commit. An event
  is a shard assigned to a member, who reads it from its position on, or the next record of a shard handed to
  a member, with whether a commit of it reaches the broker. Shards may be taken away and assigned again at
  any time, also while the earlier member still reads.
\<close>

datatype group_event = Assigned nat nat | Delivered nat nat bool   \<comment> \<open>member, shard\<close>

text \<open>What the members are handed, in order: none when an event cannot be.\<close>

fun deliveries ::
  "(nat \<Rightarrow> group_record list) \<Rightarrow> (nat \<Rightarrow> nat) \<Rightarrow> (nat \<times> nat \<rightharpoonup> nat) \<Rightarrow> group_event list
    \<Rightarrow> (nat \<times> group_record) list option" where
  "deliveries logs pos cur [] = Some []"
| "deliveries logs pos cur (Assigned m sh # es) = deliveries logs pos (cur((m, sh) \<mapsto> pos sh)) es"
| "deliveries logs pos cur (Delivered m sh committed # es) =
     (case cur (m, sh) of
        None \<Rightarrow> None
      | Some c \<Rightarrow>
          if c < length (logs sh)
          then map_option (Cons (m, logs sh ! c))
                 (deliveries logs (if committed then pos(sh := nat (gr_seq (logs sh ! c))) else pos)
                    (cur((m, sh) \<mapsto> c + 1)) es)
          else None)"

text \<open>Every shard's log is numbered from one.\<close>

definition numbered :: "(nat \<Rightarrow> group_record list) \<Rightarrow> bool" where
  "numbered logs \<longleftrightarrow>
     (\<forall>sh. \<forall>i < length (logs sh). gr_shard (logs sh ! i) = sh \<and> gr_seq (logs sh ! i) = int i + 1)"

text \<open>The stretch of \<open>k\<close> records from where the group stood, and reading that stays within it.\<close>

definition stretch :: "(nat \<Rightarrow> group_record list) \<Rightarrow> (nat \<Rightarrow> nat) \<Rightarrow> (nat \<Rightarrow> nat) \<Rightarrow> nat \<Rightarrow> group_record set" where
  "stretch logs start k sh = set (take (k sh) (drop (start sh) (logs sh)))"

definition within :: "(nat \<Rightarrow> nat) \<Rightarrow> (nat \<Rightarrow> nat) \<Rightarrow> (nat \<Rightarrow> nat) \<Rightarrow> (nat \<times> nat \<rightharpoonup> nat) \<Rightarrow> bool" where
  "within start k pos cur \<longleftrightarrow>
     (\<forall>sh. pos sh \<in> {start sh..start sh + k sh}) \<and>
     (\<forall>m sh c. cur (m, sh) = Some c \<longrightarrow> c \<in> {start sh..start sh + k sh})"

lemma stretch_next:
  assumes "start sh \<le> c" "c \<le> start sh + k sh" "c < length (logs sh)"
  shows "stretch logs start (k(sh := max (k sh) (c + 1 - start sh))) sh = insert (logs sh ! c) (stretch logs start k sh)"
proof (cases "c = start sh + k sh")
  case True
  then have "max (k sh) (c + 1 - start sh) = Suc (k sh)" by simp
  with True assms(3) show ?thesis
    by (simp add: stretch_def take_Suc_conv_app_nth)
next
  case False
  with assms have c: "c - start sh < k sh" "c - start sh < length (drop (start sh) (logs sh))" by auto
  then have "logs sh ! c \<in> set (take (k sh) (drop (start sh) (logs sh)))"
    using assms(1) by (auto simp: in_set_conv_nth intro!: exI [of _ "c - start sh"])
  moreover have "max (k sh) (c + 1 - start sh) = k sh" using c by simp
  ultimately show ?thesis by (simp add: stretch_def insert_absorb)
qed

lemma within_next:
  assumes "within start k pos cur" "start sh \<le> c" "c \<le> start sh + k sh"
  shows "within start (k(sh := max (k sh) (c + 1 - start sh))) (if committed then pos(sh := c + 1) else pos)
    (cur((m, sh) \<mapsto> c + 1))"
proof -
  define k' where "k' = k(sh := max (k sh) (c + 1 - start sh))"
  have more: "x \<in> {start y..start y + k' y}" if "x \<in> {start y..start y + k y}" for x y
    using that by (auto simp: k'_def)
  have "c + 1 \<in> {start sh..start sh + k' sh}" using assms(2) by (simp add: k'_def)
  moreover have "pos y \<in> {start y..start y + k' y}" for y
    using assms(1) by (intro more) (simp add: within_def)
  moreover have "x \<in> {start y..start y + k' y}" if "cur (n, y) = Some x" for n x y
    using assms(1) that by (intro more) (auto simp: within_def)
  ultimately show ?thesis
    unfolding k'_def [symmetric] within_def by (auto simp del: atLeastAtMost_iff split: if_splits)
qed

lemma deliveries_cover:
  assumes "numbered logs"
  shows "deliveries logs pos cur es = Some ds \<Longrightarrow> within start k pos cur \<Longrightarrow>
    \<exists>k'. \<forall>sh. stretch logs start k sh \<union> {r \<in> snd ` set ds. gr_shard r = sh} = stretch logs start k' sh"
proof (induction es arbitrary: pos cur k ds)
  case Nil
  then show ?case by auto
next
  case (Cons e es)
  show ?case
  proof (cases e)
    case (Assigned m sh)
    from Cons.prems(2) have "within start k pos (cur((m, sh) \<mapsto> pos sh))"
      by (auto simp: within_def split: if_splits)
    moreover from Cons.prems(1) Assigned have "deliveries logs pos (cur((m, sh) \<mapsto> pos sh)) es = Some ds" by simp
    ultimately show ?thesis by (intro Cons.IH)
  next
    case (Delivered m sh committed)
    with Cons.prems(1) obtain c ds' where c: "cur (m, sh) = Some c" "c < length (logs sh)"
      and ds: "ds = (m, logs sh ! c) # ds'"
      and rest: "deliveries logs (if committed then pos(sh := nat (gr_seq (logs sh ! c))) else pos)
        (cur((m, sh) \<mapsto> c + 1)) es = Some ds'"
      by (auto split: option.splits if_splits)
    let ?k = "k(sh := max (k sh) (c + 1 - start sh))"
    have num: "gr_shard (logs sh ! c) = sh" "nat (gr_seq (logs sh ! c)) = c + 1"
      using c(2) assms by (auto simp: numbered_def)
    have range: "start sh \<le> c" "c \<le> start sh + k sh" using Cons.prems(2) c(1) by (auto simp: within_def)
    have "within start ?k (if committed then pos(sh := nat (gr_seq (logs sh ! c))) else pos) (cur((m, sh) \<mapsto> c + 1))"
      using within_next [OF Cons.prems(2) range] num(2) by (simp only:)
    from Cons.IH [OF rest this] obtain k' where
      k': "\<And>x. stretch logs start ?k x \<union> {r \<in> snd ` set ds'. gr_shard r = x} = stretch logs start k' x"
      by blast
    have "stretch logs start k x \<union> {r \<in> snd ` set ds. gr_shard r = x} = stretch logs start k' x" for x
    proof (cases "x = sh")
      case True
      have "{r \<in> snd ` set ds. gr_shard r = sh} = insert (logs sh ! c) {r \<in> snd ` set ds'. gr_shard r = sh}"
        using num(1) ds by auto
      with True stretch_next [of start sh c k logs] range c(2) k' [of sh] show ?thesis by simp
    next
      case False
      with k' [of x] num(1) ds show ?thesis by (auto simp: stretch_def)
    qed
    then show ?thesis by blast
  qed
qed

text \<open>
  What a consumer relies on of the handler it is given: every record is handled to a verdict, whatever
  goes wrong. Consumers that join again for ever then miss no record: however the shards are assigned among
  them, whatever sessions fail to open, break after errors or end, and whichever commits are lost, the records
  the members have handled, over all their sessions, are on every shard those of an unbroken stretch from where
  the group stood; and each member's state is the one its handler reaches on what it was handed.
\<close>

definition handed_to :: "nat \<Rightarrow> (nat \<times> group_record) list \<Rightarrow> group_record list" where
  "handed_to m ds = map snd (filter (\<lambda>d. fst d = m) ds)"

locale record_handler =
  fixes handler :: "group_record \<Rightarrow> ('e, 's, bool) opn"
  assumes verdict: "\<exists>b. fst (handler r s) = Inr b"
begin

lemma no_failure: "never_fails handler"
  using verdict by (simp add: never_fails_def)

lemma commits_in_order:
  "\<exists>ended commits s'. consume handler 0 [] fs s = (Inr (ended, commits), s') \<and>
     subseq commits (delivered fs) \<and> (ended \<longleftrightarrow> \<not> sublist (replicate 3 GfError) fs)"
  using consume_spec [of handler 0 "[]" fs s] verdict by auto

lemma member_run:
  assumes "concat (map session_records sessions) = handed_to m ds"
  shows "\<exists>results. rejoin handler sessions s = (Inr results, snd (run_handler handler (handed_to m ds) s)) \<and>
    length results = length sessions"
  using rejoin_runs_handler [OF no_failure, of sessions s] assms by simp

end

lemma group_misses_nothing:
  assumes "numbered logs" "deliveries logs start Map.empty es = Some ds"
  shows "\<exists>k. \<forall>sh. {r \<in> snd ` set ds. gr_shard r = sh} = set (take (k sh) (drop (start sh) (logs sh)))"
proof -
  have "within start (\<lambda>_. 0) start Map.empty" by (simp add: within_def)
  from deliveries_cover [OF assms this] show ?thesis by (simp add: stretch_def)
qed

end
