(* ===== verification/Orchestrator.thy ===== *)
theory Orchestrator
  imports Recovery Context_Builder Dispatcher Retry Registry Metrics Consumer_Group
begin

text \<open>
  \<open>src/orchestrator.rs\<close>: the engine that starts turns, dispatches them to agents, waits for their
  outcome, retries or closes the ones that fail and recovers a task after a crash. The state is the
  event store's with the registry of waiting callers, the dispatcher, the retry counters, the
  dispatch times and the metrics. A handler runs to its end; what the other tasks of the runtime do
  while a caller waits is a parameter.
\<close>

section \<open>State and environment\<close>

text \<open>
  \<open>tokio::spawn\<close>: a job waiting for the runtime to run it, the recovery of a task or the rest of a
  turn (task, turn, input, redo group).
\<close>

datatype job = RecoverTask string | FinishTurn string int string string

record 's orch =
  oc_store :: 's
  oc_registry :: task_registry
  oc_dispatcher :: dispatcher
  oc_retry_attempts :: "(string \<times> int) list"
  oc_dispatch_times :: "(string \<times> int) list"
  oc_metrics :: metrics
  oc_tokens :: "(string \<times> string) list"      \<comment> \<open>channel, message\<close>
  oc_jobs :: "job list"
  oc_last_dispatch_ok :: "int option"
  oc_last_result_ok :: "int option"
  oc_ticks :: nat

text \<open>
  The clocks and the source of identifiers are read in the order of the readings: the \<open>n\<close>-th reading
  of the monotonic clock is \<open>oe_instant env n\<close> nanoseconds. \<open>oe_scale\<close> is one multiplication of a
  duration by the extension factor, a float, or the panic of a product that is no duration. \<open>oe_others ch d\<close> is what the rest of the process does to
  the state while a caller waits on channel \<open>ch\<close> for at most \<open>d\<close>. \<open>oe_prose\<close> is the text of the
  errors whose wording the model leaves out. \<open>oe_redis\<close> says whether token streaming is on.
\<close>

record 's orch_env =
  oe_store :: "'s event_store"
  oe_codec :: codec
  oe_turn_timeout :: nat
  oe_max_extensions :: nat
  oe_scale :: "nat \<Rightarrow> nat option"
  oe_retry_policy :: retry_policy
  oe_wall :: "nat \<Rightarrow> int"
  oe_instant :: "nat \<Rightarrow> int"
  oe_fresh :: "nat \<Rightarrow> string"
  oe_prose :: "app_error \<Rightarrow> string"
  oe_redis :: bool
  oe_times_iter :: "(string \<times> int) iter"
  oe_others :: "nat \<Rightarrow> nat \<Rightarrow> 's orch \<Rightarrow> 's orch"

type_synonym ('s, 'a) oop = "(app_error, 's orch, 'a) opn"

definition orchestrator_new :: "'s \<Rightarrow> nat \<Rightarrow> 's orch" where
  "orchestrator_new s max_concurrent =
     \<lparr>oc_store = s, oc_registry = registry_new, oc_dispatcher = dispatcher_new max_concurrent,
      oc_retry_attempts = [], oc_dispatch_times = [], oc_metrics = metrics_new, oc_tokens = [], oc_jobs = [],
      oc_last_dispatch_ok = None, oc_last_result_ok = None, oc_ticks = 0\<rparr>"

definition on_store :: "('s, 'a) svc \<Rightarrow> ('s, 'a) oop" where
  "on_store f ob = (case f (oc_store ob) of (r, s) \<Rightarrow> (r, ob\<lparr>oc_store := s\<rparr>))"

definition upd :: "('s orch \<Rightarrow> 's orch) \<Rightarrow> ('s, unit) oop" where
  "upd f ob = (Inr (), f ob)"

definition tick :: "(nat \<Rightarrow> 'a) \<Rightarrow> ('s, 'a) oop" where
  "tick f ob = (Inr (f (oc_ticks ob)), ob\<lparr>oc_ticks := oc_ticks ob + 1\<rparr>)"

text \<open>\<open>let _ = m.await;\<close>\<close>

definition discard :: "('s, 'a) oop \<Rightarrow> ('s, unit) oop" where
  "discard m ob = (Inr (), snd (m ob))"

definition metric :: "(metrics \<Rightarrow> metrics) \<Rightarrow> ('s, unit) oop" where
  "metric f = upd (\<lambda>ob. ob\<lparr>oc_metrics := f (oc_metrics ob)\<rparr>)"

text \<open>A service call that writes an event: it reads the wall clock once.\<close>

definition serve :: "'s orch_env \<Rightarrow> (int \<Rightarrow> ('s, 'a) svc) \<Rightarrow> ('s, 'a) oop" where
  "serve env f = andThen (tick (oe_wall env)) (\<lambda>now. on_store (f now))"

section \<open>Error texts\<close>

definition app_error_display :: "(app_error \<Rightarrow> string) \<Rightarrow> app_error \<Rightarrow> string" where
  "app_error_display prose e =
     (case e of
        Migration x \<Rightarrow> ''database migration error: '' @ x
      | Serialization \<Rightarrow> ''serialization error: '' @ prose e
      | TaskNotFound x \<Rightarrow> ''session not found: '' @ x
      | TaskAlreadyExists x \<Rightarrow> ''session already exists: '' @ x
      | TaskAlreadyEnded x \<Rightarrow> ''session already ended: '' @ x
      | TurnNotFound t n \<Rightarrow> ''turn not found: session='' @ t @ '', turn='' @ show_int n
      | TurnAlreadyTerminal t n \<Rightarrow>
          ''turn already has terminal event: session='' @ t @ '', turn='' @ show_int n
      | TurnNotStarted t n \<Rightarrow> ''turn has no started event: session='' @ t @ '', turn='' @ show_int n
      | StepNotFound x \<Rightarrow> ''step not found: step_id='' @ x
      | StepAlreadyTerminal x \<Rightarrow> ''step already has terminal event: step_id='' @ x
      | StepTypeMismatch a b \<Rightarrow> prose e
      | LifecycleInvariant v \<Rightarrow> ''lifecycle invariant violation: '' @ prose e
      | InvalidTaskStateTransition t a b \<Rightarrow>
          ''invalid task state transition: '' @ a @ [CHR '' '', CHR 0xE2, CHR 0x86, CHR 0x92, CHR '' ''] @ b
          @ '' (task='' @ t @ '')''
      | SeqGap t n \<Rightarrow> ''seq continuity gap detected: session='' @ t @ '', missing after seq='' @ show_int n
      | Validation x \<Rightarrow> ''validation error: '' @ x
      | PayloadValidation et f \<Rightarrow>
          ''payload validation error for event '' @ et @ '': missing required field '' @ [CHR 0x27] @ f @ [CHR 0x27]
      | RecoverySkippedNonIdempotent x \<Rightarrow> ''recovery skipped: non-idempotent tool '' @ x
      | Recovery x \<Rightarrow> ''recovery error: '' @ x
      | Protocol x \<Rightarrow> ''protocol error: '' @ x
      | InvalidEventType x \<Rightarrow> ''invalid event type: '' @ x
      | InvalidPayload x \<Rightarrow> ''invalid payload: '' @ x
      | ContextBuild x \<Rightarrow> ''context build error: '' @ x
      | Summary x \<Rightarrow> ''summary error: '' @ x
      | Internal x \<Rightarrow> ''internal error: '' @ x
      | Config x \<Rightarrow> ''config error: '' @ x
      | PolicyViolation _ _ _ \<Rightarrow> ''policy violation: '' @ prose e)"

definition error_text :: "'s orch_env \<Rightarrow> app_error \<Rightarrow> string" where
  "error_text env = app_error_display (oe_prose env)"

section \<open>Pure helpers\<close>

definition turn_key :: "string \<Rightarrow> int \<Rightarrow> string" where
  "turn_key task_id turn_id = task_id @ '':'' @ show_int turn_id"

text \<open>\<open>str::rsplit_once(':')\<close>.\<close>

definition rsplit_colon :: "string \<Rightarrow> (string \<times> string) option" where
  "rsplit_colon s =
     (if CHR '':'' \<notin> set s then None
      else Some (rev (tl (dropWhile (\<lambda>c. c \<noteq> CHR '':'') (rev s))),
                 rev (takeWhile (\<lambda>c. c \<noteq> CHR '':'') (rev s))))"

definition parse_turn_key :: "string \<Rightarrow> (string \<times> int) option" where
  "parse_turn_key key =
     Option.bind (rsplit_colon key) (\<lambda>(tid, turn). map_option (\<lambda>n. (tid, n)) (parse_i64 turn))"

text \<open>\<open>Duration::from_secs_f64\<close> panics on what is no duration: then there are no deadlines.\<close>

fun extend_deadlines :: "(nat \<Rightarrow> nat option) \<Rightarrow> nat \<Rightarrow> nat \<Rightarrow> nat list \<Rightarrow> nat list option" where
  "extend_deadlines scl 0 current deadlines = Some deadlines"
| "extend_deadlines scl (Suc n) current deadlines =
     (case scl current of
        None \<Rightarrow> None
      | Some next \<Rightarrow> extend_deadlines scl n next (deadlines @ [next]))"

definition compute_extension_deadlines :: "nat \<Rightarrow> nat \<Rightarrow> (nat \<Rightarrow> nat option) \<Rightarrow> nat list option" where
  "compute_extension_deadlines initial max_extensions scl =
     extend_deadlines scl max_extensions initial [initial]"

definition next_remaining :: "nat list \<Rightarrow> nat \<Rightarrow> nat \<Rightarrow> nat \<times> bool" where
  "next_remaining deadlines attmpt elapsed =
     (let idx = min attmpt (length deadlines - 1)
      in (deadlines ! idx - elapsed, attmpt \<ge> length deadlines))"

definition turn_tool :: "string \<Rightarrow> string \<Rightarrow> (string \<times> string \<times> string) list \<Rightarrow> string list \<Rightarrow> json" where
  "turn_tool name description properties req =
     JObj [(''name'', JStr name), (''description'', JStr description),
           (''parameters'',
            JObj [(''type'', JStr ''object''),
                  (''properties'',
                   JObj (map (\<lambda>(p, ty, d).
                     (p, JObj ((''type'', JStr ty) # (if d = [] then [] else [(''description'', JStr d)]))))
                     properties)),
                  (''required'', JArr (map JStr req))])]"

definition turn_tools :: "json list" where
  "turn_tools =
     [turn_tool ''fixus_Bash'' ''Execute a shell command (via fixus sandbox)''
        [(''command'', ''string'', ''The command to execute''),
         (''description'', ''string'', ''Brief description'')] [''command''],
      turn_tool ''fixus_Read'' ''Read a file (via fixus sandbox)''
        [(''file_path'', ''string'', ''Absolute path to the file''), (''offset'', ''integer'', []),
         (''limit'', ''integer'', [])] [''file_path''],
      turn_tool ''fixus_Write'' ''Write to a file (via fixus sandbox)''
        [(''file_path'', ''string'', []), (''content'', ''string'', [])] [''file_path'', ''content''],
      turn_tool ''fixus_Edit'' ''Edit a file by replacing a string''
        [(''file_path'', ''string'', []), (''old_string'', ''string'', []), (''new_string'', ''string'', [])]
        [''file_path'', ''old_string'', ''new_string''],
      turn_tool ''fixus_Glob'' ''Find files matching a pattern''
        [(''pattern'', ''string'', [])] [''pattern''],
      turn_tool ''fixus_Grep'' ''Search for a pattern in files''
        [(''pattern'', ''string'', []), (''path'', ''string'', [])] [''pattern'']]"

definition build_turn_begin_payload ::
  "codec \<Rightarrow> string \<Rightarrow> int \<Rightarrow> string \<Rightarrow> string \<Rightarrow> message list \<Rightarrow> string \<Rightarrow> int
    \<Rightarrow> effective_policy option \<Rightarrow> json" where
  "build_turn_begin_payload cd task_id turn_id user_input summary messages redo_group redo_count eff =
     JObj [(''type'', JStr ''execute_turn''), (''session_id'', JStr task_id), (''turn_id'', JInt turn_id),
           (''input'', JObj [(''user_input'', JStr user_input)]),
           (''context'', JObj [(''summary'', JStr summary), (''messages'', JArr (map message_json messages))]),
           (''tools'', JArr turn_tools), (''redo_group'', JStr redo_group), (''redo_count'', JInt redo_count),
           (''effective_policy'', case eff of None \<Rightarrow> JNull | Some p \<Rightarrow> enc_effective cd p)]"

text \<open>The replies of an earlier attempt, put before the user's input.\<close>

fun cached_lines :: "nat \<Rightarrow> string list \<Rightarrow> string" where
  "cached_lines i [] = []"
| "cached_lines i (resp # rs) =
     (if resp = [] then [] else [CHR 0x0A] @ ''Previous response '' @ show_nat (i + 1) @ '': '' @ resp @ [CHR 0x0A])
     @ cached_lines (i + 1) rs"

definition input_with_cache :: "string list \<Rightarrow> string \<Rightarrow> string" where
  "input_with_cache cached user_input =
     (if cached = [] then user_input
      else ''[CACHED FROM PREVIOUS ATTEMPT '' @ [CHR 0xE2, CHR 0x80, CHR 0x94] @
           '' reuse or adapt if applicable]'' @ [CHR 0x0A] @ cached_lines 0 cached @
           [CHR 0x0A] @ ''[END CACHE]'' @ [CHR 0x0A, CHR 0x0A] @ user_input)"

section \<open>Health\<close>

record dependency_health =
  dh_status :: string
  dh_last_ok_secs_ago :: "nat option"

record health_status =
  hs_fixus :: string
  hs_broker :: dependency_health
  hs_sandbox :: dependency_health

definition dependency_health_of :: "nat option \<Rightarrow> dependency_health" where
  "dependency_health_of ago =
     \<lparr>dh_status = (case ago of None \<Rightarrow> ''unknown'' | Some s \<Rightarrow> if s < 120 then ''ok'' else ''degraded''),
      dh_last_ok_secs_ago = ago\<rparr>"

definition secs_since :: "int \<Rightarrow> int \<Rightarrow> nat" where
  "secs_since now t = nat (now - t) div 1000000000"

definition health :: "'s orch_env \<Rightarrow> ('s, health_status) oop" where
  "health env =
     andThen (tick (oe_instant env)) (\<lambda>now ob.
       (Inr \<lparr>hs_fixus = ''ok'',
             hs_broker = dependency_health_of (map_option (secs_since now) (oc_last_dispatch_ok ob)),
             hs_sandbox = dependency_health_of (map_option (secs_since now) (oc_last_result_ok ob))\<rparr>, ob))"

section \<open>Dispatching one turn\<close>

text \<open>
  The projection may not have seen the task's creation yet: up to \<open>n\<close> looks, each after the cache was
  emptied.
\<close>

fun resolve_tries :: "nat \<Rightarrow> 's event_store \<Rightarrow> string \<Rightarrow> ('s, string) svc" where
  "resolve_tries 0 es tid =
     err (Internal (''task_type unresolved for '' @ tid @
       '' after 10 retries (projection never saw task_created?)''))"
| "resolve_tries (Suc n) es tid =
     andThen (es_get_task es tid) (\<lambda>t.
       case t of
         None \<Rightarrow> err (TaskNotFound tid)
       | Some x \<Rightarrow>
           if tk_task_type x \<noteq> [] then ok (tk_task_type x)
           else attempt (es_invalidate_projection es tid) (\<lambda>_. resolve_tries n es tid))"

definition resolve_task_type :: "'s orch_env \<Rightarrow> string \<Rightarrow> ('s, string) oop" where
  "resolve_task_type env tid = on_store (resolve_tries 10 (oe_store env) tid)"

definition task_type_or_unknown :: "'s orch_env \<Rightarrow> string \<Rightarrow> ('s, string) oop" where
  "task_type_or_unknown env tid =
     attempt (resolve_task_type env tid) (\<lambda>r. ok (case r of Inr t \<Rightarrow> t | Inl _ \<Rightarrow> ''unknown''))"

definition dispatch_execute_turn_with_ctx ::
  "'s orch_env \<Rightarrow> string \<Rightarrow> int \<Rightarrow> string \<Rightarrow> string \<Rightarrow> int \<Rightarrow> string list \<Rightarrow> llm_context \<Rightarrow> ('s, unit) oop" where
  "dispatch_execute_turn_with_ctx env tid turn_id user_input redo_group redo_count cached ctx =
     attempt (on_store (es_get_task (oe_store env) tid)) (\<lambda>t.
     let eff = (case t of Inr (Some x) \<Rightarrow> tk_effective_policy x | _ \<Rightarrow> None);
         msg = build_turn_begin_payload (oe_codec env) tid turn_id (input_with_cache cached user_input)
                 (lc_summary ctx) (lc_messages ctx) redo_group redo_count eff
     in andThen (resolve_task_type env tid) (\<lambda>task_type.
        attempt (on_store (es_publish_turn_begin (oe_store env) tid task_type msg)) (\<lambda>r.
          case r of
            Inr _ \<Rightarrow> ok ()
          | Inl e \<Rightarrow> err (Protocol (''Failed to publish turn.begin to task-begin-'' @ task_type @
              '' for task '' @ tid @ '': '' @ error_text env e)))))"

definition dispatch_execute_turn ::
  "'s orch_env \<Rightarrow> string \<Rightarrow> int \<Rightarrow> string \<Rightarrow> string \<Rightarrow> int \<Rightarrow> string list \<Rightarrow> ('s, unit) oop" where
  "dispatch_execute_turn env tid turn_id user_input redo_group redo_count cached =
     andThen (on_store (build_llm_context (oe_codec env) (oe_store env) tid)) (\<lambda>ctx.
       dispatch_execute_turn_with_ctx env tid turn_id user_input redo_group redo_count cached ctx)"

fun dispatch_tries ::
  "nat \<Rightarrow> 's orch_env \<Rightarrow> int \<Rightarrow> app_error option \<Rightarrow> ('s, unit) oop \<Rightarrow> ('s, unit) oop" where
  "dispatch_tries 0 env tries prev dispatch =
     err (Protocol (''dispatch failed after '' @ show_int tries @ '' attempts: '' @
       unwrap_or [] (map_option (error_text env) prev)))"
| "dispatch_tries (Suc n) env tries prev dispatch =
     attempt dispatch (\<lambda>r. case r of Inr _ \<Rightarrow> ok () | Inl e \<Rightarrow> dispatch_tries n env tries (Some e) dispatch)"

definition dispatch_with_retry ::
  "'s orch_env \<Rightarrow> string \<Rightarrow> int \<Rightarrow> string \<Rightarrow> string \<Rightarrow> int \<Rightarrow> string list \<Rightarrow> ('s, unit) oop" where
  "dispatch_with_retry env tid turn_id user_input redo_group redo_count cached =
     (let tries = max (max_attempts (oe_retry_policy env)) 1
      in dispatch_tries (nat tries) env tries None
           (dispatch_execute_turn env tid turn_id user_input redo_group redo_count cached))"

definition cached_response :: "agent_event \<Rightarrow> string option" where
  "cached_response e =
     (if ae_event_type e = LlmCompleted then Option.bind (jget ''content'' (ae_payload e)) as_str else None)"

definition get_cached_llm_responses :: "'s orch_env \<Rightarrow> string \<Rightarrow> int \<Rightarrow> ('s, string list) oop" where
  "get_cached_llm_responses env tid turn_id =
     attempt (on_store (es_get_turn_events (oe_store env) tid turn_id)) (\<lambda>r.
       ok (case r of Inr events \<Rightarrow> List.map_filter cached_response events | Inl _ \<Rightarrow> []))"

section \<open>Closing a turn\<close>

definition take_dispatch_time :: "string \<Rightarrow> ('s, int option) oop" where
  "take_dispatch_time key ob =
     (Inr (map_of (oc_dispatch_times ob) key),
      ob\<lparr>oc_dispatch_times := AList.delete key (oc_dispatch_times ob)\<rparr>)"

definition set_dispatch_time :: "'s orch_env \<Rightarrow> string \<Rightarrow> ('s, unit) oop" where
  "set_dispatch_time env key =
     andThen (tick (oe_instant env)) (\<lambda>now.
       upd (\<lambda>ob. ob\<lparr>oc_dispatch_times := AList.update key now (oc_dispatch_times ob)\<rparr>))"

definition elapsed :: "'s orch_env \<Rightarrow> int \<Rightarrow> ('s, nat) oop" where
  "elapsed env since = andThen (tick (oe_instant env)) (\<lambda>now. ok (nat (now - since)))"

definition record_turn_terminal_metric :: "'s orch_env \<Rightarrow> string \<Rightarrow> int \<Rightarrow> string \<Rightarrow> ('s, unit) oop" where
  "record_turn_terminal_metric env tid turn_id outcome =
     andThen (take_dispatch_time (turn_key tid turn_id)) (\<lambda>t0.
     andThen (case t0 of None \<Rightarrow> ok 0 | Some t \<Rightarrow> elapsed env t) (\<lambda>dur.
     andThen (task_type_or_unknown env tid) (\<lambda>tt.
     metric (record_turn_terminal tt outcome dur))))"

definition clear_retry :: "string \<Rightarrow> int \<Rightarrow> ('s, unit) oop" where
  "clear_retry tid turn_id =
     upd (\<lambda>ob. ob\<lparr>oc_retry_attempts := AList.delete (turn_key tid turn_id) (oc_retry_attempts ob)\<rparr>)"

definition notify :: "string \<Rightarrow> turn_outcome \<Rightarrow> ('s, unit) oop" where
  "notify tid outcome =
     upd (\<lambda>ob. ob\<lparr>oc_registry := snd (complete_pending_turn tid outcome (oc_registry ob))\<rparr>)"

definition fail_task_with_reason ::
  "'s orch_env \<Rightarrow> string \<Rightarrow> int \<Rightarrow> failure_reason \<Rightarrow> string \<Rightarrow> string \<Rightarrow> ('s, turn_outcome) oop" where
  "fail_task_with_reason env tid turn_id reason error_type error_message =
     andThen (clear_retry tid turn_id) (\<lambda>_.
     andThen (record_turn_terminal_metric env tid turn_id ''failed'') (\<lambda>_.
     andThen (discard (serve env (\<lambda>now. fail_turn (oe_store env) now tid turn_id error_type error_message
                None (Some reason)))) (\<lambda>_.
     andThen (discard (serve env (\<lambda>now. fail_task (oe_store env) now tid
                (failure_reason_as_str reason @ '': '' @ error_type) (Some reason)))) (\<lambda>_.
     let outcome = TurnOutcomeFailed turn_id error_type error_message
     in andThen (notify tid outcome) (\<lambda>_. ok outcome)))))"

section \<open>The queue\<close>

definition pop_turn :: "string \<Rightarrow> ('s, queued_turn option) oop" where
  "pop_turn tt ob =
     (case try_pop tt (oc_dispatcher ob) of (t, d) \<Rightarrow> (Inr t, ob\<lparr>oc_dispatcher := d\<rparr>))"

definition release_slot :: "string \<Rightarrow> ('s, unit) oop" where
  "release_slot tt = upd (\<lambda>ob. ob\<lparr>oc_dispatcher := on_turn_terminal tt (oc_dispatcher ob)\<rparr>)"

definition dispatch_one :: "'s orch_env \<Rightarrow> queued_turn \<Rightarrow> ('s, unit) oop" where
  "dispatch_one env turn =
     (let tid = qt_task_id turn; turn_id = qt_turn_id turn; tt = qt_task_type turn
      in andThen (elapsed env (qt_enqueued_at turn)) (\<lambda>wait.
         andThen (metric (record_turn_dispatched tt wait)) (\<lambda>_.
         andThen (set_dispatch_time env (turn_key tid turn_id)) (\<lambda>_.
         attempt (dispatch_with_retry env tid turn_id (qt_user_input turn) (qt_redo_group turn)
                    (qt_redo_count turn) (qt_cached_llm turn)) (\<lambda>r.
           case r of
             Inr _ \<Rightarrow> ok ()
           | Inl e \<Rightarrow>
               andThen (release_slot tt) (\<lambda>_.
               discard (fail_task_with_reason env tid turn_id RedoDispatchFailed ''redo_dispatch_failed''
                 (error_text env e))))))))"

text \<open>
  The loop of \<open>dispatch_pending\<close>. Every pass takes a turn out of the queue and none puts one in, so as
  many passes as there are turns waiting, and one to see the end, are enough.
\<close>

fun dispatch_loop :: "nat \<Rightarrow> 's orch_env \<Rightarrow> string \<Rightarrow> ('s, unit) oop" where
  "dispatch_loop 0 env tt = ok ()"
| "dispatch_loop (Suc n) env tt =
     andThen (pop_turn tt) (\<lambda>t.
       case t of
         None \<Rightarrow> ok ()
       | Some turn \<Rightarrow> andThen (dispatch_one env turn) (\<lambda>_. dispatch_loop n env tt))"

definition dispatch_pending :: "'s orch_env \<Rightarrow> string \<Rightarrow> ('s, unit) oop" where
  "dispatch_pending env tt ob = dispatch_loop (Suc (pending_count tt (oc_dispatcher ob))) env tt ob"

definition release_slot_and_redispatch :: "'s orch_env \<Rightarrow> string \<Rightarrow> ('s, unit) oop" where
  "release_slot_and_redispatch env tid =
     attempt (resolve_task_type env tid) (\<lambda>r.
       case r of
         Inl _ \<Rightarrow> ok ()
       | Inr tt \<Rightarrow> andThen (release_slot tt) (\<lambda>_. dispatch_pending env tt))"

definition fail_turn_and_respond ::
  "'s orch_env \<Rightarrow> string \<Rightarrow> int \<Rightarrow> string \<Rightarrow> string \<Rightarrow> ('s, turn_outcome) oop" where
  "fail_turn_and_respond env tid turn_id error_type error_message =
     andThen (fail_task_with_reason env tid turn_id (classify_failure error_type error_message)
                error_type error_message) (\<lambda>outcome.
     andThen (release_slot_and_redispatch env tid) (\<lambda>_. ok outcome))"

definition enqueue_and_dispatch ::
  "'s orch_env \<Rightarrow> string \<Rightarrow> int \<Rightarrow> string \<Rightarrow> string \<Rightarrow> int \<Rightarrow> string list \<Rightarrow> ('s, unit) oop" where
  "enqueue_and_dispatch env tid turn_id user_input redo_group redo_count cached =
     andThen (resolve_task_type env tid) (\<lambda>task_type.
     andThen (on_store (es_get_task (oe_store env) tid)) (\<lambda>t.
     andThen (metric (record_turn_enqueued task_type)) (\<lambda>_.
     andThen (tick (oe_instant env)) (\<lambda>now.
     let turn = \<lparr>qt_task_type = task_type, qt_task_id = tid, qt_turn_id = turn_id,
                 qt_user_input = user_input, qt_redo_group = redo_group, qt_redo_count = redo_count,
                 qt_cached_llm = cached, qt_priority = unwrap_or 0 (map_option tk_priority t),
                 qt_enqueued_at = now\<rparr>
     in andThen (upd (\<lambda>ob. ob\<lparr>oc_dispatcher := snd (enqueue turn (oc_dispatcher ob))\<rparr>)) (\<lambda>_.
        dispatch_pending env task_type)))))"

section \<open>Waiting for the outcome\<close>

text \<open>
  Waiting on a channel for at most \<open>d\<close>: the rest of the process runs; then the outcome is there, or
  the sender is gone (its turn is no longer registered and nothing was sent), or the time is up.
\<close>

datatype wait_result = WaitDone turn_outcome | WaitClosed | WaitElapsed

definition await_outcome :: "'s orch_env \<Rightarrow> nat \<Rightarrow> nat \<Rightarrow> ('s, wait_result) oop" where
  "await_outcome env ch d ob =
     (let ob' = oe_others env ch d ob; reg = oc_registry ob'
      in (Inr (case map_of (tg_sent reg) ch of
                 Some outcome \<Rightarrow> WaitDone outcome
               | None \<Rightarrow> if ch \<in> set (open_channels reg) then WaitElapsed else WaitClosed), ob'))"

text \<open>
  The loop of \<open>run_turn_to_completion\<close>: each wait lasts until the next deadline, counted from \<open>start\<close>.
\<close>

function wait_turn ::
  "'s orch_env \<Rightarrow> string \<Rightarrow> int \<Rightarrow> nat \<Rightarrow> nat list \<Rightarrow> int \<Rightarrow> nat \<Rightarrow> ('s, turn_outcome) oop" where
  "wait_turn env tid turn_id ch deadlines start attmpt =
     andThen (elapsed env start) (\<lambda>e.
     andThen (await_outcome env ch (fst (next_remaining deadlines attmpt e))) (\<lambda>w.
       case w of
         WaitDone outcome \<Rightarrow> ok outcome
       | WaitClosed \<Rightarrow>
           fail_turn_and_respond env tid turn_id ''channel_closed'' ''fixlet connection lost''
       | WaitElapsed \<Rightarrow>
           if snd (next_remaining deadlines (attmpt + 1) e)
           then andThen (elapsed env start) (\<lambda>total.
                  fail_turn_and_respond env tid turn_id ''timeout''
                    (''Turn timed out after '' @ show_nat (length deadlines) @ '' attempts ('' @
                     show_nat (total div 1000000000) @ ''s total)''))
           else wait_turn env tid turn_id ch deadlines start (attmpt + 1)))"
  by pat_completeness auto

termination
  by (relation "measure (\<lambda>(_, _, _, _, deadlines, _, attmpt). length deadlines - attmpt)")
     (auto simp: next_remaining_def Let_def)

declare wait_turn.simps [simp del]

definition deadlines_of :: "'s orch_env \<Rightarrow> nat list option" where
  "deadlines_of env =
     compute_extension_deadlines (oe_turn_timeout env) (oe_max_extensions env) (oe_scale env)"

text \<open>\<open>PendingTurn::new\<close> and \<open>register_pending_turn\<close>; the result is the waiter's channel.\<close>

definition open_turn :: "string \<Rightarrow> int \<Rightarrow> string \<Rightarrow> ('s, nat) oop" where
  "open_turn tid turn_id redo_group ob =
     (case pending_turn_new tid turn_id redo_group (oc_registry ob) of
        (p, r) \<Rightarrow> (Inr (pt_result_tx p), ob\<lparr>oc_registry := register_pending_turn tid p r\<rparr>))"

definition run_turn_to_completion ::
  "'s orch_env \<Rightarrow> string \<Rightarrow> int \<Rightarrow> string \<Rightarrow> string \<Rightarrow> ('s, turn_outcome) oop" where
  "run_turn_to_completion env tid turn_id user_input redo_group =
     andThen (resolve_task_type env tid) (\<lambda>_.
     andThen (open_turn tid turn_id redo_group) (\<lambda>ch.
     andThen (enqueue_and_dispatch env tid turn_id user_input redo_group 0 []) (\<lambda>_.
     case deadlines_of env of
       None \<Rightarrow> err panic
     | Some deadlines \<Rightarrow>
         andThen (tick (oe_instant env)) (\<lambda>start.
         wait_turn env tid turn_id ch deadlines start 0))))"

section \<open>Background recovery\<close>

text \<open>
  The same loop for a turn that is redone, \<open>True\<close> when it succeeded. A \<open>Timeout\<close> outcome, which
  nothing sends, counts as a wait that ran out.
\<close>

function wait_redo ::
  "'s orch_env \<Rightarrow> string \<Rightarrow> int \<Rightarrow> nat \<Rightarrow> nat list \<Rightarrow> int \<Rightarrow> nat \<Rightarrow> ('s, bool) oop" where
  "wait_redo env tid turn_id ch deadlines start attmpt =
     andThen (elapsed env start) (\<lambda>e.
     andThen (await_outcome env ch (fst (next_remaining deadlines attmpt e))) (\<lambda>w.
       case w of
         WaitDone (Completed _ _ _) \<Rightarrow> ok True
       | WaitDone (TurnOutcomeFailed _ _ _) \<Rightarrow> ok False
       | WaitClosed \<Rightarrow>
           andThen (discard (fail_turn_and_respond env tid turn_id ''channel_closed''
                       ''fixlet connection lost during redo'')) (\<lambda>_. ok False)
       | _ \<Rightarrow>
           if snd (next_remaining deadlines (attmpt + 1) e)
           then andThen (discard (fail_turn_and_respond env tid turn_id ''redo_timeout'' ''Redo timed out''))
                  (\<lambda>_. ok False)
           else wait_redo env tid turn_id ch deadlines start (attmpt + 1)))"
  by pat_completeness auto

termination
  by (relation "measure (\<lambda>(_, _, _, _, deadlines, _, attmpt). length deadlines - attmpt)")
     (auto simp: next_remaining_def Let_def)

declare wait_redo.simps [simp del]

definition redo_turn :: "'s orch_env \<Rightarrow> string \<Rightarrow> redo_context \<Rightarrow> ('s, bool) oop" where
  "redo_turn env tid ctx =
     andThen (open_turn tid (rc_turn_id ctx) (rc_redo_group ctx)) (\<lambda>ch.
     andThen (get_cached_llm_responses env tid (rc_turn_id ctx)) (\<lambda>cached.
     attempt (enqueue_and_dispatch env tid (rc_turn_id ctx) (rc_user_input ctx) (rc_redo_group ctx)
                (rc_redo_count ctx) cached) (\<lambda>r.
       case r of
         Inl e \<Rightarrow>
           andThen (discard (fail_turn_and_respond env tid (rc_turn_id ctx) ''redo_dispatch_failed''
                      (error_text env e))) (\<lambda>_. ok False)
       | Inr _ \<Rightarrow>
           (case deadlines_of env of
              None \<Rightarrow> err panic
            | Some deadlines \<Rightarrow>
                andThen (tick (oe_instant env)) (\<lambda>start.
                  wait_redo env tid (rc_turn_id ctx) ch deadlines start 0)))))"

text \<open>The counts of redone turns that succeeded and failed.\<close>

fun redo_turns :: "'s orch_env \<Rightarrow> string \<Rightarrow> nat \<Rightarrow> nat \<Rightarrow> redo_context list \<Rightarrow> ('s, nat \<times> nat) oop" where
  "redo_turns env tid succeeded failed [] = ok (succeeded, failed)"
| "redo_turns env tid succeeded failed (c # cs) =
     andThen (redo_turn env tid c) (\<lambda>good.
       if good then redo_turns env tid (succeeded + 1) failed cs
       else redo_turns env tid succeeded (failed + 1) cs)"

definition background_recovery :: "'s orch_env \<Rightarrow> string \<Rightarrow> ('s, (nat \<times> nat) option) oop" where
  "background_recovery env tid =
     attempt (serve env (\<lambda>now. recover_task (oe_store env) now tid)) (\<lambda>q.
       case q of
         Inl _ \<Rightarrow> ok None
       | Inr redo_queue \<Rightarrow>
           if redo_queue = [] then ok None
           else attempt (resolve_task_type env tid) (\<lambda>r.
             case r of
               Inl _ \<Rightarrow> ok None
             | Inr _ \<Rightarrow> andThen (redo_turns env tid 0 0 redo_queue) (\<lambda>c. ok (Some c))))"

section \<open>Starting turns\<close>

datatype async_turn_start = Started int | RecoveryTriggered nat

definition spawn :: "job \<Rightarrow> ('s, unit) oop" where
  "spawn j = upd (\<lambda>ob. ob\<lparr>oc_jobs := oc_jobs ob @ [j]\<rparr>)"

fun run_job :: "'s orch_env \<Rightarrow> job \<Rightarrow> ('s, unit) oop" where
  "run_job env (RecoverTask tid) = discard (background_recovery env tid)"
| "run_job env (FinishTurn tid turn_id user_input redo_group) =
     discard (run_turn_to_completion env tid turn_id user_input redo_group)"

definition start_new_turn ::
  "'s orch_env \<Rightarrow> string \<Rightarrow> string \<Rightarrow> string option \<Rightarrow> ('s, int \<times> string \<times> agent_event) oop" where
  "start_new_turn env tid user_input redo_group =
     andThen (tick (oe_fresh env)) (\<lambda>fresh.
     serve env (\<lambda>now. start_turn (oe_store env) now fresh tid user_input redo_group))"

definition execute_turn ::
  "'s orch_env \<Rightarrow> string \<Rightarrow> string \<Rightarrow> string option \<Rightarrow> ('s, turn_outcome) oop" where
  "execute_turn env tid user_input redo_group =
     andThen (on_store (es_get_incomplete_turns (oe_store env) tid)) (\<lambda>incomplete.
       if incomplete \<noteq> []
       then andThen (spawn (RecoverTask tid)) (\<lambda>_. ok (Completed
              (''Recovery triggered: '' @ show_nat (length incomplete) @
               '' incomplete turn(s) detected. Retry after recovery completes.'') 0 0))
       else andThen (start_new_turn env tid user_input redo_group) (\<lambda>(turn_id, rg, _).
              run_turn_to_completion env tid turn_id user_input rg))"

definition start_turn_async ::
  "'s orch_env \<Rightarrow> string \<Rightarrow> string \<Rightarrow> string option \<Rightarrow> ('s, async_turn_start) oop" where
  "start_turn_async env tid user_input redo_group =
     andThen (on_store (es_get_incomplete_turns (oe_store env) tid)) (\<lambda>incomplete.
       if incomplete \<noteq> []
       then andThen (spawn (RecoverTask tid)) (\<lambda>_. ok (RecoveryTriggered (length incomplete)))
       else andThen (start_new_turn env tid user_input redo_group) (\<lambda>(turn_id, rg, _).
              andThen (spawn (FinishTurn tid turn_id user_input rg)) (\<lambda>_.
              ok (Started turn_id))))"

section \<open>Events from the agents\<close>

definition publish_token :: "'s orch_env \<Rightarrow> string \<Rightarrow> int \<Rightarrow> string \<Rightarrow> ('s, unit) oop" where
  "publish_token env session_id turn_id chunk_json =
     upd (\<lambda>ob. if oe_redis env
       then ob\<lparr>oc_tokens := oc_tokens ob @
              [(''turn:'' @ session_id @ '':'' @ show_int turn_id, chunk_json)]\<rparr>
       else ob)"

definition handle_llm_chunk :: "'s orch_env \<Rightarrow> string \<Rightarrow> int \<Rightarrow> string \<Rightarrow> ('s, unit) oop" where
  "handle_llm_chunk env tid turn_id text =
     publish_token env tid turn_id
       (to_vec (oe_codec env) (JObj [(''type'', JStr ''llm_chunk''), (''text'', JStr text)]))"

definition handle_llm_completed ::
  "'s orch_env \<Rightarrow> string \<Rightarrow> int \<Rightarrow> string \<Rightarrow> string \<Rightarrow> int \<Rightarrow> int \<Rightarrow> int \<Rightarrow> int \<Rightarrow> ('s, unit) oop" where
  "handle_llm_completed env tid turn_id step_id model input_tokens output_tokens total_tokens local_seq =
     (let payload = JObj [(''model'', JStr model),
                          (''usage'', JObj [(''prompt_tokens'', JInt input_tokens),
                                            (''completion_tokens'', JInt output_tokens),
                                            (''total_tokens'', JInt total_tokens)]),
                          (''local_seq'', JInt local_seq)]
      in andThen (serve env (\<lambda>now. record_event (oe_store env) now tid (Some turn_id) (Some step_id)
                    LlmCompleted payload)) (\<lambda>_.
         andThen (task_type_or_unknown env tid) (\<lambda>tt.
         metric (record_llm_tokens tt model input_tokens output_tokens total_tokens))))"

definition handle_tool_invoked ::
  "'s orch_env \<Rightarrow> string \<Rightarrow> int option \<Rightarrow> string \<Rightarrow> string \<Rightarrow> string \<Rightarrow> string \<Rightarrow> json \<Rightarrow> int
    \<Rightarrow> ('s, unit) oop" where
  "handle_tool_invoked env tid turn_id step_id tool_name tool_call_id idempotency_key inp local_seq =
     andThen (serve env (\<lambda>now. record_tool_invoked (oe_store env) now tid turn_id step_id tool_name
                tool_call_id idempotency_key inp None local_seq None None)) (\<lambda>_. ok ())"

definition handle_tool_completed ::
  "'s orch_env \<Rightarrow> string \<Rightarrow> int option \<Rightarrow> string \<Rightarrow> string \<Rightarrow> json \<Rightarrow> bool \<Rightarrow> int \<Rightarrow> ('s, unit) oop" where
  "handle_tool_completed env tid turn_id step_id tool_call_id output is_error local_seq =
     andThen (serve env (\<lambda>now. record_tool_completed (oe_store env) now tid turn_id step_id tool_call_id
                output is_error local_seq)) (\<lambda>_. ok ())"

definition handle_tool_failed ::
  "'s orch_env \<Rightarrow> string \<Rightarrow> int option \<Rightarrow> string \<Rightarrow> string \<Rightarrow> string \<Rightarrow> string \<Rightarrow> int
    \<Rightarrow> ('s, unit) oop" where
  "handle_tool_failed env tid turn_id step_id tool_call_id error_type error_message local_seq =
     andThen (serve env (\<lambda>now. record_tool_failed (oe_store env) now tid turn_id step_id tool_call_id
                error_type error_message None 0 local_seq)) (\<lambda>_. ok ())"

definition handle_llm_invoked ::
  "'s orch_env \<Rightarrow> string \<Rightarrow> int option \<Rightarrow> string \<Rightarrow> string \<Rightarrow> message list \<Rightarrow> int \<Rightarrow> ('s, unit) oop" where
  "handle_llm_invoked env tid turn_id step_id model messages local_seq =
     andThen (serve env (\<lambda>now. record_llm_invoked (oe_store env) now tid turn_id step_id model messages
                None None local_seq)) (\<lambda>_. ok ())"

definition handle_llm_failed ::
  "'s orch_env \<Rightarrow> string \<Rightarrow> int option \<Rightarrow> string \<Rightarrow> string \<Rightarrow> string \<Rightarrow> int \<Rightarrow> ('s, unit) oop" where
  "handle_llm_failed env tid turn_id step_id error_type error_message local_seq =
     andThen (serve env (\<lambda>now. record_llm_failed (oe_store env) now tid turn_id step_id error_type
                error_message None 0 local_seq)) (\<lambda>_. ok ())"

definition handle_turn_execution_done ::
  "'s orch_env \<Rightarrow> string \<Rightarrow> int \<Rightarrow> int \<Rightarrow> string \<Rightarrow> ('s, unit) oop" where
  "handle_turn_execution_done env tid turn_id max_local_seq final_output =
     andThen (serve env (\<lambda>now. complete_turn (oe_store env) now tid turn_id final_output)) (\<lambda>_.
     andThen (clear_retry tid turn_id) (\<lambda>_.
     andThen (record_turn_terminal_metric env tid turn_id ''success'') (\<lambda>_.
     andThen (release_slot_and_redispatch env tid) (\<lambda>_.
     andThen (on_store (es_get_turn_events (oe_store env) tid turn_id)) (\<lambda>events.
     notify tid (Completed final_output turn_id (int (length events))))))))"

text \<open>The decision reads the turn's counter and moves it: one more retry, or gone.\<close>

definition decide_retry ::
  "'s orch_env \<Rightarrow> string \<Rightarrow> int \<Rightarrow> failure_reason \<Rightarrow> ('s, retry_decision) oop" where
  "decide_retry env tid turn_id reason ob =
     (let key = turn_key tid turn_id;
          current = unwrap_or 0 (map_of (oc_retry_attempts ob) key);
          d = decide (oe_retry_policy env) reason current
      in (Inr d,
          ob\<lparr>oc_retry_attempts :=
               (case d of Retry _ _ \<Rightarrow> AList.update key (add_i32 current 1) (oc_retry_attempts ob)
                        | Fail _ _ \<Rightarrow> AList.delete key (oc_retry_attempts ob))\<rparr>))"

definition retry_turn ::
  "'s orch_env \<Rightarrow> string \<Rightarrow> int \<Rightarrow> string \<Rightarrow> string \<Rightarrow> int \<Rightarrow> ('s, unit) oop" where
  "retry_turn env tid turn_id user_input redo_group next_redo_count =
     andThen (task_type_or_unknown env tid) (\<lambda>tt.
     andThen (metric (record_retry tt)) (\<lambda>_.
     andThen (get_cached_llm_responses env tid turn_id) (\<lambda>cached.
     attempt (dispatch_with_retry env tid turn_id user_input redo_group next_redo_count cached) (\<lambda>r.
       case r of
         Inr _ \<Rightarrow> ok ()
       | Inl e \<Rightarrow>
           andThen (fail_task_with_reason env tid turn_id RedoDispatchFailed ''redo_dispatch_failed''
                      (error_text env e)) (\<lambda>_. ok ())))))"

definition handle_turn_execution_error ::
  "'s orch_env \<Rightarrow> string \<Rightarrow> int \<Rightarrow> string \<Rightarrow> string \<Rightarrow> ('s, unit) oop" where
  "handle_turn_execution_error env tid turn_id error_type error_message =
     (let reason = classify_failure error_type error_message
      in andThen (on_store (es_get_turn_events (oe_store env) tid turn_id)) (\<lambda>events.
         case find (\<lambda>e. ae_event_type e = TurnStarted) events of
           None \<Rightarrow>
             andThen (fail_task_with_reason env tid turn_id reason error_type error_message) (\<lambda>_. ok ())
         | Some started \<Rightarrow>
             andThen (decide_retry env tid turn_id reason) (\<lambda>d.
               case d of
                 Retry _ next_redo_count \<Rightarrow>
                   retry_turn env tid turn_id (str_field ''user_input'' [] (ae_payload started))
                     (str_field ''redo_group'' ''unknown'' (ae_payload started)) next_redo_count
               | Fail _ _ \<Rightarrow>
                   andThen (fail_task_with_reason env tid turn_id reason error_type error_message) (\<lambda>_.
                   release_slot_and_redispatch env tid))))"

section \<open>The watchdog\<close>

definition reclaim_turn :: "'s orch_env \<Rightarrow> string \<Rightarrow> ('s, unit) oop" where
  "reclaim_turn env key =
     (case parse_turn_key key of
        None \<Rightarrow> ok ()
      | Some (tid, turn_id) \<Rightarrow>
          andThen (task_type_or_unknown env tid) (\<lambda>tt.
          andThen (metric (record_watchdog_reclaim tt)) (\<lambda>_.
          andThen (set_dispatch_time env key) (\<lambda>_.
          discard (handle_turn_execution_error env tid turn_id ''agent_unresponsive''
                     ''no terminal event within turn_lease'')))))"

definition stale_keys :: "'s orch_env \<Rightarrow> nat \<Rightarrow> int \<Rightarrow> (string \<times> int) list \<Rightarrow> string list" where
  "stale_keys env lease now ts =
     map fst (filter (\<lambda>(_, t). nat (now - t) > lease) (oe_times_iter env ts))"

definition reclaim_stale_turns :: "'s orch_env \<Rightarrow> nat \<Rightarrow> ('s, nat) oop" where
  "reclaim_stale_turns env lease =
     andThen (tick (oe_instant env)) (\<lambda>now ob.
       let stale = stale_keys env lease now (oc_dispatch_times ob)
       in andThen (for_each (reclaim_turn env) stale) (\<lambda>_. ok (length stale)) ob)"

section \<open>The consumers\<close>

text \<open>
  A record is committed unless its handling gave up on it. Malformed JSON reads as \<open>null\<close>.
\<close>

definition lifecycle_messages :: "json \<Rightarrow> message list" where
  "lifecycle_messages payload =
     unwrap_or [] (Option.bind (jget ''messages'' payload) messages_of_json)"

text \<open>
  Handling one record; the result says whether it is committed. A handler's error is dropped.
\<close>

definition when_usable :: "bool \<Rightarrow> ('s, unit) oop \<Rightarrow> ('s, bool) oop" where
  "when_usable b handler = (if b then andThen (discard handler) (\<lambda>_. ok True) else ok False)"

definition lifecycle_record :: "'s orch_env \<Rightarrow> group_record \<Rightarrow> ('s, bool) oop" where
  "lifecycle_record env rec =
     (let p = unwrap_or JNull (from_slice (oe_codec env) (gr_content rec));
          tid = str_field ''task_id'' [] p;
          et = gr_event_type rec;
          turn = i64_field ''turn_id'' 0 p;
          turn_opt = Option.bind (jget ''turn_id'' p) as_i64;
          step = str_field ''step_id'' [] p;
          call = str_field ''tool_call_id'' [] p;
          etype = str_field ''error_type'' ''unknown'' p;
          emsg = str_field ''error_message'' [] p;
          lseq = i64_field ''local_seq'' 0 p
      in if tid = [] then ok False
         else if et = ''turn_execution_done'' then
           when_usable (turn \<noteq> 0) (handle_turn_execution_done env tid turn
             (i64_field ''max_local_seq'' 0 p) (str_field ''final_output'' [] p))
         else if et = ''llm_completed'' then
           when_usable (turn \<noteq> 0 \<and> step \<noteq> []) (handle_llm_completed env tid turn step
             (str_field ''model'' [] p) (i64_field ''input_tokens'' 0 p) (i64_field ''output_tokens'' 0 p)
             (i64_field ''total_tokens'' 0 p) lseq)
         else if et = ''turn_execution_error'' then
           when_usable (turn \<noteq> 0) (handle_turn_execution_error env tid turn etype emsg)
         else if et = ''tool_invoked'' then
           when_usable (step \<noteq> []) (handle_tool_invoked env tid turn_opt step (str_field ''tool_name'' [] p)
             call (str_field ''idempotency_key'' [] p) (jindex p ''input'') lseq)
         else if et = ''tool_completed'' then
           when_usable (step \<noteq> []) (handle_tool_completed env tid turn_opt step call (jindex p ''output'')
             (unwrap_or False (Option.bind (jget ''is_error'' p) as_bool)) lseq)
         else if et = ''tool_failed'' then
           when_usable (step \<noteq> []) (handle_tool_failed env tid turn_opt step call etype emsg lseq)
         else if et = ''llm_invoked'' then
           when_usable (step \<noteq> []) (handle_llm_invoked env tid turn_opt step (str_field ''model'' [] p)
             (lifecycle_messages p) lseq)
         else if et = ''llm_failed'' then
           when_usable (step \<noteq> []) (handle_llm_failed env tid turn_opt step etype emsg lseq)
         else ok True)"

definition result_record :: "'s orch_env \<Rightarrow> group_record \<Rightarrow> ('s, bool) oop" where
  "result_record env rec =
     (if gr_event_type rec \<noteq> ''tool_result'' then ok False
      else if str_field ''step_id'' [] (unwrap_or JNull (from_slice (oe_codec env) (gr_content rec))) = []
      then ok False
      else andThen (tick (oe_instant env)) (\<lambda>now.
           andThen (upd (\<lambda>ob. ob\<lparr>oc_last_result_ok := Some now\<rparr>)) (\<lambda>_. ok True)))"

definition run_lifecycle_consumer ::
  "'s orch_env \<Rightarrow> group_frame list \<Rightarrow> ('s, bool \<times> (nat \<times> int) list) oop" where
  "run_lifecycle_consumer env fs = consume (lifecycle_record env) 0 [] fs"

definition run_result_consumer ::
  "'s orch_env \<Rightarrow> group_frame list \<Rightarrow> ('s, bool \<times> (nat \<times> int) list) oop" where
  "run_result_consumer env fs = consume (result_record env) 0 [] fs"

text \<open>
  The tasks that run for the life of the process: each consumer joins again whenever a session ends, under
  names of its own; the watchdog sleeps between its rounds, and what the process does meanwhile is an
  argument.
\<close>

record consumer_names =
  cn_stream :: string
  cn_group :: string
  cn_consumer :: string

definition lifecycle_consumer_names :: "string \<Rightarrow> consumer_names" where
  "lifecycle_consumer_names instance_id =
     \<lparr>cn_stream = ''task-end'', cn_group = ''fixus-lifecycle-'' @ take 12 instance_id,
      cn_consumer = ''fixus-lifecycle-'' @ instance_id\<rparr>"

definition result_consumer_names :: "string \<Rightarrow> string \<Rightarrow> consumer_names" where
  "result_consumer_names region instance_id =
     \<lparr>cn_stream = ''tool-result-'' @ region, cn_group = ''fixus-results-'' @ take 12 instance_id,
      cn_consumer = ''fixus-result-'' @ instance_id\<rparr>"

definition spawn_lifecycle_consumer ::
  "'s orch_env \<Rightarrow> group_session list \<Rightarrow> ('s, (bool \<times> (nat \<times> int) list) list) oop" where
  "spawn_lifecycle_consumer env granted = rejoin (lifecycle_record env) granted"

definition spawn_result_consumer ::
  "'s orch_env \<Rightarrow> group_session list \<Rightarrow> ('s, (bool \<times> (nat \<times> int) list) list) oop" where
  "spawn_result_consumer env granted = rejoin (result_record env) granted"

fun spawn_turn_watchdog :: "'s orch_env \<Rightarrow> nat \<Rightarrow> ('s orch \<Rightarrow> 's orch) list \<Rightarrow> ('s, nat list) oop" where
  "spawn_turn_watchdog env lease [] = ok []"
| "spawn_turn_watchdog env lease (meanwhile # rest) =
     (\<lambda>ob. andThen (reclaim_stale_turns env lease) (\<lambda>n.
           andThen (spawn_turn_watchdog env lease rest) (\<lambda>ns. ok (n # ns))) (meanwhile ob))"

end
