(* ===== verification/Orchestrator_Invariants.thy ===== *)
theory Orchestrator_Invariants
  imports Orchestrator
begin

text \<open>
  Invariants of the orchestrator. An invariant is a predicate the few primitive changes of the state
  keep; then every operation, up to the background jobs and the consumers, keeps it. The locale states
  the primitives and derives the operations once; it is interpreted for the capacity of the
  dispatcher, the registry of waiters, the metrics and the health timestamps.
\<close>

section \<open>Preservation\<close>

named_theorems pres_intros \<open>operations that preserve an invariant\<close>

definition preserves :: "('s \<Rightarrow> bool) \<Rightarrow> ('e, 's, 'a) opn \<Rightarrow> bool" where
  "preserves P m \<longleftrightarrow> (\<forall>s. P s \<longrightarrow> P (snd (m s)))"

lemma preservesD: "preserves P m \<Longrightarrow> P s \<Longrightarrow> P (snd (m s))"
  by (simp add: preserves_def)

lemma preservesI: "(\<And>s. P s \<Longrightarrow> P (snd (m s))) \<Longrightarrow> preserves P m"
  by (simp add: preserves_def)

lemma pres_basic [pres_intros]: "preserves P (ok x)" "preserves P (err e)"
  by (simp_all add: preserves_def)

lemma pres_andThen [pres_intros]:
  "preserves P m \<Longrightarrow> (\<And>x. preserves P (f x)) \<Longrightarrow> preserves P (andThen m f)"
  by (fastforce simp: preserves_def andThen_def split: prod.split sum.split dest: spec)

lemma pres_attempt [pres_intros]:
  "preserves P m \<Longrightarrow> (\<And>r. preserves P (f r)) \<Longrightarrow> preserves P (attempt m f)"
  by (fastforce simp: preserves_def attempt_def split: prod.split dest: spec)

lemma pres_cases [pres_intros]:
  "preserves P a \<Longrightarrow> preserves P b \<Longrightarrow> preserves P (if c then a else b)"
  "preserves P a \<Longrightarrow> (\<And>x. preserves P (f x)) \<Longrightarrow> preserves P (case_option a f v)"
  "(\<And>x. preserves P (g x)) \<Longrightarrow> (\<And>x. preserves P (h x)) \<Longrightarrow> preserves P (case_sum g h r)"
  "(\<And>x y. preserves P (k x y)) \<Longrightarrow> preserves P (case_prod k p)"
  "(\<And>r n. preserves P (l r n)) \<Longrightarrow> (\<And>r b. preserves P (m r b)) \<Longrightarrow> preserves P (case_retry_decision l m d)"
  by (auto split: option.split sum.split prod.split retry_decision.split)

lemma pres_let [pres_intros]: "(\<And>x. preserves P (f x)) \<Longrightarrow> preserves P (Let v f)"
  by (simp add: Let_def)

lemma pres_for_each [pres_intros]: "(\<And>x. preserves P (f x)) \<Longrightarrow> preserves P (for_each f xs)"
  by (induction xs) (auto intro: pres_intros)

lemma pres_discard [pres_intros]: "preserves P m \<Longrightarrow> preserves P (discard m)"
  by (simp add: preserves_def discard_def)

section \<open>The interface of an invariant\<close>

text \<open>What the counters and histograms may undergo: the recording operations.\<close>

definition recording :: "(metrics \<Rightarrow> metrics) \<Rightarrow> bool" where
  "recording f \<longleftrightarrow> (\<forall>m. metrics_ok m \<longrightarrow> metrics_ok (f m))"

lemma recording_ops [pres_intros]:
  "recording (record_turn_enqueued t)" "recording (record_turn_dispatched t w)"
  "recording (record_turn_terminal t out d)" "recording (record_retry t)"
  "recording (record_watchdog_reclaim t)" "recording (record_llm_tokens t model a b c)"
  by (simp_all add: recording_def metrics_ok_ops)

text \<open>
  Three interfaces, each for more operations: those that touch neither the registry nor the queue,
  then those that also tell a waiter, then all.
\<close>

locale orch_base =
  fixes P :: "'s orch \<Rightarrow> bool"
    and env :: "'s orch_env"
  assumes keep_store: "P ob \<Longrightarrow> P (ob\<lparr>oc_store := s\<rparr>)"
    and keep_ticks: "P ob \<Longrightarrow> P (ob\<lparr>oc_ticks := k\<rparr>)"
    and keep_clear: "P ob \<Longrightarrow> P (ob\<lparr>oc_retry_attempts := AList.delete key (oc_retry_attempts ob)\<rparr>)"
    and keep_decide: "P ob \<Longrightarrow> P (snd (decide_retry env tid n reason ob))"
    and keep_times: "P ob \<Longrightarrow> P (ob\<lparr>oc_dispatch_times := dt\<rparr>)"
    and keep_tokens: "P ob \<Longrightarrow> P (ob\<lparr>oc_tokens := tk\<rparr>)"
    and keep_jobs: "P ob \<Longrightarrow> P (ob\<lparr>oc_jobs := js\<rparr>)"
    and keep_result_ok: "P ob \<Longrightarrow> P (ob\<lparr>oc_last_result_ok := lr\<rparr>)"
    and keep_metrics: "P ob \<Longrightarrow> recording f \<Longrightarrow> P (ob\<lparr>oc_metrics := f (oc_metrics ob)\<rparr>)"
begin

lemma pres_primitive [pres_intros]:
  "preserves P (on_store f)"
  "preserves P (tick g)"
  "recording h \<Longrightarrow> preserves P (metric h)"
  "preserves P (take_dispatch_time key)"
  "preserves P (clear_retry tid n)"
  "preserves P (spawn j)"
  "preserves P (publish_token env tid n text)"
  "preserves P (decide_retry env tid n reason)"
  "preserves P (upd (\<lambda>ob. ob\<lparr>oc_dispatch_times := AList.update key now (oc_dispatch_times ob)\<rparr>))"
  "preserves P (upd (\<lambda>ob. ob\<lparr>oc_last_result_ok := v\<rparr>))"
proof -
  show "preserves P (on_store f)"
    by (rule preservesI) (simp add: on_store_def keep_store split: prod.split)
  show "preserves P (tick g)" "preserves P (take_dispatch_time key)" "preserves P (clear_retry tid n)"
    "preserves P (spawn j)"
    "preserves P (upd (\<lambda>ob. ob\<lparr>oc_dispatch_times := AList.update key now (oc_dispatch_times ob)\<rparr>))"
      "preserves P (upd (\<lambda>ob. ob\<lparr>oc_last_result_ok := v\<rparr>))"
    by (simp_all add: preserves_def tick_def take_dispatch_time_def clear_retry_def
        spawn_def upd_def keep_ticks keep_times keep_clear keep_jobs keep_result_ok)
  show "recording h \<Longrightarrow> preserves P (metric h)"
    by (simp add: preserves_def metric_def upd_def keep_metrics)
  show "preserves P (publish_token env tid n text)"
    by (simp add: preserves_def publish_token_def upd_def keep_tokens)
  show "preserves P (decide_retry env tid n reason)"
    by (simp add: preserves_def keep_decide)
qed

lemma pres_reads [pres_intros]:
  "preserves P (serve env sv)" "preserves P (resolve_task_type env tid)"
  "preserves P (task_type_or_unknown env tid)" "preserves P (elapsed env t)"
  "preserves P (set_dispatch_time env key)" "preserves P (get_cached_llm_responses env tid n)"
  unfolding serve_def resolve_task_type_def task_type_or_unknown_def elapsed_def set_dispatch_time_def
    get_cached_llm_responses_def
  by (intro pres_intros)+

lemma pres_dispatch [pres_intros]:
  "preserves P (dispatch_execute_turn env tid n ui rg c cached)"
  unfolding dispatch_execute_turn_def dispatch_execute_turn_with_ctx_def by (intro pres_intros)

lemma pres_dispatch_tries [pres_intros]:
  "preserves P m \<Longrightarrow> preserves P (dispatch_tries k env tries prev m)"
proof (induction k arbitrary: prev)
  case 0
  show ?case unfolding dispatch_tries.simps by (rule pres_basic)
next
  case (Suc k)
  show ?case unfolding dispatch_tries.simps by (intro pres_intros Suc)
qed

lemma pres_dispatch_with_retry [pres_intros]:
  "preserves P (dispatch_with_retry env tid n ui rg c cached)"
  unfolding dispatch_with_retry_def by (intro pres_intros)

lemma pres_terminal_metric [pres_intros]: "preserves P (record_turn_terminal_metric env tid n out)"
  unfolding record_turn_terminal_metric_def by (intro pres_intros)

lemma pres_start_new_turn [pres_intros]: "preserves P (start_new_turn env tid ui rgo)"
  unfolding start_new_turn_def by (intro pres_intros)

end

locale orch_frame = orch_base P env for P :: "'s orch \<Rightarrow> bool" and env +
  assumes keep_open:
      "P ob \<Longrightarrow> P (ob\<lparr>oc_registry := registry_step (OpStart tid n rg) (oc_registry ob)\<rparr>)"
    and keep_notify:
      "P ob \<Longrightarrow> P (ob\<lparr>oc_registry := registry_step (OpComplete tid outcome) (oc_registry ob)\<rparr>)"
begin

lemma pres_registry [pres_intros]:
  "preserves P (notify tid outcome)"
  "preserves P (open_turn tid n rg)"
proof -
  show "preserves P (notify tid outcome)"
    using keep_notify by (simp add: preserves_def notify_def upd_def)
  show "preserves P (open_turn tid n rg)"
  proof (rule preservesI)
    fix ob assume "P ob"
    then show "P (snd (open_turn tid n rg ob))"
      using keep_open [of ob tid n rg]
      by (cases "pending_turn_new tid n rg (oc_registry ob)") (simp add: open_turn_def)
  qed
qed

lemma pres_fail [pres_intros]: "preserves P (fail_task_with_reason env tid n reason et em)"
  unfolding fail_task_with_reason_def by (intro pres_intros)

lemma pres_retry_turn [pres_intros]: "preserves P (retry_turn env tid n ui rg c)"
  unfolding retry_turn_def by (intro pres_intros)

end

locale orch_invariant = orch_frame P env for P :: "'s orch \<Rightarrow> bool" and env +
  assumes keep_push: "P ob \<Longrightarrow> P (ob\<lparr>oc_dispatcher := snd (enqueue t (oc_dispatcher ob))\<rparr>)"
    and keep_pop: "P ob \<Longrightarrow> P (ob\<lparr>oc_dispatcher := snd (try_pop tt (oc_dispatcher ob))\<rparr>)"
    and keep_release: "P ob \<Longrightarrow> P (ob\<lparr>oc_dispatcher := on_turn_terminal tt (oc_dispatcher ob)\<rparr>)"
begin

lemma pres_queue [pres_intros]:
  "preserves P (pop_turn tt)"
  "preserves P (release_slot tt)"
  "preserves P (upd (\<lambda>ob. ob\<lparr>oc_dispatcher := snd (enqueue t (oc_dispatcher ob))\<rparr>))"
proof -
  show "preserves P (pop_turn tt)"
  proof (rule preservesI)
    fix ob assume "P ob"
    then show "P (snd (pop_turn tt ob))"
      using keep_pop [of ob tt] by (cases "try_pop tt (oc_dispatcher ob)") (simp add: pop_turn_def)
  qed
  show "preserves P (release_slot tt)"
    "preserves P (upd (\<lambda>ob. ob\<lparr>oc_dispatcher := snd (enqueue t (oc_dispatcher ob))\<rparr>))"
    by (simp_all add: preserves_def release_slot_def upd_def keep_release keep_push)
qed

lemma pres_dispatch_one [pres_intros]: "preserves P (dispatch_one env turn)"
  unfolding dispatch_one_def by (intro pres_intros)

lemma pres_dispatch_loop [pres_intros]: "preserves P (dispatch_loop k env tt)"
proof (induction k)
  case 0
  show ?case unfolding dispatch_loop.simps by (rule pres_basic)
next
  case (Suc k)
  show ?case unfolding dispatch_loop.simps by (intro pres_intros Suc)
qed

lemma pres_dispatch_pending [pres_intros]: "preserves P (dispatch_pending env tt)"
  by (rule preservesI) (simp only: dispatch_pending_def preservesD [OF pres_dispatch_loop])

lemma pres_release [pres_intros]:
  "preserves P (release_slot_and_redispatch env tid)"
  "preserves P (fail_turn_and_respond env tid n et em)"
  "preserves P (enqueue_and_dispatch env tid n ui rg c cached)"
  unfolding release_slot_and_redispatch_def fail_turn_and_respond_def enqueue_and_dispatch_def
  by (intro pres_intros)+

lemma pres_handlers [pres_intros]:
  "preserves P (handle_llm_chunk env tid n text)"
  "preserves P (handle_llm_completed env tid n st model a b c q)"
  "preserves P (handle_tool_invoked env tid no st tool call key inp q)"
  "preserves P (handle_tool_completed env tid no st call outp is_err q)"
  "preserves P (handle_tool_failed env tid no st call et em q)"
  "preserves P (handle_llm_invoked env tid no st model msgs q)"
  "preserves P (handle_llm_failed env tid no st et em q)"
  "preserves P (handle_turn_execution_done env tid n q outp')"
  "preserves P (handle_turn_execution_error env tid n et em)"
  unfolding handle_llm_chunk_def handle_llm_completed_def handle_tool_invoked_def
    handle_tool_completed_def handle_tool_failed_def handle_llm_invoked_def handle_llm_failed_def
    handle_turn_execution_done_def handle_turn_execution_error_def
  by (intro pres_intros)+

lemma pres_consumers [pres_intros]:
  "preserves P (lifecycle_record env rec)" "preserves P (result_record env rec)"
  unfolding lifecycle_record_def result_record_def when_usable_def by (intro pres_intros)+

lemma pres_consume [pres_intros]:
  "(\<And>rec. preserves P (handler rec)) \<Longrightarrow> preserves P (consume handler errors commits fs)"
  by (induction handler errors commits fs rule: consume.induct) (auto intro: pres_intros)

lemma pres_rejoin [pres_intros]:
  assumes "\<And>rec. preserves P (handler rec)"
  shows "preserves P (rejoin handler granted)"
proof (induction granted)
  case Nil
  show ?case unfolding rejoin.simps by (rule pres_basic(1))
next
  case (Cons ss granted)
  have "preserves P (run_session handler ss)"
    unfolding run_session_def by (intro pres_intros assms)
  with Cons show ?case unfolding rejoin.simps by (intro pres_intros)
qed

lemma pres_spawned_consumers:
  "preserves P (spawn_lifecycle_consumer env granted)" "preserves P (spawn_result_consumer env granted)"
  unfolding spawn_lifecycle_consumer_def spawn_result_consumer_def by (intro pres_intros)+

lemma pres_watchdog [pres_intros]:
  "preserves P (reclaim_turn env key)" "preserves P (reclaim_stale_turns env lease)"
proof -
  show r: "preserves P (reclaim_turn env key)" for key
    unfolding reclaim_turn_def by (intro pres_intros)
  have "preserves P (\<lambda>ob. andThen (for_each (reclaim_turn env) (f ob)) (\<lambda>_. ok (length (f ob))) ob)"
    for f :: "'s orch \<Rightarrow> string list"
  proof (rule preservesI)
    fix ob assume "P ob"
    then show "P (snd (andThen (for_each (reclaim_turn env) (f ob)) (\<lambda>_. ok (length (f ob))) ob))"
      by (rule preservesD [OF pres_andThen [OF pres_for_each [OF r] pres_basic(1)]])
  qed
  then show "preserves P (reclaim_stale_turns env lease)"
    unfolding reclaim_stale_turns_def Let_def by (intro pres_andThen pres_primitive)
qed

lemma pres_spawned_watchdog:
  "(\<And>f ob. f \<in> set ms \<Longrightarrow> P ob \<Longrightarrow> P (f ob)) \<Longrightarrow> preserves P (spawn_turn_watchdog env lease ms)"
proof (induction ms)
  case Nil
  show ?case unfolding spawn_turn_watchdog.simps by (rule pres_basic(1))
next
  case (Cons f ms)
  then have "preserves P (spawn_turn_watchdog env lease ms)" by simp
  then have "preserves P (andThen (reclaim_stale_turns env lease) (\<lambda>n.
      andThen (spawn_turn_watchdog env lease ms) (\<lambda>ns. ok (n # ns))))"
    by (intro pres_intros pres_watchdog)
  with Cons.prems show ?case by (auto intro!: preservesI dest: preservesD)
qed

lemma pres_start [pres_intros]:
  "preserves P (start_turn_async env tid ui rgo)"
  unfolding start_turn_async_def by (intro pres_intros)

end

text \<open>With a process around it that keeps the invariant too, the waits and the background jobs do.\<close>

locale orch_runtime = orch_invariant P env for P :: "'s orch \<Rightarrow> bool" and env +
  assumes others: "P ob \<Longrightarrow> P (oe_others env ch d ob)"
begin

lemma pres_await [pres_intros]: "preserves P (await_outcome env ch d)"
  by (simp add: preserves_def await_outcome_def Let_def others)

lemma pres_case_wait [pres_intros]:
  "(\<And>out. preserves P (g out)) \<Longrightarrow> preserves P a \<Longrightarrow> preserves P b \<Longrightarrow>
     preserves P (case_wait_result g a b w)"
  by (simp split: wait_result.split)

lemma pres_case_outcome [pres_intros]:
  "(\<And>x n c. preserves P (f x n c)) \<Longrightarrow> (\<And>n x y. preserves P (g n x y)) \<Longrightarrow> (\<And>n. preserves P (h n)) \<Longrightarrow>
     preserves P (case_turn_outcome f g h w)"
  by (simp split: turn_outcome.split)

lemma pres_more:
  assumes "preserves P m"
    and "\<And>k'. length ds - k' < length ds - k \<Longrightarrow> preserves P (again k')"
  shows "preserves P (if snd (next_remaining ds (k + 1) e) then m else again (k + 1))"
  using assms by (simp add: next_remaining_def Let_def)

lemma pres_wait_turn [pres_intros]: "preserves P (wait_turn env tid n ch ds start k)"
proof (induction "length ds - k" arbitrary: k rule: less_induct)
  case less
  show ?case
    by (subst wait_turn.simps)
      (intro pres_andThen pres_case_wait pres_reads pres_await pres_more pres_release pres_basic less)
qed

lemma pres_wait_redo [pres_intros]: "preserves P (wait_redo env tid n ch ds start k)"
proof (induction "length ds - k" arbitrary: k rule: less_induct)
  case less
  show ?case
    by (subst wait_redo.simps)
      (intro pres_andThen pres_case_wait pres_case_outcome pres_reads pres_await pres_more pres_release
        pres_discard pres_basic less)
qed

lemma pres_redo_turns [pres_intros]: "preserves P (redo_turns env tid a b cs)"
proof (induction cs arbitrary: a b)
  case Nil
  show ?case unfolding redo_turns.simps by (rule pres_basic)
next
  case (Cons c cs)
  show ?case unfolding redo_turns.simps redo_turn_def by (intro pres_intros Cons)
qed

lemma pres_jobs [pres_intros]:
  "preserves P (run_turn_to_completion env tid n ui rg)"
  "preserves P (background_recovery env tid)"
  "preserves P (execute_turn env tid ui rgo)"
proof -
  show r: "preserves P (run_turn_to_completion env tid n ui rg)" for n rg
    unfolding run_turn_to_completion_def by (intro pres_intros)
  show "preserves P (background_recovery env tid)"
    unfolding background_recovery_def by (intro pres_intros)
  show "preserves P (execute_turn env tid ui rgo)"
    unfolding execute_turn_def by (intro pres_intros r)
qed

lemma pres_run_job [pres_intros]: "preserves P (run_job env j)"
  by (cases j) (simp_all only: run_job.simps, (intro pres_intros)+)

end

section \<open>The process around a waiting caller\<close>

text \<open>
  What can happen to the process: a record of the lifecycle stream or of the results stream, a pass of
  the watchdog, an asynchronous start of a turn, a token, a health request. A schedule says which of
  these happen, in order, while a caller waits.
\<close>

datatype orch_event =
    EvLifecycle group_record
  | EvResult group_record
  | EvWatchdog nat
  | EvStart string string "string option"
  | EvToken string int string
  | EvHealth

fun handle_event :: "'s orch_env \<Rightarrow> orch_event \<Rightarrow> 's orch \<Rightarrow> 's orch" where
  "handle_event env (EvLifecycle rec) ob = snd (lifecycle_record env rec ob)"
| "handle_event env (EvResult rec) ob = snd (result_record env rec ob)"
| "handle_event env (EvWatchdog lease) ob = snd (reclaim_stale_turns env lease ob)"
| "handle_event env (EvStart tid user_input rg) ob = snd (start_turn_async env tid user_input rg ob)"
| "handle_event env (EvToken tid turn_id text) ob = snd (handle_llm_chunk env tid turn_id text ob)"
| "handle_event env EvHealth ob = snd (health env ob)"

definition with_schedule :: "(nat \<Rightarrow> nat \<Rightarrow> orch_event list) \<Rightarrow> 's orch_env \<Rightarrow> 's orch_env" where
  "with_schedule sched env = env\<lparr>oe_others := (\<lambda>ch d ob. fold (handle_event env) (sched ch d) ob)\<rparr>"

context orch_invariant
begin

lemma pres_health: "preserves P (health env)"
  using keep_ticks by (simp add: preserves_def health_def andThen_def tick_def)

lemma handle_event_keeps: "P ob \<Longrightarrow> P (handle_event env ev ob)"
  by (cases ev)
     (simp_all only: handle_event.simps preservesD [OF pres_consumers(1)] preservesD [OF pres_consumers(2)]
        preservesD [OF pres_watchdog(2)] preservesD [OF pres_start] preservesD [OF pres_handlers(1)]
        preservesD [OF pres_health])

lemma events_keep: "P ob \<Longrightarrow> P (fold (handle_event env) evs ob)"
  by (induction evs arbitrary: ob) (simp_all add: handle_event_keeps)

end

text \<open>
  The process as a transition system: an event, a spawned job the runtime picks up, or a blocking
  request that is served to its end.
\<close>

inductive orch_step ::
  "'s orch_env \<Rightarrow> (nat \<Rightarrow> nat \<Rightarrow> orch_event list) \<Rightarrow> 's orch \<Rightarrow> 's orch \<Rightarrow> bool"
  for env sched where
  event: "orch_step env sched ob (handle_event env ev ob)"
| job: "j \<in> set (oc_jobs ob) \<Longrightarrow>
    orch_step env sched ob
      (snd (run_job (with_schedule sched env) j (ob\<lparr>oc_jobs := remove1 j (oc_jobs ob)\<rparr>)))"
| request: "orch_step env sched ob (snd (execute_turn (with_schedule sched env) tid user_input rg ob))"

inductive_cases orch_stepE: "orch_step env sched ob ob'"

abbreviation reaches ::
  "'s orch_env \<Rightarrow> (nat \<Rightarrow> nat \<Rightarrow> orch_event list) \<Rightarrow> 's orch \<Rightarrow> 's orch \<Rightarrow> bool" where
  "reaches env sched \<equiv> (orch_step env sched)\<^sup>*\<^sup>*"

context orch_runtime
begin

lemma job_keeps: "P ob \<Longrightarrow> P (snd (run_job env j (ob\<lparr>oc_jobs := js\<rparr>)))"
  by (rule preservesD [OF pres_run_job]) (rule keep_jobs)

lemma request_keeps: "P ob \<Longrightarrow> P (snd (execute_turn env tid ui rg ob))"
  by (rule preservesD [OF pres_jobs(3)])

end

section \<open>The invariant of the orchestrator\<close>

definition within_capacity :: "nat \<Rightarrow> dispatcher \<Rightarrow> bool" where
  "within_capacity cap d \<longleftrightarrow> d_max_concurrent d = cap \<and> (\<forall>tt. in_flight tt d \<le> cap)"

lemma within_capacity_new: "within_capacity (max n 1) (dispatcher_new n)"
  by (simp add: within_capacity_def dispatcher_new_def in_flight_def)

lemma in_flight_try_pop:
  "in_flight tt' (snd (try_pop tt d)) \<le> max (in_flight tt' d) (d_max_concurrent d)"
  by (auto simp: try_pop_def in_flight_def hash_lookup_update split: option.split)

lemma within_capacity_ops [inv_intros]:
  assumes "within_capacity cap d"
  shows "within_capacity cap (snd (enqueue t d))" "within_capacity cap (snd (try_pop tt d))"
    "within_capacity cap (on_turn_terminal tt d)"
proof -
  show "within_capacity cap (snd (enqueue t d))"
    using assms by (simp add: within_capacity_def)
  have "in_flight tt' (snd (try_pop tt d)) \<le> cap" for tt'
  proof -
    have "in_flight tt' d \<le> cap" using assms by (simp add: within_capacity_def)
    with in_flight_try_pop [of tt' tt d] assms show ?thesis by (simp add: within_capacity_def)
  qed
  with assms show "within_capacity cap (snd (try_pop tt d))" by (simp add: within_capacity_def)
  show "within_capacity cap (on_turn_terminal tt d)"
    using assms
    by (auto simp: within_capacity_def in_flight_on_turn_terminal intro: le_trans [OF diff_le_self])
qed

text \<open>
  The counters of the retry budget stay within it. The budget is an \<open>i32\<close>.
\<close>

definition budget_ok :: "retry_policy \<Rightarrow> (string \<times> int) list \<Rightarrow> bool" where
  "budget_ok pol m \<longleftrightarrow> (in_i32 (max_attempts pol) \<longrightarrow> snd ` set m \<subseteq> {1..max_attempts pol})"

lemma set_delete_subset: "set (AList.delete k m) \<subseteq> set m"
  by (simp add: AList.delete_eq)

lemma set_update_subset: "set (AList.update k v m) \<subseteq> insert (k, v) (set m)"
  by (induction m) auto

lemma budget_ok_delete: "budget_ok pol m \<Longrightarrow> budget_ok pol (AList.delete k m)"
  using set_delete_subset [of k m] by (fastforce simp: budget_ok_def)

lemma budget_ok_decide:
  assumes "budget_ok (oe_retry_policy env) (oc_retry_attempts ob)"
  shows "budget_ok (oe_retry_policy env) (oc_retry_attempts (snd (decide_retry env tid n reason ob)))"
proof -
  let ?pol = "oe_retry_policy env" and ?m = "oc_retry_attempts ob" and ?k = "turn_key tid n"
  let ?c = "unwrap_or 0 (map_of ?m ?k)"
  show ?thesis
  proof (cases "decide ?pol reason ?c")
    case (Retry r' c')
    then have lt: "?c < max_attempts ?pol" by (simp add: decide_Retry_iff)
    have "budget_ok ?pol (AList.update ?k (add_i32 ?c 1) ?m)"
      unfolding budget_ok_def
    proof
      assume i: "in_i32 (max_attempts ?pol)"
      with assms have m: "snd ` set ?m \<subseteq> {1..max_attempts ?pol}" by (simp add: budget_ok_def)
      have "0 \<le> ?c"
      proof (cases "map_of ?m ?k")
        case None
        then show ?thesis by simp
      next
        case (Some v)
        then have "v \<in> snd ` set ?m" by (force dest: map_of_SomeD)
        with m Some show ?thesis by auto
      qed
      with next_redo_exact [OF i this lt] lt have "add_i32 ?c 1 \<in> {1..max_attempts ?pol}" by simp
      with m set_update_subset [of ?k "add_i32 ?c 1" ?m]
      show "snd ` set (AList.update ?k (add_i32 ?c 1) ?m) \<subseteq> {1..max_attempts ?pol}" by fastforce
    qed
    with Retry show ?thesis by (simp add: decide_retry_def Let_def)
  next
    case (Fail r' b)
    with budget_ok_delete [OF assms] show ?thesis by (simp add: decide_retry_def Let_def)
  qed
qed

lemma decide_retry_keeps [simp]:
  "oc_dispatcher (snd (decide_retry env tid n reason ob)) = oc_dispatcher ob"
  "oc_registry (snd (decide_retry env tid n reason ob)) = oc_registry ob"
  "oc_metrics (snd (decide_retry env tid n reason ob)) = oc_metrics ob"
  "oc_last_dispatch_ok (snd (decide_retry env tid n reason ob)) = oc_last_dispatch_ok ob"
  by (simp_all add: decide_retry_def Let_def)

text \<open>\<open>lo\<close> bounds the channels handed out from below, so that a caller's channel stays known.\<close>

definition orch_ok :: "retry_policy \<Rightarrow> nat \<Rightarrow> nat \<Rightarrow> 's orch \<Rightarrow> bool" where
  "orch_ok pol cap lo ob \<longleftrightarrow> budget_ok pol (oc_retry_attempts ob) \<and> within_capacity cap (oc_dispatcher ob) \<and> registry_ok (oc_registry ob) \<and>
     lo \<le> tg_next_channel (oc_registry ob) \<and> metrics_ok (oc_metrics ob) \<and>
     oc_last_dispatch_ok ob = None"

lemma orch_ok_new: "orch_ok pol (max n 1) 0 (orchestrator_new s n)"
  using within_capacity_new [of n] by (simp add: orch_ok_def orchestrator_new_def budget_ok_def)

lemma registry_step_next: "tg_next_channel r \<le> tg_next_channel (registry_step x r)"
  by (cases x)
     (auto simp: pending_turn_new_def register_pending_turn_def complete_pending_turn_def
        take_pending_turn_def send_def Let_def split: option.split)

interpretation ok: orch_invariant "orch_ok (oe_retry_policy env) cap lo :: 's orch \<Rightarrow> bool" env for cap lo env
proof
  fix ob :: "'s orch" and f
  assume "orch_ok (oe_retry_policy env) cap lo ob" "recording f"
  then show "orch_ok (oe_retry_policy env) cap lo (ob\<lparr>oc_metrics := f (oc_metrics ob)\<rparr>)"
    by (simp add: orch_ok_def recording_def)
next
  fix ob :: "'s orch" and tid outcome
  assume "orch_ok (oe_retry_policy env) cap lo ob"
  then show "orch_ok (oe_retry_policy env) cap lo (ob\<lparr>oc_registry := registry_step (OpComplete tid outcome) (oc_registry ob)\<rparr>)"
    using registry_step_ok le_trans [OF _ registry_step_next] by (auto simp: orch_ok_def simp del: registry_step.simps)
next
  fix ob :: "'s orch" and tid n rg
  assume "orch_ok (oe_retry_policy env) cap lo ob"
  then show "orch_ok (oe_retry_policy env) cap lo (ob\<lparr>oc_registry := registry_step (OpStart tid n rg) (oc_registry ob)\<rparr>)"
    using registry_step_ok le_trans [OF _ registry_step_next] by (auto simp: orch_ok_def simp del: registry_step.simps)
qed (simp_all add: orch_ok_def within_capacity_ops budget_ok_delete budget_ok_decide)

lemma retry_policy_with_schedule [simp]:
  "oe_retry_policy (with_schedule sched env) = oe_retry_policy env"
  by (simp add: with_schedule_def)

interpretation ok_rt: orch_runtime "orch_ok (oe_retry_policy env) cap lo :: 's orch \<Rightarrow> bool"
  "with_schedule sched env" for cap lo sched env
  using ok.orch_invariant_axioms [where env = "with_schedule sched env"]
  by (auto simp: orch_runtime_def orch_runtime_axioms_def with_schedule_def ok.events_keep)

lemma orch_step_ok:
  "orch_step env sched ob ob' \<Longrightarrow> orch_ok (oe_retry_policy env) cap lo ob \<Longrightarrow>
     orch_ok (oe_retry_policy env) cap lo ob'"
  by (erule orch_stepE) (simp_all only: ok.handle_event_keeps ok_rt.job_keeps ok_rt.request_keeps)

lemma reaches_ok:
  "reaches env sched ob ob' \<Longrightarrow> orch_ok (oe_retry_policy env) cap lo ob \<Longrightarrow>
     orch_ok (oe_retry_policy env) cap lo ob'"
  by (induction rule: rtranclp_induct) (auto intro: orch_step_ok)

end
