(* ===== verification/Projection_Cache.thy ===== *)
theory Projection_Cache
  imports Projection
begin

text \<open>
  \<open>src/projection.rs\<close>, second part: the LRU cache of projections and the catch-up that builds a
  projection by consuming the task's stream to its end. The broker's side of a consume session (the
  assigned shards, the frames with the instant each is read, whether joining, opening and leaving
  succeed) is the environment's input; a stream that ends or times out is the end of the list of
  frames.
\<close>

section \<open>The LRU map\<close>

record projection_cache =
  pc_map :: "(string \<times> task_projection) list"
  pc_order :: "string list"
  pc_cap :: nat

definition cache_new :: "nat \<Rightarrow> projection_cache" where
  "cache_new capacity = \<lparr>pc_map = [], pc_order = [], pc_cap = capacity\<rparr>"

definition cache_get :: "string \<Rightarrow> projection_cache \<Rightarrow> task_projection option \<times> projection_cache" where
  "cache_get tid c =
     (case map_of (pc_map c) tid of
        None \<Rightarrow> (None, c)
      | Some p \<Rightarrow> (Some p, c\<lparr>pc_order := removeAll tid (pc_order c) @ [tid]\<rparr>))"

definition cache_invalidate :: "string \<Rightarrow> projection_cache \<Rightarrow> projection_cache" where
  "cache_invalidate tid c =
     c\<lparr>pc_map := AList.delete tid (pc_map c), pc_order := removeAll tid (pc_order c)\<rparr>"

text \<open>A write through the shared reference \<open>get\<close> returned.\<close>

definition cache_put :: "string \<Rightarrow> task_projection \<Rightarrow> projection_cache \<Rightarrow> projection_cache" where
  "cache_put tid p c = c\<lparr>pc_map := AList.update tid p (pc_map c)\<rparr>"

fun evict ::
  "nat \<Rightarrow> (string \<times> task_projection) list \<Rightarrow> string list \<Rightarrow> (string \<times> task_projection) list \<times> string list" where
  "evict cap m [] = (m, [])"
| "evict cap m (old # rest) =
     (if length (old # rest) > cap then evict cap (AList.delete old m) rest else (m, old # rest))"

definition cache_push :: "string \<Rightarrow> projection_cache \<Rightarrow> projection_cache" where
  "cache_push tid c =
     (case evict (pc_cap c) (pc_map c) (pc_order c @ [tid]) of
        (m, order) \<Rightarrow> c\<lparr>pc_map := m, pc_order := order\<rparr>)"

section \<open>Catching up\<close>

datatype frame = FrRecord record_frame | FrCaughtUp nat | FrOther

record session =
  ss_join :: "string + nat list"     \<comment> \<open>the assigned shards\<close>
  ss_open :: "string + unit"
  ss_frames :: "(int \<times> (string + frame)) list"
  ss_leave :: "string + unit"

fun drain ::
  "codec \<Rightarrow> nat list \<Rightarrow> nat list \<Rightarrow> (int \<times> (string + frame)) list \<Rightarrow> task_projection
    \<Rightarrow> (string + unit) \<times> task_projection" where
  "drain cd shards caught [] p = (Inr (), p)"
| "drain cd shards caught ((now, Inl e) # fs) p = (Inl e, p)"
| "drain cd shards caught ((now, Inr f) # fs) p =
     (let (caught, p) =
            (case f of
               FrRecord r \<Rightarrow> (caught, apply_record cd (now, r) p)
             | FrCaughtUp sh \<Rightarrow> (List.insert sh caught, p)
             | FrOther \<Rightarrow> (caught, p))
      in if set caught = set shards then (Inr (), p) else drain cd shards caught fs p)"

definition catch_up ::
  "codec \<Rightarrow> int \<Rightarrow> session \<Rightarrow> string \<Rightarrow> (string, projection_cache, task_projection) opn" where
  "catch_up cd now ss tid c =
     (case ss_join ss of
        Inl e \<Rightarrow> (Inl e, c)
      | Inr shards \<Rightarrow>
          (case ss_open ss of
             Inl e \<Rightarrow> (Inl e, c)
           | Inr _ \<Rightarrow>
               let p = unwrap_or (projection_new now tid) (map_of (pc_map c) tid)
               in (case drain cd shards [] (ss_frames ss) p of
                     (Inl e, p') \<Rightarrow> (Inl e, cache_put tid p' c)
                   | (Inr _, p') \<Rightarrow>
                       (case ss_leave ss of
                          Inl e \<Rightarrow> (Inl e, cache_put tid p' c)
                        | Inr _ \<Rightarrow> (Inr p', cache_push tid (cache_put tid p' c))))))"

section \<open>The cache invariant\<close>

text \<open>
  Keys and order have no duplicates, and whatever is ordered is in the map. The converse fails: a
  catch-up that breaks off leaves its entry in the map, unordered.
\<close>

definition cache_ok :: "projection_cache \<Rightarrow> bool" where
  "cache_ok c \<longleftrightarrow> hash_wf (pc_map c) \<and> distinct (pc_order c) \<and>
     set (pc_order c) \<subseteq> fst ` set (pc_map c)"

lemma in_keys_iff: "k \<in> fst ` set m \<longleftrightarrow> map_of m k \<noteq> None"
  by (simp add: map_of_eq_None_iff)

lemma keys_update [simp]: "fst ` set (AList.update k v m) = insert k (fst ` set m)"
  using dom_update [of k v m] by (simp add: dom_map_of_conv_image_fst)

lemma keys_delete [simp]: "fst ` set (AList.delete k m) = fst ` set m - {k}"
  by (auto simp: AList.delete_eq)

lemma cache_ok_new [simp, inv_intros]: "cache_ok (cache_new n)"
  by (simp add: cache_ok_def cache_new_def)

lemma cache_ok_put [inv_intros]: "cache_ok c \<Longrightarrow> cache_ok (cache_put tid p c)"
  by (auto simp: cache_ok_def cache_put_def)

lemma cache_ok_invalidate [inv_intros]: "cache_ok c \<Longrightarrow> cache_ok (cache_invalidate tid c)"
  by (auto simp: cache_ok_def cache_invalidate_def distinct_removeAll)

lemma cache_ok_get [inv_intros]: "cache_ok c \<Longrightarrow> cache_ok (snd (cache_get tid c))"
  by (auto simp: cache_ok_def cache_get_def distinct_removeAll in_keys_iff split: option.split)

lemma cache_get_result [simp]: "fst (cache_get tid c) = map_of (pc_map c) tid"
  by (simp add: cache_get_def split: option.split)

lemma cache_get_map [simp]: "pc_map (snd (cache_get tid c)) = pc_map c"
  by (simp add: cache_get_def split: option.split)

lemma cache_get_cap [simp]: "pc_cap (snd (cache_get tid c)) = pc_cap c"
  by (simp add: cache_get_def split: option.split)

lemma evict_spec:
  assumes "evict cap m order = (m', order')"
  shows "order' = drop (length order - cap) order"
    and "m' = fold AList.delete (take (length order - cap) order) m"
  using assms
  by (induction cap m order arbitrary: m' order' rule: evict.induct)
     (auto simp: Suc_diff_le split: if_splits)

lemma fold_delete_keys: "fst ` set (fold AList.delete ks m) = fst ` set m - set ks"
  by (induction ks arbitrary: m) auto

lemma fold_delete_lookup: "map_of (fold AList.delete ks m) k = (if k \<in> set ks then None else map_of m k)"
  by (induction ks arbitrary: m) (auto simp: hash_lookup_delete)

lemma fold_delete_wf: "hash_wf m \<Longrightarrow> hash_wf (fold AList.delete ks m)"
  by (induction ks arbitrary: m) simp_all

text \<open>
  Pushing an id that is in the map and not in the order keeps the invariant, brings the order within
  the capacity and, when the capacity is not zero, keeps the pushed entry.
\<close>

lemma cache_push_ok:
  assumes "cache_ok c" "tid \<in> fst ` set (pc_map c)" "tid \<notin> set (pc_order c)"
  shows "cache_ok (cache_push tid c)" "length (pc_order (cache_push tid c)) \<le> pc_cap c"
    "0 < pc_cap c \<Longrightarrow> map_of (pc_map (cache_push tid c)) tid = map_of (pc_map c) tid"
proof -
  let ?o = "pc_order c @ [tid]"
  let ?n = "length ?o - pc_cap c"
  obtain m order where e: "evict (pc_cap c) (pc_map c) ?o = (m, order)" by fastforce
  note spec = evict_spec [OF e]
  have d: "distinct ?o" using assms by (auto simp: cache_ok_def)
  then have disj: "set (take ?n ?o) \<inter> set (drop ?n ?o) = {}"
    by (rule set_take_disj_set_drop_if_distinct) simp
  have sub: "set (drop ?n ?o) \<subseteq> fst ` set (pc_map c)"
    using assms set_drop_subset [of ?n ?o] by (auto simp: cache_ok_def)
  show "cache_ok (cache_push tid c)"
    using assms d disj sub
    by (auto simp: cache_ok_def cache_push_def e spec fold_delete_wf fold_delete_keys
        simp del: drop_append take_append length_append)
  show "length (pc_order (cache_push tid c)) \<le> pc_cap c"
    by (simp add: cache_push_def e spec del: drop_append)
  assume "0 < pc_cap c"
  then have "?n \<le> length (pc_order c)" by simp
  then have "take ?n ?o = take ?n (pc_order c)" by simp
  then have "tid \<notin> set (take ?n ?o)"
    using assms(3) by (metis in_set_takeD)
  then show "map_of (pc_map (cache_push tid c)) tid = map_of (pc_map c) tid"
    by (simp add: cache_push_def e spec fold_delete_lookup del: take_append)
qed

section \<open>What catching up gives\<close>

text \<open>
  The frames a drain consumes: up to the first error, or to the frame that completes the set of
  shards that have caught up.
\<close>

fun drained :: "nat list \<Rightarrow> nat list \<Rightarrow> (int \<times> (string + frame)) list \<Rightarrow> (int \<times> record_frame) list" where
  "drained shards caught [] = []"
| "drained shards caught ((now, Inl e) # fs) = []"
| "drained shards caught ((now, Inr f) # fs) =
     (let recs = (case f of FrRecord r \<Rightarrow> [(now, r)] | _ \<Rightarrow> []);
          caught = (case f of FrCaughtUp sh \<Rightarrow> List.insert sh caught | _ \<Rightarrow> caught)
      in if set caught = set shards then recs else recs @ drained shards caught fs)"

lemma drain_replay:
  "snd (drain cd shards caught fs p) = replay cd (drained shards caught fs) p"
  by (induction cd shards caught fs p rule: drain.induct)
     (auto simp: Let_def replay_def split: frame.split)

lemma drain_task_id: "tp_task_id (replay cd recs p) = tp_task_id p"
proof -
  have "tp_task_id (fold (apply_ae cd) evs q) = tp_task_id q" for evs q
    by (induction evs arbitrary: q) simp_all
  then show ?thesis by (simp add: replay_events)
qed

lemma catch_up_cases:
  assumes "catch_up cd now ss tid c = (r, c')"
  obtains "c' = c" "\<exists>e. r = Inl e"
  | p where "c' = cache_put tid p c" "\<exists>e. r = Inl e"
  | shards p where "ss_join ss = Inr shards"
      "p = replay cd (drained shards [] (ss_frames ss))
             (unwrap_or (projection_new now tid) (map_of (pc_map c) tid))"
      "c' = cache_push tid (cache_put tid p c)" "r = Inr p"
proof (cases "ss_join ss")
  case (Inl e)
  with assms show ?thesis by (intro that(1)) (auto simp: catch_up_def)
next
  case (Inr shards)
  let ?p = "unwrap_or (projection_new now tid) (map_of (pc_map c) tid)"
  obtain d p' where d: "drain cd shards [] (ss_frames ss) ?p = (d, p')" by fastforce
  then have p': "p' = replay cd (drained shards [] (ss_frames ss)) ?p"
    by (metis drain_replay snd_conv)
  note def = catch_up_def [of cd now ss tid c, simplified Inr sum.case Let_def d prod.case]
  show ?thesis
  proof (cases "ss_open ss")
    case (Inl e)
    with assms show ?thesis by (intro that(1)) (auto simp: def)
  next
    case o: (Inr u)
    show ?thesis
    proof (cases "(\<exists>e. d = Inl e) \<or> (\<exists>e. ss_leave ss = Inl e)")
      case True
      with assms o show ?thesis
        by (intro that(2) [of p']) (auto simp: def split: sum.splits)
    next
      case False
      then obtain u v where "d = Inr u" "ss_leave ss = Inr v"
        by (meson sumE)
      with assms o show ?thesis
        by (intro that(3) [OF Inr p']) (auto simp: def)
    qed
  qed
qed

lemma catch_up_ok [inv_intros]:
  assumes "cache_ok c" "map_of (pc_map c) tid = None" "catch_up cd now ss tid c = (r, c')"
  shows "cache_ok c'"
  using assms(3)
proof (cases rule: catch_up_cases)
  case 1
  with assms show ?thesis by simp
next
  case (2 p)
  with assms show ?thesis by (simp add: cache_ok_put)
next
  case (3 shards p)
  have "tid \<notin> set (pc_order c)"
    using assms(1,2) in_keys_iff [of tid "pc_map c"] by (auto simp: cache_ok_def)
  with 3 assms(1) show ?thesis
    by (auto simp: cache_put_def intro!: cache_push_ok cache_ok_put [unfolded cache_put_def])
qed

lemma catch_up_caches_lookup:
  assumes "cache_ok c" "map_of (pc_map c) tid = None" "0 < pc_cap c"
    and "catch_up cd now ss tid c = (Inr p, c')"
  shows "map_of (pc_map c') tid = Some p"
  using assms(4)
proof (cases rule: catch_up_cases)
  case (3 shards q)
  have "tid \<notin> set (pc_order c)"
    using assms(1,2) in_keys_iff [of tid "pc_map c"] by (auto simp: cache_ok_def)
  then have "cache_ok (cache_put tid p c)" "tid \<in> fst ` set (pc_map (cache_put tid p c))"
      "tid \<notin> set (pc_order (cache_put tid p c))" "0 < pc_cap (cache_put tid p c)"
    using assms by (auto simp: cache_put_def intro: cache_ok_put [unfolded cache_put_def])
  from cache_push_ok(3) [OF this] 3 show ?thesis
    by (simp add: cache_put_def hash_lookup_update)
qed auto

section \<open>Properties\<close>

text \<open>
  C16. A catch-up that succeeds on an id the cache does not hold returns, and caches, the replay of the
  records of the task's stream up to where all assigned shards have caught up, keeps the cache's
  invariant, brings the order within the capacity, and leaves the entry in the cache: the lookup that
  follows it always finds one.
\<close>

theorem catch_up_caches_replay:
  assumes "cache_ok c" "map_of (pc_map c) tid = None" "0 < pc_cap c"
    and "catch_up cd now ss tid c = (Inr p, c')"
  shows "\<exists>shards. ss_join ss = Inr shards \<and>
      p = replay cd (drained shards [] (ss_frames ss)) (projection_new now tid) \<and>
      cache_ok c' \<and> length (pc_order c') \<le> pc_cap c' \<and> fst (cache_get tid c') = Some p"
  using assms(4)
proof (cases rule: catch_up_cases)
  case (3 shards q)
  have n: "tid \<notin> set (pc_order c)"
    using assms(1,2) in_keys_iff [of tid "pc_map c"] by (auto simp: cache_ok_def)
  let ?c = "cache_put tid p c"
  have "cache_ok ?c" "tid \<in> fst ` set (pc_map ?c)" "tid \<notin> set (pc_order ?c)" "0 < pc_cap ?c"
    using assms n by (auto simp: cache_put_def intro: cache_ok_put [unfolded cache_put_def])
  from cache_push_ok [OF this(1-3)] this(4) 3 assms(2) show ?thesis
    by (auto simp: cache_put_def cache_push_def update_conv' split: prod.splits)
qed auto

theorem catch_up_caches_replay_witness:
  "fst (catch_up (sample_codec JNull) 0
     \<lparr>ss_join = Inr [0], ss_open = Inr (),
      ss_frames = [(1, Inr (FrRecord (snd (sample_record 1 TaskCreated [])))), (2, Inr (FrCaughtUp 0))],
      ss_leave = Inr ()\<rparr> ''t'' (cache_new 2)) \<noteq> Inl [] \<and>
   fst (cache_get ''t'' (snd (catch_up (sample_codec JNull) 0
     \<lparr>ss_join = Inr [0], ss_open = Inr (),
      ss_frames = [(1, Inr (FrRecord (snd (sample_record 1 TaskCreated [])))), (2, Inr (FrCaughtUp 0))],
      ss_leave = Inr ()\<rparr> ''t'' (cache_new 2)))) \<noteq> None"
  using catch_up_caches_replay [OF cache_ok_new [of 2], of "''t''" "sample_codec JNull" 0
     "\<lparr>ss_join = Inr [0], ss_open = Inr (),
      ss_frames = [(1, Inr (FrRecord (snd (sample_record 1 TaskCreated [])))), (2, Inr (FrCaughtUp 0))],
      ss_leave = Inr ()\<rparr>"]
  by (simp add: cache_new_def catch_up_def Let_def cache_put_def cache_push_def)

text \<open>
  A catch-up that breaks off after some records, because the stream reports an error, leaves the
  partial projection in the cache, where the next lookup takes it for the whole.
\<close>

theorem failed_catch_up_is_a_hit:
  assumes "map_of (pc_map c) tid = None" "ss_join ss = Inr shards" "ss_open ss = Inr ()"
    "fst (drain cd shards [] (ss_frames ss) (projection_new now tid)) = Inl e"
  shows "fst (catch_up cd now ss tid c) = Inl e \<and>
    fst (cache_get tid (snd (catch_up cd now ss tid c))) =
      Some (replay cd (drained shards [] (ss_frames ss)) (projection_new now tid))"
proof -
  obtain p where p: "drain cd shards [] (ss_frames ss) (projection_new now tid) = (Inl e, p)"
    using assms(4) by (metis prod.collapse)
  then have "p = replay cd (drained shards [] (ss_frames ss)) (projection_new now tid)"
    by (metis drain_replay snd_conv)
  with p assms show ?thesis
    by (simp add: catch_up_def cache_put_def update_conv')
qed

theorem failed_catch_up_is_a_hit_witness:
  "fst (cache_get ''t'' (snd (catch_up (sample_codec JNull) 0
     \<lparr>ss_join = Inr [0], ss_open = Inr (),
      ss_frames = [(1, Inr (FrRecord (snd (sample_record 1 TaskCreated [])))), (2, Inl ''reset'')],
      ss_leave = Inr ()\<rparr> ''t'' (cache_new 2)))) \<noteq> None"
  using failed_catch_up_is_a_hit [of "cache_new 2" "''t''"
     "\<lparr>ss_join = Inr [0], ss_open = Inr (),
      ss_frames = [(1, Inr (FrRecord (snd (sample_record 1 TaskCreated [])))), (2, Inl ''reset'')],
      ss_leave = Inr ()\<rparr>" "[0]" "sample_codec JNull" 0 "''reset''"]
  by (simp add: cache_new_def)

end
