(* ===== verification/Broker_Store.thy ===== *)
theory Broker_Store
  imports Projection_Cache Recovery Context_Builder
begin

text \<open>
  \<open>src/broker_store.rs\<close>: the production event store. Writes go to the broker as one record per
  event, reads go to the projection of the task, caught up on first use. The broker is a service the
  program only calls: it is a record of functions over an arbitrary world \<open>'w\<close>, which also holds the
  clock and the source of ids. An operation runs on the world and the projection cache.
\<close>

section \<open>The broker as the program sees it\<close>

record produce_request =
  pq_namespace :: string
  pq_stream :: string
  pq_event_type :: string
  pq_timestamp_ns :: int
  pq_content_type :: string
  pq_metadata :: metadata
  pq_content :: string
  pq_shard_key :: "string option"

record 'w broker =
  br_produce :: "produce_request \<Rightarrow> 'w \<Rightarrow> (string + int \<times> int) \<times> 'w"
  br_batch_produce :: "produce_request list \<Rightarrow> 'w \<Rightarrow> (string + (int \<times> int) list) \<times> 'w"
  br_consume :: "string \<Rightarrow> string \<Rightarrow> string \<Rightarrow> string \<Rightarrow> 'w \<Rightarrow> session \<times> 'w"
    \<comment> \<open>namespace, stream, group, consumer\<close>
  br_now :: "'w \<Rightarrow> int \<times> 'w"
  br_uuid :: "'w \<Rightarrow> string \<times> 'w"

record 'w store_env =
  se_broker :: "'w broker"
  se_codec :: codec
  se_namespace :: string
  se_region :: "string option"      \<comment> \<open>the variable \<open>SANDBOX_REGION\<close>\<close>
  se_events_iter :: "(int \<times> agent_event) iter"
  se_turns_iter :: "int iter"
  se_steps_iter :: "(string \<times> int \<times> agent_event) iter"
  se_stats_iter :: "(string \<times> token_usage_stats) iter"
  se_alphanumeric :: "string \<Rightarrow> bool"   \<comment> \<open>beyond ASCII\<close>

record 'w store =
  st_world :: 'w
  st_cache :: projection_cache

type_synonym ('w, 'a) store_op = "(app_error, 'w store, 'a) opn"

definition now_op :: "'w store_env \<Rightarrow> ('w, int) store_op" where
  "now_op env s = (case br_now (se_broker env) (st_world s) of (n, w) \<Rightarrow> (Inr n, s\<lparr>st_world := w\<rparr>))"

definition uuid_op :: "'w store_env \<Rightarrow> ('w, string) store_op" where
  "uuid_op env s =
     (case br_uuid (se_broker env) (st_world s) of
        (u, w) \<Rightarrow> (Inr (filter (\<lambda>c. c \<noteq> CHR ''-'') u), s\<lparr>st_world := w\<rparr>))"

definition produce_op :: "'w store_env \<Rightarrow> string \<Rightarrow> produce_request \<Rightarrow> ('w, int \<times> int) store_op" where
  "produce_op env what req s =
     (case br_produce (se_broker env) req (st_world s) of
        (Inl e, w) \<Rightarrow> (Inl (Internal (what @ e)), s\<lparr>st_world := w\<rparr>)
      | (Inr r, w) \<Rightarrow> (Inr r, s\<lparr>st_world := w\<rparr>))"

definition get_op :: "string \<Rightarrow> ('w, task_projection option) store_op" where
  "get_op tid s = (case cache_get tid (st_cache s) of (r, c) \<Rightarrow> (Inr r, s\<lparr>st_cache := c\<rparr>))"

definition put_op :: "string \<Rightarrow> task_projection \<Rightarrow> ('w, unit) store_op" where
  "put_op tid p s = (Inr (), s\<lparr>st_cache := cache_put tid p (st_cache s)\<rparr>)"

text \<open>\<open>chrono::Utc::now().timestamp_nanos_opt().unwrap_or(0) as u64\<close>.\<close>

definition timestamp_ns :: "int \<Rightarrow> int" where
  "timestamp_ns now = (if in_i64 now then now else 0) mod 2 ^ 64"

section \<open>Records\<close>

definition event_meta :: "agent_event \<Rightarrow> metadata" where
  "event_meta e =
     [(''task_id'', ae_task_id e)]
     @ (case ae_turn_id e of None \<Rightarrow> [] | Some tid \<Rightarrow> [(''turn_id'', show_int tid)])
     @ (case ae_step_id e of None \<Rightarrow> [] | Some sid \<Rightarrow> [(''step_id'', sid)])
     @ [(''event_type'', event_type_as_str (ae_event_type e))]"

definition tenant_policy_stream :: "(string \<Rightarrow> bool) \<Rightarrow> string \<Rightarrow> string" where
  "tenant_policy_stream table tenant_id =
     ''tenant-policy-'' @
     concat (map (\<lambda>c. if is_alphanumeric table c \<or> c = ''-'' \<or> c = ''_'' \<or> c = ''.'' then c else ''-'')
       (utf8_chars tenant_id))"

definition event_request :: "'w store_env \<Rightarrow> agent_event \<Rightarrow> int \<Rightarrow> produce_request" where
  "event_request env e ts =
     \<lparr>pq_namespace = se_namespace env, pq_stream = ae_task_id e,
      pq_event_type = event_type_as_str (ae_event_type e), pq_timestamp_ns = ts,
      pq_content_type = ''application/json'', pq_metadata = event_meta e,
      pq_content = to_vec (se_codec env) (ae_payload e), pq_shard_key = Some (ae_task_id e)\<rparr>"

section \<open>Reading through the projection\<close>

definition ensure_projection :: "'w store_env \<Rightarrow> string \<Rightarrow> ('w, unit) store_op" where
  "ensure_projection env tid =
     andThen (get_op tid) (\<lambda>hit.
       if hit \<noteq> None then ok ()
       else (\<lambda>s.
         case br_consume (se_broker env) (se_namespace env) tid ''fixus-reads'' ''singleton'' (st_world s) of
           (ss, w) \<Rightarrow>
             (case br_now (se_broker env) w of
                (now, w) \<Rightarrow>
                  (case catch_up (se_codec env) now ss tid (st_cache s) of
                     (Inl e, c) \<Rightarrow> (Inl (Internal (''broker: '' @ e)), s\<lparr>st_world := w, st_cache := c\<rparr>)
                   | (Inr _, c) \<Rightarrow> (Inr (), s\<lparr>st_world := w, st_cache := c\<rparr>)))))"

definition with_projection ::
  "'w store_env \<Rightarrow> string \<Rightarrow> (task_projection \<Rightarrow> 'a) \<Rightarrow> ('w, 'a) store_op" where
  "with_projection env tid f =
     andThen (ensure_projection env tid) (\<lambda>_.
       andThen (get_op tid) (\<lambda>hit. case hit of None \<Rightarrow> err panic | Some p \<Rightarrow> ok (f p)))"

text \<open>The newest record of a small stream, read through a consumer group of its own.\<close>

fun scan_latest ::
  "nat list \<Rightarrow> nat list \<Rightarrow> (int \<times> string) option \<Rightarrow> (int \<times> (string + frame)) list
    \<Rightarrow> (int \<times> string) option" where
  "scan_latest shards caught latest [] = latest"
| "scan_latest shards caught latest ((now, Inl e) # fs) = latest"
| "scan_latest shards caught latest ((now, Inr f) # fs) =
     (let latest =
            (case f of
               FrRecord r \<Rightarrow>
                 (if (case latest of None \<Rightarrow> True | Some (s, _) \<Rightarrow> rf_seq r > s)
                  then Some (rf_seq r, rf_content r) else latest)
             | _ \<Rightarrow> latest);
          caught = (case f of FrCaughtUp sh \<Rightarrow> List.insert sh caught | _ \<Rightarrow> caught)
      in if shards \<noteq> [] \<and> set caught = set shards then latest
         else if shards = [] then latest
         else scan_latest shards caught latest fs)"

definition read_latest_stream_content ::
  "'w store_env \<Rightarrow> string \<Rightarrow> ('w, string option) store_op" where
  "read_latest_stream_content env stream =
     andThen (uuid_op env) (\<lambda>read_id s.
       case br_consume (se_broker env) (se_namespace env) stream
              (''fixus-cfg-read-'' @ stream @ ''-'' @ read_id) read_id (st_world s) of
         (ss, w) \<Rightarrow>
           (case ss_join ss of
              Inl e \<Rightarrow> (Inl (Internal (''broker consumer join: '' @ e)), s\<lparr>st_world := w\<rparr>)
            | Inr shards \<Rightarrow>
                (case ss_open ss of
                   Inl e \<Rightarrow> (Inl (Internal (''broker consume: '' @ e)), s\<lparr>st_world := w\<rparr>)
                 | Inr _ \<Rightarrow>
                     (Inr (map_option snd (scan_latest shards [] None (ss_frames ss))),
                      s\<lparr>st_world := w\<rparr>))))"

section \<open>Writing\<close>

definition store_create_task ::
  "'w store_env \<Rightarrow> string \<Rightarrow> string \<Rightarrow> string \<Rightarrow> provenance \<Rightarrow> json option \<Rightarrow> int
    \<Rightarrow> effective_policy option \<Rightarrow> ('w, string \<times> agent_event) store_op" where
  "store_create_task env task_type tenant_id user_id prov body priority eff =
     andThen (uuid_op env) (\<lambda>u.
       let task_id = ''task_'' @ u;
           payload = JObj [(''task_type'', JStr task_type),
                           (''provenance'', enc_provenance (se_codec env) prov),
                           (''body'', unwrap_or JNull body), (''priority'', JInt priority),
                           (''effective_policy'', opt_json (enc_effective (se_codec env)) eff)];
           meta = [(''task_id'', task_id), (''tenant_id'', tenant_id), (''user_id'', user_id),
                   (''task_type'', task_type)]
       in andThen (now_op env) (\<lambda>now.
          andThen (produce_op env ''broker produce: ''
              \<lparr>pq_namespace = se_namespace env, pq_stream = task_id,
               pq_event_type = ''task_created'', pq_timestamp_ns = timestamp_ns now,
               pq_content_type = ''application/json'', pq_metadata = meta,
               pq_content = to_vec (se_codec env) payload, pq_shard_key = Some task_id\<rparr>) (\<lambda>(_, seq).
          andThen (now_op env) (\<lambda>now.
          ok (task_id,
              \<lparr>ae_task_id = task_id, ae_seq = wrap_i64 seq, ae_turn_id = None, ae_step_id = None,
               ae_event_type = TaskCreated, ae_schema_version = 1, ae_payload = payload,
               ae_created_at = now\<rparr>)))))"

text \<open>Applying the record just written to the cached projection, if there is one.\<close>

definition apply_written :: "'w store_env \<Rightarrow> agent_event \<Rightarrow> int \<Rightarrow> ('w, unit) store_op" where
  "apply_written env e seq =
     andThen (get_op (ae_task_id e)) (\<lambda>hit.
       case hit of
         None \<Rightarrow> ok ()
       | Some p \<Rightarrow>
           andThen (now_op env) (\<lambda>now.
             put_op (ae_task_id e)
               (snd (apply_event (se_codec env) now seq (event_type_as_str (ae_event_type e))
                       (to_vec (se_codec env) (ae_payload e)) (event_meta e) p))))"

definition write_event :: "'w store_env \<Rightarrow> agent_event \<Rightarrow> ('w, int) store_op" where
  "write_event env e =
     andThen (lift_res (case validate_scope e of Inl v \<Rightarrow> Inl (LifecycleInvariant v) | Inr u \<Rightarrow> Inr u)) (\<lambda>_.
     andThen (lift_res (validate_payload_required_fields (ae_event_type e) (ae_payload e))) (\<lambda>_.
     andThen (get_op (ae_task_id e)) (\<lambda>hit.
     andThen (lift_res (validate_task_event_transition (map_option tp_state hit) (ae_event_type e))) (\<lambda>_.
     andThen (now_op env) (\<lambda>now.
     andThen (produce_op env ''broker produce: '' (event_request env e (timestamp_ns now))) (\<lambda>(_, seq).
     andThen (apply_written env e seq) (\<lambda>_.
     ok (wrap_i64 seq))))))))"

fun apply_batch :: "'w store_env \<Rightarrow> string \<Rightarrow> agent_event list \<Rightarrow> int list \<Rightarrow> ('w, unit) store_op" where
  "apply_batch env tid [] seqs = ok ()"
| "apply_batch env tid (e # es) [] = err panic"
| "apply_batch env tid (e # es) (seq # seqs) =
     andThen (now_op env) (\<lambda>now s.
       case map_of (pc_map (st_cache s)) tid of
         None \<Rightarrow> (Inr (), s)
       | Some p \<Rightarrow>
           andThen (put_op tid
             (snd (apply_event (se_codec env) now (seq mod 2 ^ 64)
                     (event_type_as_str (ae_event_type e)) (to_vec (se_codec env) (ae_payload e))
                     (event_meta e) p)))
             (\<lambda>_. apply_batch env tid es seqs) s)"

definition write_events_batch :: "'w store_env \<Rightarrow> agent_event list \<Rightarrow> ('w, int list) store_op" where
  "write_events_batch env events =
     (case events of
        [] \<Rightarrow> ok []
      | e0 # _ \<Rightarrow>
          (\<lambda>s. case br_batch_produce (se_broker env) (map (\<lambda>e. event_request env e 0) events)
                      (st_world s) of
                 (Inl e, w) \<Rightarrow> (Inl (Internal (''broker batch: '' @ e)), s\<lparr>st_world := w\<rparr>)
               | (Inr results, w) \<Rightarrow>
                   (let seqs = map (\<lambda>(_, sq). wrap_i64 sq) results
                    in andThen (get_op (ae_task_id e0)) (\<lambda>hit.
                         case hit of
                           None \<Rightarrow> ok seqs
                         | Some _ \<Rightarrow>
                             andThen (apply_batch env (ae_task_id e0) events seqs) (\<lambda>_. ok seqs))
                       (s\<lparr>st_world := w\<rparr>))))"

section \<open>Reads\<close>

definition task_of :: "string \<Rightarrow> task_projection \<Rightarrow> task" where
  "task_of tid p =
     \<lparr>tk_task_id = tid,
      tk_tenant_id = unwrap_or [] (pv_source_tenant_id (tp_provenance p)),
      tk_user_id = unwrap_or [] (pv_source_user_id (tp_provenance p)),
      tk_task_type = tp_task_type p, tk_state = tp_state p, tk_provenance = tp_provenance p,
      tk_body = tp_body p, tk_created_at = pv_created_at (tp_provenance p), tk_metadata = None,
      tk_priority = tp_priority p, tk_effective_policy = tp_effective_policy p\<rparr>"

definition get_task :: "'w store_env \<Rightarrow> string \<Rightarrow> ('w, task option) store_op" where
  "get_task env tid =
     attempt (ensure_projection env tid) (\<lambda>r.
       case r of Inl _ \<Rightarrow> ok None | Inr _ \<Rightarrow> with_projection env tid (\<lambda>p. Some (task_of tid p)))"

definition get_task_state :: "'w store_env \<Rightarrow> string \<Rightarrow> ('w, task_state option) store_op" where
  "get_task_state env tid = with_projection env tid (\<lambda>p. Some (tp_state p))"

definition task_exists :: "'w store_env \<Rightarrow> string \<Rightarrow> ('w, bool) store_op" where
  "task_exists env tid =
     andThen (get_op tid) (\<lambda>hit.
       if hit \<noteq> None then ok True
       else attempt (ensure_projection env tid) (\<lambda>r. ok (case r of Inl _ \<Rightarrow> False | Inr _ \<Rightarrow> True)))"

definition is_task_ended :: "'w store_env \<Rightarrow> string \<Rightarrow> ('w, bool) store_op" where
  "is_task_ended env tid = with_projection env tid (\<lambda>p. is_terminal (tp_state p))"

definition get_max_seq :: "'w store_env \<Rightarrow> string \<Rightarrow> ('w, int) store_op" where
  "get_max_seq env tid = with_projection env tid tp_max_seq"

definition get_max_turn_id :: "'w store_env \<Rightarrow> string \<Rightarrow> ('w, int) store_op" where
  "get_max_turn_id env tid = with_projection env tid tp_max_turn_id"

definition get_event :: "'w store_env \<Rightarrow> string \<Rightarrow> int \<Rightarrow> ('w, agent_event option) store_op" where
  "get_event env tid seq = with_projection env tid (by_seq seq)"

definition turn_events_of :: "int \<Rightarrow> task_projection \<Rightarrow> agent_event list" where
  "turn_events_of turn_id p = List.map_filter (\<lambda>s. by_seq s p) (turn_seqs turn_id p)"

definition get_turn_events :: "'w store_env \<Rightarrow> string \<Rightarrow> int \<Rightarrow> ('w, agent_event list) store_op" where
  "get_turn_events env tid turn_id = with_projection env tid (turn_events_of turn_id)"

definition get_events_after_seq ::
  "'w store_env \<Rightarrow> string \<Rightarrow> int \<Rightarrow> ('w, agent_event list) store_op" where
  "get_events_after_seq env tid n = with_projection env tid (after_seq (se_events_iter env) n)"

definition get_latest_summary :: "'w store_env \<Rightarrow> string \<Rightarrow> ('w, agent_event option) store_op" where
  "get_latest_summary env tid =
     andThen (with_projection env tid (\<lambda>p. (tp_latest_summary p, tp_summarized_up_to_seq p)))
       (\<lambda>(summary, upto). case summary of
          None \<Rightarrow> ok None
        | Some s \<Rightarrow>
            andThen (now_op env) (\<lambda>now.
              ok (Some \<lparr>ae_task_id = tid, ae_seq = upto, ae_turn_id = None, ae_step_id = None,
                        ae_event_type = SummaryMarker, ae_schema_version = 1, ae_payload = s,
                        ae_created_at = now\<rparr>)))"

definition get_turn_steps :: "'w store_env \<Rightarrow> string \<Rightarrow> int \<Rightarrow> ('w, step_execution list) store_op" where
  "get_turn_steps env tid turn_id = with_projection env tid (turn_steps turn_id)"

definition get_incomplete_turns :: "'w store_env \<Rightarrow> string \<Rightarrow> ('w, incomplete_turn list) store_op" where
  "get_incomplete_turns env tid = with_projection env tid (incomplete_turns (se_turns_iter env))"

definition get_incomplete_steps :: "'w store_env \<Rightarrow> string \<Rightarrow> ('w, incomplete_step list) store_op" where
  "get_incomplete_steps env tid = with_projection env tid (incomplete_steps (se_steps_iter env))"

definition detect_seq_gaps :: "'w store_env \<Rightarrow> string \<Rightarrow> ('w, int list) store_op" where
  "detect_seq_gaps env tid = ok []"

definition is_turn_seq_continuous :: "'w store_env \<Rightarrow> string \<Rightarrow> int \<Rightarrow> ('w, bool) store_op" where
  "is_turn_seq_continuous env tid turn_id = ok True"

definition get_token_usage_stats ::
  "'w store_env \<Rightarrow> string \<Rightarrow> ('w, token_usage_stats list) store_op" where
  "get_token_usage_stats env tid =
     with_projection env tid (\<lambda>p. map snd (se_stats_iter env (tp_token_stats p)))"

definition turns_after :: "int \<Rightarrow> task_projection \<Rightarrow> int" where
  "turns_after n p =
     int (length (filter
       (\<lambda>tid. case turn_seqs tid p of [] \<Rightarrow> False | s # _ \<Rightarrow> s > n) (tp_recent_turn_ids p)))"

definition count_turns_after_seq :: "'w store_env \<Rightarrow> string \<Rightarrow> int \<Rightarrow> ('w, int) store_op" where
  "count_turns_after_seq env tid n = with_projection env tid (turns_after n)"

definition saturating_sub_i64 :: "int \<Rightarrow> int \<Rightarrow> int" where
  "saturating_sub_i64 a b = max (- (2 ^ 63)) (min (2 ^ 63 - 1) (a - b))"

definition count_events_after_seq :: "'w store_env \<Rightarrow> string \<Rightarrow> int \<Rightarrow> ('w, int) store_op" where
  "count_events_after_seq env tid n =
     with_projection env tid (\<lambda>p. max 0 (saturating_sub_i64 (tp_max_seq p) n))"

definition get_llm_payloads_after_seq ::
  "'w store_env \<Rightarrow> string \<Rightarrow> int \<Rightarrow> ('w, string list) store_op" where
  "get_llm_payloads_after_seq env tid n =
     with_projection env tid (llm_payloads_after_seq (se_codec env) (se_events_iter env) n)"

text \<open>\<open>limit as usize\<close>: a negative limit becomes a huge one.\<close>

definition recent_turns :: "int \<Rightarrow> task_projection \<Rightarrow> int list" where
  "recent_turns limit p = take (nat (limit mod 2 ^ 64)) (rev (tp_recent_turn_ids p))"

definition get_recent_turn_ids :: "'w store_env \<Rightarrow> string \<Rightarrow> int \<Rightarrow> ('w, int list) store_op" where
  "get_recent_turn_ids env tid limit = with_projection env tid (recent_turns limit)"

definition archive_events_before_seq ::
  "'w store_env \<Rightarrow> string \<Rightarrow> int \<Rightarrow> ('w, int \<times> string) store_op" where
  "archive_events_before_seq env tid n = ok (0, [])"

section \<open>Dispatch, invalidation and tenant policies\<close>

definition publish_turn_begin ::
  "'w store_env \<Rightarrow> string \<Rightarrow> string \<Rightarrow> json \<Rightarrow> ('w, unit) store_op" where
  "publish_turn_begin env tid task_type payload =
     andThen (produce_op env ''publish_turn_begin: ''
       \<lparr>pq_namespace = se_namespace env,
        pq_stream = ''task-begin-'' @ map (\<lambda>c. if c = CHR ''.'' then CHR ''-'' else c) task_type,
        pq_event_type = ''execute_turn'', pq_timestamp_ns = 0,
        pq_content_type = ''application/json'',
        pq_metadata = [(''task_id'', tid), (''event_type'', ''execute_turn'')],
        pq_content = to_vec (se_codec env) payload, pq_shard_key = Some tid\<rparr>) (\<lambda>_. ok ())"

definition invalidate_projection :: "'w store_env \<Rightarrow> string \<Rightarrow> ('w, unit) store_op" where
  "invalidate_projection env tid s = (Inr (), s\<lparr>st_cache := cache_invalidate tid (st_cache s)\<rparr>)"

definition set_tenant_policy ::
  "'w store_env \<Rightarrow> string \<Rightarrow> capability_policy \<Rightarrow> ('w, unit) store_op" where
  "set_tenant_policy env tenant_id policy =
     andThen (now_op env) (\<lambda>now.
       andThen (produce_op env ''set_tenant_policy produce: ''
         \<lparr>pq_namespace = se_namespace env, pq_stream = tenant_policy_stream (se_alphanumeric env) tenant_id,
          pq_event_type = ''tenant_policy'', pq_timestamp_ns = timestamp_ns now,
          pq_content_type = ''application/json'', pq_metadata = [(''tenant_id'', tenant_id)],
          pq_content = policy_to_vec (se_codec env) policy, pq_shard_key = Some tenant_id\<rparr>)
         (\<lambda>_. ok ()))"

definition get_tenant_policy ::
  "'w store_env \<Rightarrow> string \<Rightarrow> ('w, capability_policy option) store_op" where
  "get_tenant_policy env tenant_id =
     andThen (read_latest_stream_content env (tenant_policy_stream (se_alphanumeric env) tenant_id)) (\<lambda>latest.
       case latest of
         None \<Rightarrow> ok None
       | Some bytes \<Rightarrow>
           (case policy_from_slice (se_codec env) bytes of
              None \<Rightarrow> err (Internal ''tenant policy decode'')
            | Some policy \<Rightarrow> ok (Some policy)))"

text \<open>At most three attempts; the pauses between them are left out.\<close>

fun dispatch_attempts :: "nat \<Rightarrow> string \<Rightarrow> 'w store_env \<Rightarrow> produce_request \<Rightarrow> ('w, unit) store_op" where
  "dispatch_attempts 0 last_err env req = err (Internal (''dispatch after 3 retries: '' @ last_err))"
| "dispatch_attempts (Suc n) last_err env req = (\<lambda>s.
     case br_produce (se_broker env) req (st_world s) of
       (Inr _, w) \<Rightarrow> (Inr (), s\<lparr>st_world := w\<rparr>)
     | (Inl e, w) \<Rightarrow> dispatch_attempts n e env req (s\<lparr>st_world := w\<rparr>))"

definition dispatch_tool :: "'w store_env \<Rightarrow> string \<Rightarrow> agent_event \<Rightarrow> ('w, unit) store_op" where
  "dispatch_tool env tid e =
     dispatch_attempts 3 [] env
       \<lparr>pq_namespace = se_namespace env,
        pq_stream = ''tool-invoke-'' @ unwrap_or ''default'' (se_region env),
        pq_event_type = event_type_as_str (ae_event_type e), pq_timestamp_ns = 0,
        pq_content_type = ''application/json'', pq_metadata = event_meta e,
        pq_content = to_vec (se_codec env) (ae_payload e), pq_shard_key = Some tid\<rparr>"

section \<open>The trait implementation\<close>

definition broker_event_store :: "'w store_env \<Rightarrow> 'w store event_store" where
  "broker_event_store env =
     \<lparr>es_create_task = store_create_task env, es_get_task = get_task env,
      es_task_exists = task_exists env, es_is_task_ended = is_task_ended env,
      es_get_task_state = get_task_state env, es_get_max_seq = get_max_seq env,
      es_get_max_turn_id = get_max_turn_id env, es_write_event = write_event env,
      es_write_events_batch = write_events_batch env, es_get_event = get_event env,
      es_get_turn_events = get_turn_events env, es_get_events_after_seq = get_events_after_seq env,
      es_get_latest_summary = get_latest_summary env, es_get_turn_steps = get_turn_steps env,
      es_get_incomplete_turns = get_incomplete_turns env,
      es_get_incomplete_steps = get_incomplete_steps env, es_detect_seq_gaps = detect_seq_gaps env,
      es_is_turn_seq_continuous = is_turn_seq_continuous env,
      es_get_token_usage_stats = get_token_usage_stats env,
      es_count_turns_after_seq = count_turns_after_seq env,
      es_count_events_after_seq = count_events_after_seq env,
      es_get_llm_payloads_after_seq = get_llm_payloads_after_seq env,
      es_get_recent_turn_ids = get_recent_turn_ids env,
      es_publish_turn_begin = publish_turn_begin env, es_set_tenant_policy = set_tenant_policy env,
      es_get_tenant_policy = get_tenant_policy env,
      es_invalidate_projection = invalidate_projection env, es_dispatch_tool = dispatch_tool env,
      es_archive_events_before_seq = archive_events_before_seq env\<rparr>"

section \<open>The contract holds\<close>

definition bs_proj :: "'w store \<Rightarrow> string \<Rightarrow> task_projection option" where
  "bs_proj s = map_of (pc_map (st_cache s))"

definition bs_inv :: "'w store \<Rightarrow> bool" where
  "bs_inv s \<longleftrightarrow> cache_ok (st_cache s) \<and> 0 < pc_cap (st_cache s) \<and>
     (\<forall>t p. bs_proj s t = Some p \<longrightarrow> projection_ok p \<and> tp_task_id p = t)"

text \<open>\<open>s\<close> goes to \<open>s'\<close> with the same projections cached.\<close>

definition keeps :: "'w store \<Rightarrow> 'w store \<Rightarrow> bool" where
  "keeps s s' \<longleftrightarrow> bs_proj s' = bs_proj s \<and> (bs_inv s \<longrightarrow> bs_inv s')"

lemma keeps_refl [simp]: "keeps s s"
  by (simp add: keeps_def)

lemma keeps_trans: "keeps s t \<Longrightarrow> keeps t u \<Longrightarrow> keeps s u"
  by (simp add: keeps_def)

lemma keeps_world [simp]: "keeps s (s\<lparr>st_world := w\<rparr>)"
  by (simp add: keeps_def bs_inv_def bs_proj_def)

lemma get_op_result:
  "get_op t s = (Inr (bs_proj s t), s\<lparr>st_cache := snd (cache_get t (st_cache s))\<rparr>)"
  by (simp add: get_op_def bs_proj_def split_beta)

lemma keeps_get [simp]: "keeps s (s\<lparr>st_cache := snd (cache_get t (st_cache s))\<rparr>)"
  by (auto simp: keeps_def bs_inv_def bs_proj_def cache_ok_get)

lemma now_op_keeps: "now_op env s = (r, s') \<Longrightarrow> keeps s s' \<and> (\<exists>n. r = Inr n)"
  by (auto simp: now_op_def split: prod.splits)

lemma produce_op_keeps: "produce_op env what req s = (r, s') \<Longrightarrow> keeps s s'"
  by (auto simp: produce_op_def split: prod.splits sum.splits)

lemma ensure_cached:
  "bs_proj s t = Some p \<Longrightarrow>
     ensure_projection env t s = (Inr (), s\<lparr>st_cache := snd (cache_get t (st_cache s))\<rparr>)"
  by (simp add: ensure_projection_def andThen_apply get_op_result)

lemma with_projection_cached:
  assumes "bs_proj s t = Some p"
  shows "\<exists>s'. with_projection env t f s = (Inr (f p), s') \<and> keeps s s'"
proof -
  let ?s = "s\<lparr>st_cache := snd (cache_get t (st_cache s))\<rparr>"
  have "bs_proj ?s t = Some p" using assms by (simp add: bs_proj_def)
  then show ?thesis
    using keeps_trans [OF keeps_get keeps_get]
    by (auto simp: with_projection_def andThen_apply ensure_cached [OF assms] get_op_result)
qed

text \<open>Applying the written record again reads the stored event.\<close>

lemma event_meta_lookup [simp]:
  "map_of (event_meta e) ''step_id'' = ae_step_id e"
  "meta_turn_id (event_meta e) = Option.bind (ae_turn_id e) (\<lambda>n. parse_i64 (show_int n))"
  by (auto simp: event_meta_def meta_turn_id_def split: option.split)

lemma apply_event_stored:
  "tp_task_id p = ae_task_id e \<Longrightarrow>
     snd (apply_event cd now q (event_type_as_str (ae_event_type e)) (to_vec cd (ae_payload e))
            (event_meta e) p) =
     apply_ae cd (stored_event cd e (wrap_i64 q) now) p"
  by (simp add: apply_event_def apply_ae_def stored_event_def Let_def)

lemma apply_written_result:
  assumes "bs_inv s" "apply_written env e q s = (r, s')"
  shows "r = Inr () \<and> bs_inv s' \<and>
    (\<exists>now. bs_proj s' = (bs_proj s)(ae_task_id e :=
       map_option (apply_ae (se_codec env) (stored_event (se_codec env) e (wrap_i64 q) now))
         (bs_proj s (ae_task_id e))))"
proof (cases "bs_proj s (ae_task_id e)")
  case None
  with assms show ?thesis
    using keeps_get [of s "ae_task_id e"]
    by (auto simp: apply_written_def andThen_apply get_op_result keeps_def)
next
  case (Some p)
  let ?s = "s\<lparr>st_cache := snd (cache_get (ae_task_id e) (st_cache s))\<rparr>"
  obtain now s1 where n: "now_op env ?s = (Inr now, s1)" and k: "keeps ?s s1"
    using now_op_keeps by (metis prod.collapse)
  let ?p = "apply_ae (se_codec env) (stored_event (se_codec env) e (wrap_i64 q) now) p"
  have id: "tp_task_id p = ae_task_id e" "projection_ok p"
    using assms(1) Some by (auto simp: bs_inv_def)
  have pok: "projection_ok ?p"
    using projection_ok_event [OF id(2)] apply_event_stored [OF id(1)] by metis
  have s1: "bs_inv s1" "bs_proj s1 = bs_proj s"
    using k keeps_get [of s "ae_task_id e"] assms(1) by (auto simp: keeps_def)
  have s': "r = Inr ()" "s' = s1\<lparr>st_cache := cache_put (ae_task_id e) ?p (st_cache s1)\<rparr>"
    using assms(2) Some n
    by (simp_all add: apply_written_def andThen_apply get_op_result put_op_def apply_event_stored [OF id(1)])
  have pr: "bs_proj s' = (bs_proj s1)(ae_task_id e \<mapsto> ?p)"
    by (simp add: s' bs_proj_def cache_put_def hash_lookup_update)
  moreover have "bs_inv s'"
    unfolding bs_inv_def
  proof (intro conjI allI impI)
    show "cache_ok (st_cache s')" "0 < pc_cap (st_cache s')"
      using s1(1) cache_ok_put [of "st_cache s1"] by (simp_all add: s' bs_inv_def cache_put_def)
    show "projection_ok p'" if "bs_proj s' t = Some p'" for t p'
      using that s1(1) pok by (auto simp: pr bs_inv_def split: if_splits)
    show "tp_task_id p' = t" if "bs_proj s' t = Some p'" for t p'
      using that s1(1) id by (auto simp: pr bs_inv_def split: if_splits)
  qed
  ultimately show ?thesis using s' s1 Some by auto
qed

text \<open>The four checks of a write, then the record.\<close>

lemma write_event_unfold:
  "write_event env e s =
     (let cur = map_option tp_state (bs_proj s (ae_task_id e)) in
      case validate_write cur e of
        Inl x \<Rightarrow> (Inl x, if validate_scope e = Inr () \<and>
                          validate_payload_required_fields (ae_event_type e) (ae_payload e) = Inr ()
                       then s\<lparr>st_cache := snd (cache_get (ae_task_id e) (st_cache s))\<rparr> else s)
      | Inr _ \<Rightarrow>
          andThen (now_op env) (\<lambda>now.
          andThen (produce_op env ''broker produce: '' (event_request env e (timestamp_ns now)))
            (\<lambda>(_, seq). andThen (apply_written env e seq) (\<lambda>_. ok (wrap_i64 seq))))
            (s\<lparr>st_cache := snd (cache_get (ae_task_id e) (st_cache s))\<rparr>))"
  by (auto simp: write_event_def validate_write_def andThen_apply get_op_result Let_def
      split: sum.splits)

lemma write_event_invalid:
  assumes "validate_write (map_option tp_state (bs_proj s (ae_task_id e))) e = Inl x"
  shows "\<exists>s'. write_event env e s = (Inl x, s') \<and> keeps s s' \<and> st_world s' = st_world s"
  using assms by (simp add: write_event_unfold Let_def)

text \<open>A write that passed the checks: the clock, the broker, the projection.\<close>

lemma write_event_valid:
  assumes "bs_inv s" "write_event env e s = (r, s')"
    and "validate_write (map_option tp_state (bs_proj s (ae_task_id e))) e = Inr ()"
  obtains (sent) s1 seq where "r = Inr (wrap_i64 seq)" "keeps s s1"
      "apply_written env e seq s1 = (Inr (), s')"
  | (failed) x where "r = Inl x" "keeps s s'"
proof -
  let ?s = "s\<lparr>st_cache := snd (cache_get (ae_task_id e) (st_cache s))\<rparr>"
  obtain now s1 where n: "now_op env ?s = (Inr now, s1)" and k: "keeps s s1"
    using now_op_keeps keeps_trans [OF keeps_get] by (metis prod.collapse)
  obtain pr s2 where p: "produce_op env ''broker produce: '' (event_request env e (timestamp_ns now)) s1
      = (pr, s2)" by fastforce
  have k2: "keeps s s2" by (rule keeps_trans [OF k produce_op_keeps [OF p]])
  have w: "write_event env e s = (case pr of Inl x \<Rightarrow> (Inl x, s2)
     | Inr (_, seq) \<Rightarrow> andThen (apply_written env e seq) (\<lambda>_. ok (wrap_i64 seq)) s2)"
    using assms(3) n p by (simp add: write_event_unfold Let_def andThen_apply split: sum.split)
  show thesis
  proof (cases pr)
    case (Inl x)
    with w assms(2) k2 show thesis by (intro failed) auto
  next
    case (Inr gs)
    obtain gid seq where gs: "gs = (gid, seq)" by fastforce
    obtain r3 s3 where a: "apply_written env e seq s2 = (r3, s3)" by fastforce
    have "bs_inv s2" using k2 assms(1) by (simp add: keeps_def)
    from apply_written_result [OF this a] have "r3 = Inr ()" by blast
    with w Inr gs a assms(2) k2 show thesis by (intro sent) (auto simp: andThen_apply)
  qed
qed

lemma write_event_ok:
  assumes "bs_inv s" "write_event env e s = (Inr q, s')"
  shows "bs_inv s' \<and> validate_write (map_option tp_state (bs_proj s (ae_task_id e))) e = Inr () \<and>
    (\<exists>now. bs_proj s' = (bs_proj s)(ae_task_id e :=
       map_option (apply_ae (se_codec env) (stored_event (se_codec env) e q now))
         (bs_proj s (ae_task_id e))))"
proof -
  have v: "validate_write (map_option tp_state (bs_proj s (ae_task_id e))) e = Inr ()"
  proof (cases "validate_write (map_option tp_state (bs_proj s (ae_task_id e))) e")
    case (Inl x)
    with write_event_invalid [OF Inl, of env] assms(2) show ?thesis by auto
  qed simp
  from assms(1,2) v show ?thesis
  proof (cases rule: write_event_valid)
    case (sent s1 seq)
    from sent(2) assms(1) have "bs_inv s1" "bs_proj s1 = bs_proj s" by (simp_all add: keeps_def)
    with apply_written_result [OF _ sent(3)] sent(1) v show ?thesis by auto
  next
    case (failed x)
    then show ?thesis by simp
  qed
qed

lemma write_event_error:
  assumes "bs_inv s" "write_event env e s = (Inl x, s')"
  shows "bs_inv s' \<and> bs_proj s' = bs_proj s"
proof (cases "validate_write (map_option tp_state (bs_proj s (ae_task_id e))) e")
  case (Inl y)
  from write_event_invalid [OF this, of env] assms show ?thesis by (auto simp: keeps_def)
next
  case (Inr u)
  then have v: "validate_write (map_option tp_state (bs_proj s (ae_task_id e))) e = Inr ()" by simp
  from assms(1,2) v show ?thesis
    by (cases rule: write_event_valid) (use assms(1) in \<open>auto simp: keeps_def\<close>)
qed

lemma task_exists_cached:
  "bs_proj s t = Some p \<Longrightarrow>
     task_exists env t s = (Inr True, s\<lparr>st_cache := snd (cache_get t (st_cache s))\<rparr>)"
  by (simp add: task_exists_def andThen_apply get_op_result)

lemma keepsD: "keeps s s' \<Longrightarrow> bs_inv s \<Longrightarrow> bs_inv s' \<and> bs_proj s' = bs_proj s"
  by (simp add: keeps_def)

lemma with_projection_law:
  assumes "bs_inv s" "bs_proj s t = Some p"
  shows "\<exists>s'. with_projection env t f s = (Inr (f p), s') \<and> bs_inv s' \<and> bs_proj s' = bs_proj s"
  using with_projection_cached [OF assms(2), of env f] keepsD [OF _ assms(1)] by blast

interpretation bs: projected_store "broker_event_store env" bs_proj bs_inv "se_codec env"
  "se_turns_iter env" "se_steps_iter env" for env :: "'w store_env"
proof
  fix s :: "'w store" and t p
  assume i: "bs_inv s" and p: "bs_proj s t = Some p"
  note law = with_projection_law [OF i p, of env]
  show "projection_ok p" using i p by (simp add: bs_inv_def)
  show "\<exists>s'. es_get_task_state (broker_event_store env) t s = (Inr (Some (tp_state p)), s') \<and>
      bs_inv s' \<and> bs_proj s' = bs_proj s"
    using law [of "\<lambda>p. Some (tp_state p)"] by (simp add: broker_event_store_def get_task_state_def)
  show "\<exists>s'. es_task_exists (broker_event_store env) t s = (Inr True, s') \<and>
      bs_inv s' \<and> bs_proj s' = bs_proj s"
    using task_exists_cached [OF p, of env] keepsD [OF keeps_get i] by (simp add: broker_event_store_def)
  show "\<exists>s'. es_is_task_ended (broker_event_store env) t s = (Inr (is_terminal (tp_state p)), s') \<and>
      bs_inv s' \<and> bs_proj s' = bs_proj s"
    using law [of "\<lambda>p. is_terminal (tp_state p)"] by (simp add: broker_event_store_def is_task_ended_def)
  show "\<exists>s'. es_get_max_turn_id (broker_event_store env) t s = (Inr (tp_max_turn_id p), s') \<and>
      bs_inv s' \<and> bs_proj s' = bs_proj s"
    using law [of tp_max_turn_id] by (simp add: broker_event_store_def get_max_turn_id_def)
  show "\<exists>s'. es_get_turn_events (broker_event_store env) t n s =
      (Inr (List.map_filter (\<lambda>q. by_seq q p) (turn_seqs n p)), s') \<and> bs_inv s' \<and> bs_proj s' = bs_proj s" for n
    using law [of "turn_events_of n"]
    by (simp add: broker_event_store_def get_turn_events_def turn_events_of_def)
  show "\<exists>s'. es_get_incomplete_turns (broker_event_store env) t s =
      (Inr (incomplete_turns (se_turns_iter env) p), s') \<and> bs_inv s' \<and> bs_proj s' = bs_proj s"
    using law [of "incomplete_turns (se_turns_iter env)"]
    by (simp add: broker_event_store_def get_incomplete_turns_def)
  show "\<exists>s'. es_get_incomplete_steps (broker_event_store env) t s =
      (Inr (incomplete_steps (se_steps_iter env) p), s') \<and> bs_inv s' \<and> bs_proj s' = bs_proj s"
    using law [of "incomplete_steps (se_steps_iter env)"]
    by (simp add: broker_event_store_def get_incomplete_steps_def)
next
  fix s :: "'w store" and e x
  assume i: "bs_inv s" and v: "validate_write (map_option tp_state (bs_proj s (ae_task_id e))) e = Inl x"
  show "\<exists>s'. es_write_event (broker_event_store env) e s = (Inl x, s') \<and> bs_inv s' \<and> bs_proj s' = bs_proj s"
  proof -
    obtain s' where "write_event env e s = (Inl x, s')" "keeps s s'"
      using write_event_invalid [OF v, of env] by blast
    moreover from this(2) i have "bs_inv s' \<and> bs_proj s' = bs_proj s" by (simp add: keeps_def)
    ultimately show ?thesis by (simp add: broker_event_store_def)
  qed
next
  fix s s' :: "'w store" and e x
  assume i: "bs_inv s" and "es_write_event (broker_event_store env) e s = (Inl x, s')"
  then have "write_event env e s = (Inl x, s')" by (simp add: broker_event_store_def)
  from write_event_error [OF i this] show "bs_inv s' \<and> bs_proj s' = bs_proj s" .
next
  fix s s' :: "'w store" and e q
  assume i: "bs_inv s" and "es_write_event (broker_event_store env) e s = (Inr q, s')"
  then have "write_event env e s = (Inr q, s')" by (simp add: broker_event_store_def)
  from write_event_ok [OF i this] show "bs_inv s' \<and> validate_write (map_option tp_state (bs_proj s (ae_task_id e))) e = Inr () \<and>
    (\<exists>now. bs_proj s' = (bs_proj s)(ae_task_id e :=
       map_option (apply_ae (se_codec env) (stored_event (se_codec env) e q now))
         (bs_proj s (ae_task_id e))))" .
qed

end
