(* ===== verification/Store_Properties.thy ===== *)
theory Store_Properties
  imports Broker_Store
begin

text \<open>
  What the services promise on the production store: the lemmas of \<open>Service\<close> and \<open>Recovery\<close> carried
  over by the interpretation of their contract, and the properties of the store's own operations.
\<close>

section \<open>A store for the examples\<close>

text \<open>
  A broker whose world is a counter: every record gets the next number, a stream has one shard and
  nothing in it. One task \<open>t\<close> is cached, in a given state.
\<close>

definition counting_broker :: "int broker" where
  "counting_broker =
     \<lparr>br_produce = (\<lambda>req w. (Inr (w, w + 1), w + 1)),
      br_batch_produce = (\<lambda>reqs w. (Inr (map (\<lambda>i. (w, w + 1 + int i)) [0..<length reqs]),
                                     w + int (length reqs))),
      br_consume = (\<lambda>ns stream grp cons w.
        (\<lparr>ss_join = Inr [0], ss_open = Inr (), ss_frames = [(w, Inr (FrCaughtUp 0))],
          ss_leave = Inr ()\<rparr>, w)),
      br_now = (\<lambda>w. (w, w)), br_uuid = (\<lambda>w. (''u'', w))\<rparr>"

definition sample_env :: "int store_env" where
  "sample_env =
     \<lparr>se_broker = counting_broker, se_codec = sample_codec (JObj []), se_namespace = ''ns'',
      se_region = None, se_events_iter = (\<lambda>xs. xs), se_turns_iter = (\<lambda>xs. xs),
      se_steps_iter = (\<lambda>xs. xs), se_stats_iter = (\<lambda>xs. xs),
      se_alphanumeric = (\<lambda>_. False)\<rparr>"

definition sample_store :: "task_state \<Rightarrow> int store" where
  "sample_store st =
     \<lparr>st_world = 10,
      st_cache = \<lparr>pc_map = [(''t'', projection_new 0 ''t''\<lparr>tp_state := st\<rparr>)],
                  pc_order = [''t''], pc_cap = 5\<rparr>\<rparr>"

lemma sample_store_simps [simp]:
  "bs_proj (sample_store st) ''t'' = Some (projection_new 0 ''t''\<lparr>tp_state := st\<rparr>)"
  "st_cache (sample_store st) = \<lparr>pc_map = [(''t'', projection_new 0 ''t''\<lparr>tp_state := st\<rparr>)],
     pc_order = [''t''], pc_cap = 5\<rparr>"
  "st_world (sample_store st) = 10"
  by (simp_all add: sample_store_def bs_proj_def)

lemma bs_inv_sample [simp]: "bs_inv (sample_store st)"
  by (auto simp: bs_inv_def cache_ok_def hash_wf_def bs_proj_def projection_ok_def projection_new_def
      split: if_splits)

lemmas sample_eval = sample_env_def counting_broker_def sample_codec_def broker_event_store_def
  get_op_result put_op_def now_op_def produce_op_def andThen_apply

section \<open>Writes\<close>

text \<open>
  C2. A write that succeeds has passed the scope rule, the required-field check and the state guard
  against the cached projection, and the projection afterwards is the old one with exactly the stored
  event applied; no other task's projection changes.
\<close>

theorem write_event_checked_and_applied:
  assumes "bs_inv s" "write_event env e s = (Inr q, s')"
  shows "validate_write (map_option tp_state (bs_proj s (ae_task_id e))) e = Inr () \<and> bs_inv s' \<and>
    (\<exists>now. bs_proj s' = (bs_proj s)(ae_task_id e :=
       map_option (apply_ae (se_codec env) (stored_event (se_codec env) e q now))
         (bs_proj s (ae_task_id e))))"
  using write_event_ok [OF assms] by blast

definition ready_event :: agent_event where
  "ready_event = agent_event_new 0 ''t'' None None TaskReady (JObj [])"

theorem write_event_checked_and_applied_witness:
  "fst (write_event sample_env ready_event (sample_store Created)) = Inr 11 \<and>
   map_option tp_state (bs_proj (snd (write_event sample_env ready_event (sample_store Created))) ''t'')
     = Some Ready"
proof -
  have w: "fst (write_event sample_env ready_event (sample_store Created)) = Inr 11"
    by (simp add: write_event_unfold Let_def ready_event_def well_formed_task event_class_defs
        validate_task_event_transition_def can_transition_def is_terminal_def apply_written_def
        event_request_def cache_get_def bs_proj_def wrap_i64_def sample_eval)
  then obtain s' where s': "write_event sample_env ready_event (sample_store Created) = (Inr 11, s')"
    by (metis prod.collapse)
  from write_event_checked_and_applied [OF bs_inv_sample s'] s' w show ?thesis
    by (auto simp: ready_event_def)
qed

text \<open>
  A write that one of the three checks refuses is an error that reaches neither the broker nor any
  projection.
\<close>

theorem refused_write_produces_nothing:
  assumes "validate_write (map_option tp_state (bs_proj s (ae_task_id e))) e = Inl x"
  shows "fst (write_event env e s) = Inl x \<and> st_world (snd (write_event env e s)) = st_world s \<and>
    bs_proj (snd (write_event env e s)) = bs_proj s"
  using write_event_invalid [OF assms, of env] by (auto simp: keeps_def)

theorem refused_write_produces_nothing_witness:
  "fst (write_event sample_env ready_event (sample_store Succeeded)) =
     Inl (LifecycleInvariant (IllegalTransition Succeeded Ready TaskReady))"
  using refused_write_produces_nothing [of "sample_store Succeeded" ready_event _ sample_env]
  by (simp add: ready_event_def well_formed_task event_class_defs validate_task_event_transition_def
      can_transition_def is_terminal_def)

text \<open>
  The batch write has none of the three checks: with one \<open>task_ready\<close> event in a batch a task that
  has succeeded is ready again, where the single write of the same event is refused.
\<close>

theorem batch_write_reopens_terminal_task:
  "fst (write_events_batch sample_env [ready_event] (sample_store Succeeded)) = Inr [11] \<and>
   map_option tp_state
     (bs_proj (snd (write_events_batch sample_env [ready_event] (sample_store Succeeded))) ''t'')
     = Some Ready \<and>
   fst (write_event sample_env ready_event (sample_store Succeeded)) =
     Inl (LifecycleInvariant (IllegalTransition Succeeded Ready TaskReady))"
proof (intro conjI)
  show "fst (write_event sample_env ready_event (sample_store Succeeded)) =
     Inl (LifecycleInvariant (IllegalTransition Succeeded Ready TaskReady))"
    by (simp add: write_event_unfold Let_def ready_event_def well_formed_task event_class_defs
        validate_task_event_transition_def can_transition_def is_terminal_def)
qed (simp_all add: write_events_batch_def ready_event_def event_request_def cache_get_def bs_proj_def
      wrap_i64_def cache_put_def Let_def event_type_from_str_def sample_eval)

text \<open>
  Nor does anything look at what a batch carries: a \<open>task_created\<close> event among the events of a running turn
  sets the policy of the task to whatever its payload says.
\<close>

definition policy_codec :: "effective_policy \<Rightarrow> codec" where
  "policy_codec eff =
     (sample_codec (JObj [(''effective_policy'', JObj [])]))\<lparr>dec_effective := (\<lambda>_. Some eff)\<rparr>"

theorem batch_write_replaces_policy:
  "map_option tp_effective_policy (bs_proj (snd (write_events_batch (sample_env\<lparr>se_codec := policy_codec eff\<rparr>)
     [agent_event_new now ''t'' (Some 1) (Some ''st'') TaskCreated (JObj [(''effective_policy'', JObj [])])]
     (sample_store Executing))) ''t'') = Some (Some eff)"
  by (simp add: write_events_batch_def agent_event_new_def event_request_def cache_get_def bs_proj_def
      wrap_i64_def cache_put_def Let_def event_type_from_str_def policy_codec_def sample_eval
      apply_event_def apply_head_def apply_task_created_def non_null_def is_null_def)

text \<open>
  C32. What is written can be read back: when the broker has taken an event, and the payload is one the JSON
  library parses back from its own output, the projection finds under the sequence number the write returned
  the event itself, with that number, the time of the reading and schema version 1 in place of its own, and
  finds under every other number what it found before. An event of a turn is the last of the turn's events.
\<close>

theorem written_event_read_back:
  assumes "bs_inv s" "bs_proj s (ae_task_id e) = Some p" "write_event env e s = (Inr q, s')"
    and "from_slice (se_codec env) (to_vec (se_codec env) (ae_payload e)) = Some (ae_payload e)" "turn_id_ok e"
  shows "\<exists>p' now. bs_proj s' (ae_task_id e) = Some p' \<and>
    (\<lambda>n. by_seq n p') = (\<lambda>n. by_seq n p)(q := Some (e\<lparr>ae_seq := q, ae_created_at := now, ae_schema_version := 1\<rparr>)) \<and>
    (\<forall>n. fst (get_turn_events env (ae_task_id e) n s') =
       Inr (List.map_filter (\<lambda>q. by_seq q p') (turn_seqs n p @ (if ae_turn_id e = Some n then [q] else []))))"
proof -
  obtain now where i: "bs_inv s'" and pr: "bs_proj s' (ae_task_id e) =
      Some (apply_ae (se_codec env) (stored_event (se_codec env) e q now) p)"
    using write_event_ok [OF assms(1,3)] assms(2) by auto
  let ?e = "stored_event (se_codec env) e q now"
  let ?p = "apply_ae (se_codec env) ?e p"
  have e: "?e = e\<lparr>ae_seq := q, ae_created_at := now, ae_schema_version := 1\<rparr>"
    using assms(4) stored_event_turn [OF assms(5)] by (auto simp: stored_event_def intro: agent_event.equality)
  have seqs: "(\<lambda>n. by_seq n ?p) = (\<lambda>n. by_seq n p)(q := Some ?e)"
    using fold_by_seq [of _ "se_codec env" "[?e]" p] by auto
  have turns: "turn_seqs n ?p = turn_seqs n p @ (if ae_turn_id e = Some n then [q] else [])" for n
    using fold_turn_seqs [of n "se_codec env" "[?e]" p] assms(5) by simp
  have "fst (get_turn_events env (ae_task_id e) n s') =
      Inr (List.map_filter (\<lambda>q. by_seq q ?p) (turn_seqs n ?p))" for n
    using bs.cached_turn_events [OF i pr, of env n] by (auto simp: broker_event_store_def)
  with pr seqs e show ?thesis unfolding turns by (intro exI [of _ ?p] exI [of _ now]) simp
qed

text \<open>With a codec whose output is always read as an empty object, for the events with that payload.\<close>

theorem written_event_read_back_witness:
  "\<exists>s' p' now. write_event sample_env (agent_event_new 7 ''t'' (Some 12) None TurnCompleted (JObj []))
       (sample_store Executing) = (Inr 11, s') \<and> bs_proj s' ''t'' = Some p' \<and>
     by_seq 11 p' = Some (agent_event_new 7 ''t'' (Some 12) None TurnCompleted (JObj [])
       \<lparr>ae_seq := 11, ae_created_at := now, ae_schema_version := 1\<rparr>) \<and>
     fst (get_turn_events sample_env ''t'' 12 s') =
       Inr [agent_event_new 7 ''t'' (Some 12) None TurnCompleted (JObj [])
         \<lparr>ae_seq := 11, ae_created_at := now, ae_schema_version := 1\<rparr>]"
proof -
  let ?e = "agent_event_new 7 ''t'' (Some 12) None TurnCompleted (JObj [])"
  have "fst (write_event sample_env ?e (sample_store Executing)) = Inr 11"
    by (simp add: write_event_unfold Let_def well_formed_turn event_class_defs
        validate_task_event_transition_def apply_written_def event_request_def cache_get_def bs_proj_def
        wrap_i64_def sample_eval)
  then obtain s' where w: "write_event sample_env ?e (sample_store Executing) = (Inr 11, s')"
    by (metis prod.collapse)
  have ids: "ae_task_id ?e = ''t''" "ae_turn_id ?e = Some 12" "ae_payload ?e = JObj []" "turn_id_ok ?e"
    by (simp_all add: agent_event_new_def turn_id_ok_def in_i64_def)
  have none: "turn_seqs 12 (projection_new 0 ''t''\<lparr>tp_state := Executing\<rparr>) = []"
    by (simp add: turn_seqs_def projection_new_def)
  have "bs_proj (sample_store Executing) (ae_task_id ?e) = Some (projection_new 0 ''t''\<lparr>tp_state := Executing\<rparr>)"
    by (simp add: ids)
  from written_event_read_back [OF bs_inv_sample this w] obtain p' now where
    "bs_proj s' ''t'' = Some p'" "\<And>n. by_seq n p' = ((\<lambda>n. by_seq n (projection_new 0 ''t''\<lparr>tp_state := Executing\<rparr>))
        (11 := Some (?e\<lparr>ae_seq := 11, ae_created_at := now, ae_schema_version := 1\<rparr>))) n"
    "fst (get_turn_events sample_env ''t'' 12 s') = Inr (List.map_filter (\<lambda>q. by_seq q p') [11])"
    by (auto simp: ids none sample_env_def sample_codec_def fun_eq_iff)
  with w show ?thesis by (auto simp: List.map_filter_simps)
qed

section \<open>Services\<close>

text \<open>
  A task transition that succeeds was allowed by the state table, leaves the task in the target
  state, and leaves every other task where it was.
\<close>

theorem transition_moves_to_target:
  assumes "bs_inv s" "bs_proj s t = Some p" "guard_target et = Some target" "et \<noteq> TurnStarted"
    and "transition_task (broker_event_store env) now t target et payload s = (Inr ev, s')"
  shows "can_transition (tp_state p) target \<and> map_option tp_state (bs_proj s' t) = Some target \<and>
    (\<forall>u. u \<noteq> t \<longrightarrow> map_option tp_state (bs_proj s' u) = map_option tp_state (bs_proj s u))"
  using bs.transition_ok [OF assms] by (simp add: bs.state_of_def)

theorem transition_moves_to_target_witness:
  "map_option tp_state (bs_proj (snd (succeed_task (broker_event_store sample_env) 0 ''t'' ''done''
      (sample_store Executing))) ''t'') = Some Succeeded"
proof -
  have "isl (fst (succeed_task (broker_event_store sample_env) 0 ''t'' ''done'' (sample_store Executing)))
      = False"
    by (simp add: succeed_task_def transition_task_def current_state_def get_task_state_def
        with_projection_def ensure_projection_def write_new_def write_event_unfold Let_def
        well_formed_task event_class_defs validate_task_event_transition_def can_transition_def
        is_terminal_def apply_written_def event_request_def cache_get_def bs_proj_def sample_eval)
  then obtain ev s' where "transition_task (broker_event_store sample_env) 0 ''t'' Succeeded TaskSucceeded
      (reason_payload ''done'') (sample_store Executing) = (Inr ev, s')"
    unfolding succeed_task_def by (metis isl_def prod.collapse sum.exhaust)
  with transition_moves_to_target [OF bs_inv_sample _ _ _ this] show ?thesis
    by (simp add: succeed_task_def)
qed

text \<open>
  A transition the state table does not have is refused with the states named, before anything is
  written: in particular nothing leaves a terminal state.
\<close>

theorem transition_refused_names_states:
  assumes "bs_inv s" "bs_proj s t = Some p" "\<not> can_transition (tp_state p) target"
  shows "fst (transition_task (broker_event_store env) now t target et payload s) =
      Inl (InvalidTaskStateTransition t (task_state_as_str (tp_state p)) (task_state_as_str target)) \<and>
    bs_proj (snd (transition_task (broker_event_store env) now t target et payload s)) = bs_proj s"
  using bs.transition_refused [OF assms, of env now et payload] by auto

theorem transition_refused_names_states_witness:
  "fst (mark_task_ready (broker_event_store sample_env) 0 ''t'' (sample_store Failed)) =
     Inl (InvalidTaskStateTransition ''t'' ''failed'' ''ready'')"
  using transition_refused_names_states [OF bs_inv_sample sample_store_simps(1), of Failed Ready]
  by (simp add: mark_task_ready_def can_transition_def is_terminal_def)

text \<open>
  C15. A turn starts only on a task that is ready or claimed; it gets the next turn number, the task is
  executing afterwards and the turn is among its active turns.
\<close>

theorem start_turn_opens_next_turn:
  assumes "bs_inv s" "bs_proj s t = Some p"
    and "start_turn (broker_event_store env) now fresh t user_input rg s = (Inr (n, rg', ev), s')"
  shows "(tp_state p = Ready \<or> tp_state p = Claimed) \<and> n = add_i64 (tp_max_turn_id p) 1 \<and>
    (\<exists>p'. bs_proj s' t = Some p' \<and> tp_state p' = Executing \<and> n \<in> set (tp_active_turns p'))"
  using bs.start_turn_ok [OF assms] by blast

lemma sample_start_turn:
  "\<exists>x s'. start_turn (broker_event_store sample_env) 0 ''f'' ''t'' ''hi'' None (sample_store Ready) =
     (Inr (1, x), s')"
proof -
  obtain s1 where s1: "bs_inv s1" "bs_proj s1 = bs_proj (sample_store Ready)"
    "start_turn (broker_event_store sample_env) 0 ''f'' ''t'' ''hi'' None (sample_store Ready) =
       andThen (write_new (broker_event_store sample_env) (agent_event_new 0 ''t'' (Some 1) None
                TurnStarted (turn_started_payload ''hi'' ''rg_f'' 0)))
              (\<lambda>ev. ok (1, ''rg_f'', ev)) s1"
    using bs.start_turn_unfold [OF bs_inv_sample sample_store_simps(1) [of Ready],
        where env = sample_env and now = 0 and fresh = "''f''" and user_input = "''hi''" and rg = None]
    by (auto simp: is_terminal_def projection_new_def add_i64_def)
  then show ?thesis
    by (simp add: write_new_def write_event_unfold Let_def well_formed_turn event_class_defs
        validate_task_event_transition_def apply_written_def event_request_def sample_eval
        split: option.split)
qed

theorem start_turn_opens_next_turn_witness:
  "\<exists>p'. bs_proj (snd (start_turn (broker_event_store sample_env) 0 ''f'' ''t'' ''hi'' None
      (sample_store Ready))) ''t'' = Some p' \<and> tp_state p' = Executing \<and> 1 \<in> set (tp_active_turns p')"
proof -
  obtain rg ev s' where st: "start_turn (broker_event_store sample_env) 0 ''f'' ''t'' ''hi'' None
      (sample_store Ready) = (Inr (1, rg, ev), s')"
    using sample_start_turn by (metis prod.collapse)
  from start_turn_opens_next_turn [OF bs_inv_sample sample_store_simps(1) st] st show ?thesis by auto
qed

text \<open>
  A task has one turn in its life: while it is executing, which it stays when its turn completes or
  fails, starting another turn is refused by the write guard.
\<close>

theorem executing_task_refuses_next_turn:
  assumes "bs_inv s" "bs_proj s t = Some p" "tp_state p = Executing"
  shows "fst (start_turn (broker_event_store env) now fresh t user_input rg s) =
      Inl (LifecycleInvariant (IllegalTransition Executing Executing TurnStarted)) \<and>
    next_state Executing TurnCompleted = Executing \<and> next_state Executing TurnFailed = Executing"
  using bs.start_turn_refused_unless_ready [OF assms(1,2), of env now fresh user_input rg] assms(3)
  by (auto simp: is_terminal_def)

theorem executing_task_refuses_next_turn_witness:
  "fst (start_turn (broker_event_store sample_env) 0 ''f'' ''t'' ''again'' None (sample_store Executing)) =
     Inl (LifecycleInvariant (IllegalTransition Executing Executing TurnStarted))"
  using executing_task_refuses_next_turn [OF bs_inv_sample sample_store_simps(1), of Executing] by simp

section \<open>Recovery\<close>

text \<open>
  C4. Recovery that succeeds has dealt with every turn left open: a turn with an unfinished step that
  must not be repeated is no longer active and has no such step open, and each redo context handed
  back is that of a turn without one, under the same redo group and with its count increased by one.
\<close>

theorem recovery_closes_or_redoes:
  assumes "bs_inv s" "bs_proj s t = Some p" "hash_order (se_steps_iter env)"
    "hash_order (se_turns_iter env)" "recover_task (broker_event_store env) now t s = (Inr cs, s')"
  shows "\<exists>p'. bs_proj s' t = Some p' \<and>
    (\<forall>turn \<in> set (incomplete_turns (se_turns_iter env) p). unsafe_turn p (it_turn_id turn) \<longrightarrow>
       \<not> unsafe_turn p' (it_turn_id turn) \<and> it_turn_id turn \<notin> set (tp_active_turns p')) \<and>
    (\<forall>c \<in> set cs. \<exists>turn \<in> set (incomplete_turns (se_turns_iter env) p).
       \<not> unsafe_turn p (it_turn_id turn) \<and> rc_turn_id c = it_turn_id turn \<and>
       rc_redo_group c = it_redo_group turn \<and> rc_redo_count c = add_i32 (it_redo_count turn) 1)"
  using bs.recover_task_closes [OF assms] by blast

text \<open>A crash in the first turn of \<open>t\<close>, with a tool call open whose name the log does not give.\<close>

definition crashed_projection :: task_projection where
  "crashed_projection = replay (sample_codec (JObj []))
     [sample_record 1 TaskCreated [], sample_record 2 TaskReady [],
      sample_record 3 TurnStarted [(''turn_id'', ''1'')],
      sample_record 4 ToolInvoked [(''turn_id'', ''1''), (''step_id'', ''s'')]] (projection_new 0 ''t'')"

definition crashed_store :: "int store" where
  "crashed_store = \<lparr>st_world = 10, st_cache = \<lparr>pc_map = [(''t'', crashed_projection)],
     pc_order = [''t''], pc_cap = 5\<rparr>\<rparr>"

lemma bs_inv_crashed: "bs_inv crashed_store" "bs_proj crashed_store ''t'' = Some crashed_projection"
  by (auto simp: bs_inv_def crashed_store_def cache_ok_def hash_wf_def bs_proj_def crashed_projection_def
      drain_task_id projection_ok_replay split: if_splits)

theorem recovery_closes_or_redoes_witness:
  "\<exists>p'. bs_proj (snd (recover_task (broker_event_store sample_env) 0 ''t'' crashed_store)) ''t'' = Some p' \<and>
     1 \<notin> set (tp_active_turns p')"
proof -
  have "\<not> isl (fst (recover_task (broker_event_store sample_env) 0 ''t'' crashed_store))"
    by code_simp
  then obtain cs s' where r: "recover_task (broker_event_store sample_env) 0 ''t'' crashed_store = (Inr cs, s')"
    by (metis isl_def prod.collapse sum.exhaust)
  have "\<exists>st \<in> set (incomplete_steps (\<lambda>xs. xs) crashed_projection). is_turn_id st = 1 \<and> is_blocking st"
    by code_simp
  moreover have "hash_wf (tp_active_steps crashed_projection)"
    using projection_ok_replay [OF projection_ok_new] by (simp add: crashed_projection_def projection_ok_def)
  ultimately have "unsafe_turn crashed_projection 1"
    using unsafe_turn_iff_blocking [of "\<lambda>xs. xs" crashed_projection 1] by simp
  moreover have "1 \<in> it_turn_id ` set (incomplete_turns (\<lambda>xs. xs) crashed_projection)"
    by code_simp
  ultimately show ?thesis
    using recovery_closes_or_redoes [OF bs_inv_crashed, of sample_env 0 cs s'] r
    by (auto simp: sample_env_def)
qed

text \<open>
  An LLM call cut short by a crash carries no tool name, so it is taken for a tool that cannot be
  repeated: its turn is not redone but closed for a human, and the event that closes the step is a
  \<open>tool_failed\<close>, which does not match the \<open>llm_invoked\<close> that opened it.
\<close>

theorem interrupted_llm_call_blocks_redo:
  "decide_recovery_from_steps turn
     [st\<lparr>is_payload := llm_invoked_payload model messages tools temperature local_seq\<rparr>] =
   RequiresHumanIntervention (it_turn_id turn) (it_redo_group turn)
     [st\<lparr>is_payload := llm_invoked_payload model messages tools temperature local_seq\<rparr>] \<and>
   \<not> matches_start_type LlmInvoked
       (ae_event_type (tool_failed_event now t n sid tc et em fr k q))"
  by (simp add: decide_recovery_from_steps_def is_blocking_def str_field_def llm_invoked_payload_def
      classify_tool_def matches_start_type_def tool_failed_event_def)

section \<open>Reads\<close>

lemma ensure_empty_stream:
  assumes "bs_inv s" "bs_proj s t = None"
    and "br_consume (se_broker env) (se_namespace env) t ''fixus-reads'' ''singleton'' (st_world s) = (ss, w)"
    and "ss_join ss = Inr shards" "ss_open ss = Inr ()" "ss_leave ss = Inr ()"
    and "\<forall>x \<in> set (ss_frames ss). \<exists>f. snd x = Inr f \<and> (\<forall>r. f \<noteq> FrRecord r)"
  shows "\<exists>s' now. ensure_projection env t s = (Inr (), s') \<and> bs_proj s' t = Some (projection_new now t)"
proof -
  obtain now w' where n: "br_now (se_broker env) w = (now, w')" by fastforce
  let ?c = "st_cache s"
  have d: "drain cd shards caught fs p = (Inr (), p)"
    if "\<forall>x \<in> set fs. \<exists>f. snd x = Inr f \<and> (\<forall>r. f \<noteq> FrRecord r)" for cd shards caught fs p
    using that
    by (induction cd shards caught fs p rule: drain.induct) (auto simp: Let_def split: frame.split)
  have none: "map_of (pc_map ?c) t = None" using assms(2) by (simp add: bs_proj_def)
  have cu: "catch_up (se_codec env) now ss t ?c =
      (Inr (projection_new now t), cache_push t (cache_put t (projection_new now t) ?c))"
    using assms(4-6) none d [OF assms(7)] by (simp add: catch_up_def Let_def)
  have "cache_ok ?c" "0 < pc_cap ?c" using assms(1) by (simp_all add: bs_inv_def)
  from catch_up_caches_lookup [OF this(1) none this(2) cu]
  have "map_of (pc_map (cache_push t (cache_put t (projection_new now t) ?c))) t = Some (projection_new now t)" .
  then show ?thesis
    using assms(2,3) n cu by (auto simp: ensure_projection_def andThen_apply get_op_result cache_get_def
        none bs_proj_def intro: exI [of _ now])
qed

text \<open>
  The store cannot tell a task that does not exist from one just created: for an id whose stream is
  empty it answers that the task exists and is in the state \<open>Created\<close>, never that there is none.
\<close>

theorem unknown_task_looks_created:
  assumes "bs_inv s" "bs_proj s t = None"
    and "br_consume (se_broker env) (se_namespace env) t ''fixus-reads'' ''singleton'' (st_world s) = (ss, w)"
    and "ss_join ss = Inr shards" "ss_open ss = Inr ()" "ss_leave ss = Inr ()"
    and "\<forall>x \<in> set (ss_frames ss). \<exists>f. snd x = Inr f \<and> (\<forall>r. f \<noteq> FrRecord r)"
  shows "fst (get_task_state env t s) = Inr (Some Created) \<and> fst (task_exists env t s) = Inr True"
proof -
  obtain s' now where e: "ensure_projection env t s = (Inr (), s')" "bs_proj s' t = Some (projection_new now t)"
    using ensure_empty_stream [OF assms] by blast
  then show ?thesis
    using assms(2)
    by (auto simp: get_task_state_def with_projection_def task_exists_def andThen_apply get_op_result
        attempt_apply bs_proj_def cache_get_def e)
qed

theorem unknown_task_looks_created_witness:
  "fst (get_task_state sample_env ''nobody'' (sample_store Ready)) = Inr (Some Created)"
  using unknown_task_looks_created [OF bs_inv_sample, of Ready "''nobody''" sample_env _ _ "[0]"]
  by (simp add: bs_proj_def sample_env_def counting_broker_def)

text \<open>
  The count of turns since a sequence number counts events: a turn whose first event is after the
  number counts once for every event it has.
\<close>

theorem turn_count_counts_events:
  "turns_after n (replay cd recs (projection_new now t)) =
     int (length (filter
       (\<lambda>e. case ae_turn_id e of
              None \<Rightarrow> False
            | Some tid \<Rightarrow>
                ae_seq (hd (filter (\<lambda>e'. ae_turn_id e' = Some tid) (events_of cd t recs))) > n)
       (events_of cd t recs)))"
proof -
  let ?evs = "events_of cd t recs"
  have seqs: "turn_seqs tid (fold (apply_ae cd) ?evs (projection_new now t)) =
      map ae_seq (filter (\<lambda>e. ae_turn_id e = Some tid) ?evs)" for tid
    by (simp add: fold_turn_seqs)
  have len: "length (filter P (List.map_filter ae_turn_id evs)) =
      length (filter (\<lambda>e. case ae_turn_id e of None \<Rightarrow> False | Some tid \<Rightarrow> P tid) evs)" for P evs
    by (induction evs) (auto simp: List.map_filter_simps split: option.split)
  have first: "(case map ae_seq (filter (\<lambda>e. ae_turn_id e = Some tid) ?evs) of [] \<Rightarrow> False | s # _ \<Rightarrow> n < s)
      \<longleftrightarrow> n < ae_seq (hd (filter (\<lambda>e. ae_turn_id e = Some tid) ?evs))"
    if "e \<in> set ?evs" "ae_turn_id e = Some tid" for e tid
    using that by (cases "filter (\<lambda>e. ae_turn_id e = Some tid) ?evs") (auto simp: filter_empty_conv)
  have "filter (\<lambda>e. case ae_turn_id e of None \<Rightarrow> False | Some tid \<Rightarrow>
      (case map ae_seq (filter (\<lambda>e. ae_turn_id e = Some tid) ?evs) of [] \<Rightarrow> False | s # _ \<Rightarrow> n < s)) ?evs =
    filter (\<lambda>e. case ae_turn_id e of None \<Rightarrow> False | Some tid \<Rightarrow>
      ae_seq (hd (filter (\<lambda>e'. ae_turn_id e' = Some tid) ?evs)) > n) ?evs"
    by (rule filter_cong [OF refl]) (auto simp: first split: option.split)
  then show ?thesis
    unfolding turns_after_def replay_events projection_new_simps fold_recent
    by (simp only: seqs len append_Nil)
qed

section \<open>Tenant policies\<close>

text \<open>The records a scan looks at.\<close>

fun scanned :: "nat list \<Rightarrow> nat list \<Rightarrow> (int \<times> (string + frame)) list \<Rightarrow> record_frame list" where
  "scanned shards caught [] = []"
| "scanned shards caught ((now, Inl e) # fs) = []"
| "scanned shards caught ((now, Inr f) # fs) =
     (let recs = (case f of FrRecord r \<Rightarrow> [r] | _ \<Rightarrow> []);
          caught = (case f of FrCaughtUp sh \<Rightarrow> List.insert sh caught | _ \<Rightarrow> caught)
      in if (shards \<noteq> [] \<and> set caught = set shards) \<or> shards = [] then recs
         else recs @ scanned shards caught fs)"

definition newest :: "(int \<times> string) option \<Rightarrow> record_frame list \<Rightarrow> (int \<times> string) option" where
  "newest = foldl (\<lambda>latest r.
     if (case latest of None \<Rightarrow> True | Some (s, _) \<Rightarrow> rf_seq r > s) then Some (rf_seq r, rf_content r)
     else latest)"

lemma scan_latest_newest: "scan_latest shards caught latest fs = newest latest (scanned shards caught fs)"
  by (induction shards caught latest fs rule: scan_latest.induct)
     (auto simp: Let_def newest_def split: frame.split)

lemma newest_max:
  "newest latest recs = Some (s, c) \<Longrightarrow>
     (\<forall>r \<in> set recs. rf_seq r \<le> s) \<and> (\<forall>q d. latest = Some (q, d) \<longrightarrow> q \<le> s) \<and>
     (latest = Some (s, c) \<or> (\<exists>r \<in> set recs. rf_seq r = s \<and> rf_content r = c))"
proof (induction recs arbitrary: latest)
  case Nil
  then show ?case by (simp add: newest_def)
next
  case (Cons r recs)
  let ?l = "if (case latest of None \<Rightarrow> True | Some (s, _) \<Rightarrow> rf_seq r > s)
    then Some (rf_seq r, rf_content r) else latest"
  have "newest ?l recs = Some (s, c)" using Cons.prems by (simp add: newest_def)
  from Cons.IH [OF this] show ?case by (force split: if_splits option.splits)
qed

lemma newest_None: "newest latest recs = None \<longleftrightarrow> latest = None \<and> recs = []"
proof (induction recs arbitrary: latest)
  case Nil
  then show ?case by (simp add: newest_def)
next
  case (Cons r recs)
  have "newest latest (r # recs) = newest (if (case latest of None \<Rightarrow> True | Some (s, _) \<Rightarrow> rf_seq r > s)
    then Some (rf_seq r, rf_content r) else latest) recs" by (simp add: newest_def)
  with Cons show ?case by (auto split: option.splits)
qed

text \<open>
  The tenant's policy is the last one set: of the records the scan of the policy stream sees, it
  takes one with the greatest sequence number, whatever the order of the shards, and it finds none
  exactly when there is none.
\<close>

theorem tenant_policy_latest_wins:
  "case scan_latest shards [] None fs of
     None \<Rightarrow> scanned shards [] fs = []
   | Some (s, c) \<Rightarrow>
       (s, c) \<in> (\<lambda>r. (rf_seq r, rf_content r)) ` set (scanned shards [] fs) \<and>
       rf_seq ` set (scanned shards [] fs) \<subseteq> {..s}"
proof (cases "scan_latest shards [] None fs")
  case None
  then have "scanned shards [] fs = []" by (simp add: scan_latest_newest newest_None)
  with None show ?thesis by simp
next
  case (Some sc)
  obtain s c where sc: "sc = (s, c)" by fastforce
  have "newest None (scanned shards [] fs) = Some (s, c)"
    using Some sc by (simp add: scan_latest_newest)
  from newest_max [OF this] Some sc show ?thesis by (auto simp: image_iff)
qed

text \<open>
  Two tenants can share one policy stream: every character outside the safe set becomes a dash, so
  the ids \<open>a/b\<close> and \<open>a-b\<close> read and overwrite each other's policy.
\<close>

theorem tenant_streams_collide:
  "tenant_policy_stream table ''a/b'' = tenant_policy_stream table ''a-b''"
  by (simp add: tenant_policy_stream_def is_alphanumeric_def is_ascii_alphanumeric_def is_continuation_def Let_def)

section \<open>Dispatch\<close>

text \<open>The world after \<open>k\<close> attempts to produce the same record.\<close>

definition after_attempts :: "'w store_env \<Rightarrow> produce_request \<Rightarrow> nat \<Rightarrow> 'w \<Rightarrow> 'w" where
  "after_attempts env req k = ((\<lambda>w. snd (br_produce (se_broker env) req w)) ^^ k)"

definition attempt_ok :: "'w store_env \<Rightarrow> produce_request \<Rightarrow> nat \<Rightarrow> 'w \<Rightarrow> bool" where
  "attempt_ok env req k w \<longleftrightarrow> \<not> isl (fst (br_produce (se_broker env) req (after_attempts env req k w)))"

lemma after_attempts_Suc:
  "after_attempts env req (Suc k) w = after_attempts env req k (snd (br_produce (se_broker env) req w))"
  by (simp only: after_attempts_def funpow_Suc_right o_apply)

lemma dispatch_attempts_spec:
  "(\<exists>k<n. attempt_ok env req k (st_world s) \<and> (\<forall>j<k. \<not> attempt_ok env req j (st_world s)) \<and>
      dispatch_attempts n e env req s = (Inr (), s\<lparr>st_world := after_attempts env req (Suc k) (st_world s)\<rparr>)) \<or>
   ((\<forall>k<n. \<not> attempt_ok env req k (st_world s)) \<and>
      (\<exists>x. dispatch_attempts n e env req s = (Inl x, s\<lparr>st_world := after_attempts env req n (st_world s)\<rparr>)))"
proof (induction n arbitrary: s e)
  case 0
  then show ?case by (simp add: after_attempts_def)
next
  case (Suc n)
  obtain r w where p: "br_produce (se_broker env) req (st_world s) = (r, w)" by fastforce
  have shift: "attempt_ok env req (Suc k) (st_world s) = attempt_ok env req k w" for k
    by (simp add: attempt_ok_def after_attempts_Suc p)
  have first: "attempt_ok env req 0 (st_world s) \<longleftrightarrow> \<not> isl r"
    by (simp add: attempt_ok_def after_attempts_def p)
  show ?case
  proof (cases r)
    case (Inr x)
    then show ?thesis
      using p first by (intro disjI1 exI [of _ 0]) (simp add: after_attempts_Suc after_attempts_def)
  next
    case (Inl x)
    let ?s = "s\<lparr>st_world := w\<rparr>"
    have d: "dispatch_attempts (Suc n) e env req s = dispatch_attempts n x env req ?s"
      using p Inl by simp
    from Suc.IH [of ?s x] show ?thesis
    proof
      assume "\<exists>k<n. attempt_ok env req k (st_world ?s) \<and> (\<forall>j<k. \<not> attempt_ok env req j (st_world ?s)) \<and>
        dispatch_attempts n x env req ?s =
          (Inr (), ?s\<lparr>st_world := after_attempts env req (Suc k) (st_world ?s)\<rparr>)"
      then obtain k where k: "k < n" "attempt_ok env req k w" "\<forall>j<k. \<not> attempt_ok env req j w"
        "dispatch_attempts n x env req ?s = (Inr (), s\<lparr>st_world := after_attempts env req (Suc k) w\<rparr>)"
        by auto
      have "\<forall>j<Suc k. \<not> attempt_ok env req j (st_world s)"
        using k(3) first Inl shift by (auto simp: less_Suc_eq_0_disj)
      then show ?thesis
        using k d shift p
        by (intro disjI1 exI [of _ "Suc k"]) (simp add: after_attempts_Suc [of env req _ "st_world s"])
    next
      assume a: "(\<forall>k<n. \<not> attempt_ok env req k (st_world ?s)) \<and>
        (\<exists>y. dispatch_attempts n x env req ?s = (Inl y, ?s\<lparr>st_world := after_attempts env req n (st_world ?s)\<rparr>))"
      then have "\<forall>k<Suc n. \<not> attempt_ok env req k (st_world s)"
        using first Inl shift by (auto simp: less_Suc_eq_0_disj)
      with a show ?thesis
        using d p by (auto simp: after_attempts_Suc)
    qed
  qed
qed

definition tool_request :: "'w store_env \<Rightarrow> string \<Rightarrow> agent_event \<Rightarrow> produce_request" where
  "tool_request env tid e =
     \<lparr>pq_namespace = se_namespace env,
      pq_stream = ''tool-invoke-'' @ unwrap_or ''default'' (se_region env),
      pq_event_type = event_type_as_str (ae_event_type e), pq_timestamp_ns = 0,
      pq_content_type = ''application/json'', pq_metadata = event_meta e,
      pq_content = to_vec (se_codec env) (ae_payload e), pq_shard_key = Some tid\<rparr>"

text \<open>
  Dispatching a tool tries at most three times and stops at the first success: it succeeds exactly
  when one of the first three attempts does, leaves the world as that attempt left it, and otherwise
  reports an error after the third.
\<close>

theorem dispatch_tool_three_attempts:
  "(\<exists>k<3. attempt_ok env (tool_request env t e) k (st_world s) \<and>
      fst (dispatch_tool env t e s) = Inr () \<and>
      st_world (snd (dispatch_tool env t e s)) = after_attempts env (tool_request env t e) (Suc k) (st_world s)) \<or>
   (\<not> (\<exists>k<3. attempt_ok env (tool_request env t e) k (st_world s)) \<and>
      isl (fst (dispatch_tool env t e s)) \<and>
      st_world (snd (dispatch_tool env t e s)) = after_attempts env (tool_request env t e) 3 (st_world s))"
  using dispatch_attempts_spec [of 3 env "tool_request env t e" s "[]"]
  unfolding dispatch_tool_def tool_request_def [symmetric] by auto

end
