(* ===== verification/Orchestrator_Properties.thy ===== *)
theory Orchestrator_Properties
  imports Orchestrator_Invariants Store_Properties "HOL-Library.Sublist"
begin

text \<open>
  What the orchestrator promises: the reachable states are safe, the queue is always worked off, a
  caller always gets an outcome, a completion is written before anyone hears of it, and where it falls
  short of its comments.
\<close>

section \<open>Operations that leave the queue alone\<close>

interpretation same_queue: orch_frame "\<lambda>ob. oc_dispatcher ob = d" env for d env
  by unfold_locales simp_all

lemma keeps_queue:
  "preserves (\<lambda>ob. oc_dispatcher ob = oc_dispatcher s) m \<Longrightarrow> oc_dispatcher (snd (m s)) = oc_dispatcher s"
  by (simp add: preserves_def)

lemmas queue_kept = keeps_queue [OF same_queue.pres_dispatch_with_retry]
  keeps_queue [OF same_queue.pres_fail] keeps_queue [OF same_queue.pres_retry_turn]
  keeps_queue [OF same_queue.pres_reads(1)] keeps_queue [OF same_queue.pres_reads(2)]
  keeps_queue [OF same_queue.pres_reads(4)] keeps_queue [OF same_queue.pres_reads(5)]

text \<open>Closing a turn never fails: the errors of its writes are dropped.\<close>

lemma elapsed_ok: "\<exists>e. fst (elapsed env t ob) = Inr e"
  by (simp add: elapsed_def andThen_def tick_def)

lemma task_type_or_unknown_ok: "\<exists>t. fst (task_type_or_unknown env tid ob) = Inr t"
  by (simp add: task_type_or_unknown_def attempt_def split: prod.split)

lemma andThen_ok:
  assumes "\<exists>x. fst (m s) = Inr x" and "\<And>x s'. \<exists>y. fst (f x s') = Inr y"
  shows "\<exists>y. fst (andThen m f s) = Inr y"
  using assms by (auto simp: andThen_def split: prod.split sum.split)

lemma record_turn_terminal_metric_ok: "\<exists>u. fst (record_turn_terminal_metric env tid n out ob) = Inr u"
  unfolding record_turn_terminal_metric_def
  by (intro andThen_ok elapsed_ok task_type_or_unknown_ok)
     (auto simp: take_dispatch_time_def metric_def upd_def elapsed_ok split: option.split)

lemma fail_task_with_reason_ok:
  "fst (fail_task_with_reason env tid n reason et em ob) = Inr (TurnOutcomeFailed n et em)"
proof -
  obtain u s where "record_turn_terminal_metric env tid n ''failed'' (snd (clear_retry tid n ob)) = (Inr u, s)"
    using record_turn_terminal_metric_ok [of env tid n "''failed''" "snd (clear_retry tid n ob)"]
    by (metis prod.collapse)
  then show ?thesis
    by (simp add: fail_task_with_reason_def andThen_apply clear_retry_def upd_def discard_def notify_def
        Let_def)
qed

section \<open>Working off the queue\<close>

lemma heap_pop_length: "heap_pop es = Some (e, rest) \<Longrightarrow> Suc (length rest) = length es"
proof -
  assume p: "heap_pop es = Some (e, rest)"
  from heap_pop_SomeD(1) [OF p] have "0 < length es" by (rule length_pos_if_in_set)
  with heap_pop_SomeD(1,2) [OF p] show "Suc (length rest) = length es"
    by (simp add: length_remove1)
qed

lemma try_pop_pending:
  assumes "try_pop tt d = (Some t, d')"
  shows "Suc (pending_count tt d') = pending_count tt d"
  using assms
  by (auto simp: try_pop_def pending_count_def hash_lookup_update heap_pop_length
      split: option.splits if_splits)

lemma try_pop_None_iff:
  "fst (try_pop tt d) = None \<longleftrightarrow>
     pending_count tt d = 0 \<or> (pending_count tt d > 0 \<and> d_max_concurrent d \<le> in_flight tt d)"
  by (auto simp: try_pop_def pending_count_def in_flight_def split: option.split)

lemma pending_on_turn_terminal [simp]: "pending_count tt' (on_turn_terminal tt d) = pending_count tt' d"
  by (simp add: pending_count_waiting)

lemma dispatch_one_queue:
  "oc_dispatcher (snd (dispatch_one env turn ob)) \<in>
     {oc_dispatcher ob, on_turn_terminal (qt_task_type turn) (oc_dispatcher ob)}"
proof -
  let ?d = "\<lambda>ob. oc_dispatcher ob"
  obtain e s1 where s1: "elapsed env (qt_enqueued_at turn) ob = (Inr e, s1)"
    using elapsed_ok [of env "qt_enqueued_at turn" ob] by (metis prod.collapse)
  then have d1: "?d s1 = ?d ob" using queue_kept(6) [of env "qt_enqueued_at turn" ob] by simp
  define s2 where "s2 = snd (metric (record_turn_dispatched (qt_task_type turn) e) s1)"
  have d2: "?d s2 = ?d ob" using d1 by (simp add: s2_def metric_def upd_def)
  obtain s3 where s3: "set_dispatch_time env (turn_key (qt_task_id turn) (qt_turn_id turn)) s2 = (Inr (), s3)"
    by (simp add: set_dispatch_time_def andThen_def tick_def upd_def)
  then have d3: "?d s3 = ?d ob"
    using queue_kept(7) [of env "turn_key (qt_task_id turn) (qt_turn_id turn)" s2] d2 by simp
  let ?m = "dispatch_with_retry env (qt_task_id turn) (qt_turn_id turn) (qt_user_input turn)
      (qt_redo_group turn) (qt_redo_count turn) (qt_cached_llm turn)"
  obtain r s4 where s4: "?m s3 = (r, s4)" by (cases "?m s3")
  then have d4: "?d s4 = ?d ob"
    using queue_kept(1) [of env "qt_task_id turn" "qt_turn_id turn" "qt_user_input turn"
        "qt_redo_group turn" "qt_redo_count turn" "qt_cached_llm turn" s3] d3 by simp
  have "dispatch_one env turn ob =
     (case r of Inr _ \<Rightarrow> (Inr (), s4)
      | Inl e \<Rightarrow> discard (fail_task_with_reason env (qt_task_id turn) (qt_turn_id turn)
          RedoDispatchFailed ''redo_dispatch_failed'' (error_text env e))
          (s4\<lparr>oc_dispatcher := on_turn_terminal (qt_task_type turn) (?d s4)\<rparr>))"
    using s1 s3 s4
    by (simp add: dispatch_one_def Let_def andThen_apply attempt_apply metric_def upd_def s2_def
        release_slot_def split: sum.split)
  then show ?thesis
    using d4 by (cases r) (simp_all add: discard_def queue_kept(2))
qed

lemma dispatch_one_pending:
  "pending_count tt (oc_dispatcher (snd (dispatch_one env turn ob))) = pending_count tt (oc_dispatcher ob)"
  using dispatch_one_queue [of env turn ob] by auto

lemma dispatch_one_ok: "\<exists>u. fst (dispatch_one env turn ob) = Inr u"
  unfolding dispatch_one_def Let_def
  by (intro andThen_ok elapsed_ok)
     (auto simp: metric_def upd_def set_dispatch_time_def andThen_def tick_def attempt_def discard_def
       release_slot_def split: prod.split sum.split)

text \<open>
  A pass takes one turn out, so more fuel than turns is never used up: the loop ends where the queue
  is empty or the type is at its limit.
\<close>

lemma dispatch_loop_end:
  "pending_count tt (oc_dispatcher ob) < k \<Longrightarrow>
     fst (dispatch_loop k env tt ob) = Inr () \<and>
     fst (try_pop tt (oc_dispatcher (snd (dispatch_loop k env tt ob)))) = None"
proof (induction k arbitrary: ob)
  case 0
  then show ?case by simp
next
  case (Suc k)
  obtain t d where p: "try_pop tt (oc_dispatcher ob) = (t, d)" by (cases "try_pop tt (oc_dispatcher ob)")
  let ?s = "ob\<lparr>oc_dispatcher := d\<rparr>"
  show ?case
  proof (cases t)
    case None
    with p have "d = oc_dispatcher ob" by (auto simp: try_pop_def split: option.splits if_splits)
    with None p show ?thesis by (simp add: andThen_apply pop_turn_def)
  next
    case (Some turn)
    obtain u s' where s': "dispatch_one env turn ?s = (Inr u, s')"
      using dispatch_one_ok [of env turn ?s] by (metis prod.collapse)
    have "Suc (pending_count tt d) = pending_count tt (oc_dispatcher ob)"
      using try_pop_pending p Some by blast
    moreover have "pending_count tt (oc_dispatcher s') = pending_count tt d"
      using dispatch_one_pending [of tt env turn ?s] s' by simp
    ultimately have "pending_count tt (oc_dispatcher s') < k" using Suc.prems by linarith
    from Suc.IH [OF this] p Some s' show ?thesis by (simp add: andThen_apply pop_turn_def)
  qed
qed

lemma dispatch_pending_end:
  "fst (dispatch_pending env tt ob) = Inr ()"
  "fst (try_pop tt (oc_dispatcher (snd (dispatch_pending env tt ob)))) = None"
  using dispatch_loop_end [of tt ob "Suc (pending_count tt (oc_dispatcher ob))" env]
  by (simp_all add: dispatch_pending_def)

text \<open>
  C7. Dispatching is work-conserving: however the dispatches go, after a pass over a type's queue
  either no turn of that type is waiting or the type is at its concurrency limit.
\<close>

theorem dispatch_pending_work_conserving:
  "let d = oc_dispatcher (snd (dispatch_pending env tt ob))
   in pending_count tt d = 0 \<or> d_max_concurrent d \<le> in_flight tt d"
  using dispatch_pending_end(2) [of tt env ob] by (auto simp: try_pop_None_iff Let_def)

section \<open>Reachable states\<close>

text \<open>
  Whatever happens, in whatever order, and however the work is interleaved with callers that wait:
  no task type has more turns in flight than the limit, every channel handed to a waiter is either
  still registered or was sent exactly one outcome, and each terminal and dispatch counter agrees with
  the number of observations of its histogram.
\<close>

theorem reachable_states_safe:
  "{ob. reaches env sched (orchestrator_new s n) ob} \<subseteq>
   {ob. (\<forall>tt. in_flight tt (oc_dispatcher ob) \<le> max n 1) \<and> registry_ok (oc_registry ob) \<and>
        metrics_ok (oc_metrics ob)}"
  using reaches_ok [OF _ orch_ok_new] by (force simp: orch_ok_def within_capacity_def)

text \<open>
  C19. The retry counters never leave the budget: in every reachable state each turn's counter is
  between 1 and \<open>max_attempts\<close>; a turn that is closed or has completed has none.
\<close>

theorem retry_counters_within_budget:
  assumes "in_i32 (max_attempts (oe_retry_policy env))"
  shows "{c. \<exists>ob key. reaches env sched (orchestrator_new s n) ob \<and>
             map_of (oc_retry_attempts ob) key = Some c} \<subseteq> {1..max_attempts (oe_retry_policy env)}"
proof (rule subsetI, unfold mem_Collect_eq)
  fix c
  assume "\<exists>ob key. reaches env sched (orchestrator_new s n) ob \<and> map_of (oc_retry_attempts ob) key = Some c"
  then obtain ob key where r: "reaches env sched (orchestrator_new s n) ob"
    and m: "map_of (oc_retry_attempts ob) key = Some c" by blast
  from reaches_ok [OF r orch_ok_new] assms
  have "snd ` set (oc_retry_attempts ob) \<subseteq> {1..max_attempts (oe_retry_policy env)}"
    by (simp add: orch_ok_def budget_ok_def)
  moreover from m have "c \<in> snd ` set (oc_retry_attempts ob)" by (force dest: map_of_SomeD)
  ultimately show "c \<in> {1..max_attempts (oe_retry_policy env)}" by blast
qed

text \<open>
  Nothing the program does ever sets the instant of the last successful dispatch, so the health
  report says \<open>unknown\<close> of the broker in every reachable state.
\<close>

theorem broker_health_always_unknown:
  "{st. \<exists>ob h. reaches env sched (orchestrator_new s n) ob \<and> fst (health env ob) = Inr h \<and>
        st = dh_status (hs_broker h)} \<subseteq> {''unknown''}"
proof -
  have "dh_status (hs_broker h) = ''unknown''"
    if "reaches env sched (orchestrator_new s n) ob" "fst (health env ob) = Inr h" for ob h
  proof -
    from reaches_ok [OF that(1) orch_ok_new] have "oc_last_dispatch_ok ob = None"
      by (simp add: orch_ok_def)
    with that(2) show ?thesis
      by (auto simp: health_def andThen_def tick_def dependency_health_of_def)
  qed
  then show ?thesis by blast
qed

section \<open>Waiting for an outcome\<close>

lemma extend_deadlines_eq:
  "extend_deadlines (\<lambda>d. Some (scl d)) m cur ds = Some (ds @ map (\<lambda>i. (scl ^^ Suc i) cur) [0..<m])"
proof (induction m arbitrary: cur ds)
  case 0
  then show ?case by simp
next
  case (Suc m)
  have "map (\<lambda>i. (scl ^^ Suc i) cur) [0..<Suc m] = scl cur # map (\<lambda>i. (scl ^^ Suc i) (scl cur)) [0..<m]"
    unfolding map_upt_Suc by (simp add: funpow_swap1)
  with Suc show ?case by (simp add: Let_def del: upt_Suc funpow.simps)
qed

text \<open>
  The deadlines of a turn, when every product is a duration, are the initial timeout scaled 0, 1, up to
  \<open>max_extensions\<close> times. Each is counted from the start of the turn, so the last one bounds the whole wait, not the sum of all.
\<close>

theorem extension_deadlines_exact:
  "compute_extension_deadlines initial m (\<lambda>d. Some (scl d)) = Some (map (\<lambda>i. (scl ^^ i) initial) [0..<Suc m]) \<and>
   last (map (\<lambda>i. (scl ^^ i) initial) [0..<Suc m]) = (scl ^^ m) initial"
proof -
  have "compute_extension_deadlines initial m (\<lambda>d. Some (scl d)) = Some (map (\<lambda>i. (scl ^^ i) initial) [0..<Suc m])"
    unfolding map_upt_Suc by (simp add: compute_extension_deadlines_def extend_deadlines_eq)
  then show ?thesis by simp
qed

lemma await_result:
  assumes "registry_ok (oc_registry ob')" "ch < tg_next_channel (oc_registry ob')"
    and "await_outcome env ch d ob = (r, ob')"
  shows "r = Inr WaitElapsed \<or> (\<exists>out. r = Inr (WaitDone out) \<and> (ch, out) \<in> set (tg_sent (oc_registry ob')))"
proof -
  from assms(3) have ob': "ob' = oe_others env ch d ob" by (simp add: await_outcome_def Let_def)
  show ?thesis
  proof (cases "map_of (tg_sent (oc_registry ob')) ch")
    case None
    then have "ch \<notin> set (done_channels (oc_registry ob'))"
      by (auto simp: done_channels_def map_of_eq_None_iff)
    with assms(1,2) have "ch \<in> set (open_channels (oc_registry ob'))"
      by (auto simp: registry_ok_def)
    with None assms(3) ob' show ?thesis by (auto simp: await_outcome_def Let_def)
  next
    case (Some out)
    with assms(3) ob' show ?thesis
      by (auto simp: await_outcome_def Let_def dest: map_of_SomeD)
  qed
qed

lemma release_slot_and_redispatch_ok: "\<exists>u. fst (release_slot_and_redispatch env tid ob) = Inr u"
  by (auto simp: release_slot_and_redispatch_def attempt_def andThen_def release_slot_def upd_def
      dispatch_pending_end(1) split: prod.split sum.split)

lemma fail_turn_and_respond_ok:
  "fst (fail_turn_and_respond env tid n et em ob) = Inr (TurnOutcomeFailed n et em)"
proof -
  obtain s where s: "fail_task_with_reason env tid n (classify_failure et em) et em ob =
      (Inr (TurnOutcomeFailed n et em), s)"
    using fail_task_with_reason_ok [of env tid n "classify_failure et em" et em ob] by (metis prod.collapse)
  obtain u s' where "release_slot_and_redispatch env tid s = (Inr u, s')"
    using release_slot_and_redispatch_ok [of env tid s] by (metis prod.collapse)
  with s show ?thesis by (simp add: fail_turn_and_respond_def andThen_apply)
qed

lemma wait_turn_outcome:
  assumes "orch_ok (oe_retry_policy env) cap (Suc ch) ob"
  shows "\<exists>out ob'. wait_turn (with_schedule sched env) tid n ch ds start k ob = (Inr out, ob') \<and>
    ((ch, out) \<in> set (tg_sent (oc_registry ob')) \<or> (\<exists>msg. out = TurnOutcomeFailed n ''timeout'' msg))"
  using assms
proof (induction "length ds - k" arbitrary: k ob rule: less_induct)
  case less
  let ?env = "with_schedule sched env"
  obtain e s1 where s1: "elapsed ?env start ob = (Inr e, s1)"
    using elapsed_ok [of ?env start ob] by (metis prod.collapse)
  have ok1: "orch_ok (oe_retry_policy env) cap (Suc ch) s1"
    using preservesD [OF ok_rt.pres_reads(4) less.prems] s1 by (metis snd_conv)
  let ?d = "fst (next_remaining ds k e)"
  obtain r s2 where s2: "await_outcome ?env ch ?d s1 = (r, s2)" by (cases "await_outcome ?env ch ?d s1")
  have ok2: "orch_ok (oe_retry_policy env) cap (Suc ch) s2"
    using preservesD [OF ok_rt.pres_await ok1] s2 by (metis snd_conv)
  then have "registry_ok (oc_registry s2)" "ch < tg_next_channel (oc_registry s2)"
    by (auto simp: orch_ok_def)
  from await_result [OF this s2] consider "r = Inr WaitElapsed"
    | out where "r = Inr (WaitDone out)" "(ch, out) \<in> set (tg_sent (oc_registry s2))" by blast
  then show ?case
  proof cases
    case 1
    show ?thesis
    proof (cases "snd (next_remaining ds (k + 1) e)")
      case True
      obtain t s3 where s3: "elapsed ?env start s2 = (Inr t, s3)"
        using elapsed_ok [of ?env start s2] by (metis prod.collapse)
      let ?msg = "''Turn timed out after '' @ show_nat (length ds) @ '' attempts ('' @
          show_nat (t div 1000000000) @ ''s total)''"
      obtain s4 where "fail_turn_and_respond ?env tid n ''timeout'' ?msg s3 =
          (Inr (TurnOutcomeFailed n ''timeout'' ?msg), s4)"
        using fail_turn_and_respond_ok [of ?env tid n "''timeout''" ?msg s3] by (metis prod.collapse)
      with True 1 s1 s2 s3 show ?thesis
        by (subst wait_turn.simps) (simp add: andThen_apply)
    next
      case False
      then have "length ds - (k + 1) < length ds - k" by (simp add: next_remaining_def Let_def)
      from less.hyps [OF this ok2] False 1 s1 s2 show ?thesis
        by (subst wait_turn.simps) (simp add: andThen_apply)
    qed
  next
    case 2
    with s1 s2 show ?thesis by (subst wait_turn.simps) (auto simp: andThen_apply)
  qed
qed

text \<open>
  C6. A waiting caller is always answered, whatever its deadlines: the wait ends after at most as many rounds
  as there are deadlines, with the outcome that was sent on the caller's channel or with a timeout failure of its
  turn. That the channel is closed without an outcome, which the code handles, never happens.
\<close>

theorem waiting_caller_is_answered:
  assumes "orch_ok (oe_retry_policy env) cap (Suc ch) ob"
  shows "\<exists>out ob'. wait_turn (with_schedule sched env) tid n ch deadlines start 0 ob = (Inr out, ob') \<and>
    ((ch, out) \<in> set (tg_sent (oc_registry ob')) \<or> (\<exists>msg. out = TurnOutcomeFailed n ''timeout'' msg))"
  using wait_turn_outcome [OF assms] .

section \<open>An orchestrator for the examples\<close>

definition sample_orch_env :: "int store orch_env" where
  "sample_orch_env =
     \<lparr>oe_store = broker_event_store sample_env, oe_codec = sample_codec (JObj []),
      oe_turn_timeout = 600, oe_max_extensions = 3, oe_scale = (\<lambda>d. Some (d * 3 div 2)),
      oe_retry_policy = retry_policy_default, oe_wall = int, oe_instant = int,
      oe_fresh = show_nat, oe_prose = (\<lambda>_. []), oe_redis = True, oe_times_iter = (\<lambda>xs. xs),
      oe_others = (\<lambda>_ _ ob. ob)\<rparr>"

definition sample_orch :: "int store orch" where
  "sample_orch = snd (open_turn ''t'' 1 ''rg'' (orchestrator_new (sample_store Executing) 2))"

lemma sample_orch_ok: "orch_ok pol 2 (Suc 0) sample_orch"
proof -
  have "orch_ok pol 2 0 sample_orch"
    using preservesD [OF ok.pres_registry(2)
        [where env = "sample_orch_env\<lparr>oe_retry_policy := pol\<rparr>" and cap = 2 and lo = 0]]
      orch_ok_new [of pol 2 "sample_store Executing"]
    unfolding sample_orch_def by (simp add: numeral_2_eq_2)
  then show ?thesis
    by (simp add: orch_ok_def sample_orch_def open_turn_def pending_turn_new_def orchestrator_new_def
        registry_new_def register_pending_turn_def)
qed

text \<open>Here a health request is served during each wait but the first.\<close>

theorem waiting_caller_is_answered_witness:
  "\<exists>out ob'. wait_turn (with_schedule (\<lambda>ch d. if d < 900 then [] else [EvHealth]) sample_orch_env) ''t'' 1 0
     [600, 900, 1350] 0 0 sample_orch = (Inr out, ob') \<and>
     ((0, out) \<in> set (tg_sent (oc_registry ob')) \<or> (\<exists>msg. out = TurnOutcomeFailed 1 ''timeout'' msg))"
  by (rule waiting_caller_is_answered [OF sample_orch_ok])

theorem retry_counters_within_budget_witness:
  "{c. \<exists>ob key. reaches sample_orch_env (\<lambda>_ _. []) (orchestrator_new (sample_store Ready) 2) ob \<and>
       map_of (oc_retry_attempts ob) key = Some c} \<subseteq> {1..2}"
  using retry_counters_within_budget [of sample_orch_env "\<lambda>_ _. []" "sample_store Ready" 2]
  by (simp add: sample_orch_env_def retry_policy_default_def in_i32_def)

section \<open>Completion\<close>

text \<open>
  C17. A completion is written before anyone hears of it: when the store refuses the \<open>turn_completed\<close>
  event, the handler returns that error, and the waiter, the queue, the counters, the dispatch times
  and the metrics are as they were.
\<close>

theorem completion_is_write_ahead:
  assumes "es_write_event (oe_store env)
      (agent_event_new (oe_wall env (oc_ticks ob)) tid (Some n) None TurnCompleted
        (turn_completed_payload final_output)) (oc_store ob) = (Inl e, s')"
  shows "handle_turn_execution_done env tid n q final_output ob =
     (Inl e, ob\<lparr>oc_store := s', oc_ticks := oc_ticks ob + 1\<rparr>)"
  using assms
  by (simp add: handle_turn_execution_done_def serve_def tick_def on_store_def complete_turn_def
      write_new_def andThen_apply)

section \<open>Dispatch keys\<close>

lemma colon_not_digit: "CHR '':'' \<notin> set (show_nat m)"
  using show_nat_digits [of "CHR '':''" m] by (auto simp: digit_val_def Let_def)

lemma colon_not_in_int: "CHR '':'' \<notin> set (show_int m)"
  using colon_not_digit by (simp add: show_int_def)

text \<open>
  The key under which a turn's dispatch is recorded names it: the watchdog reads back the task and
  the turn number it was made from, whatever characters the task id has.
\<close>

theorem turn_key_roundtrip:
  assumes "in_i64 n"
  shows "parse_turn_key (turn_key tid n) = Some (tid, n)"
proof -
  have t: "takeWhile (\<lambda>c. c \<noteq> CHR '':'') (rev (turn_key tid n)) = rev (show_int n)"
    using colon_not_in_int [of n] by (simp add: turn_key_def takeWhile_append2 takeWhile_append)
  have d: "dropWhile (\<lambda>c. c \<noteq> CHR '':'') (rev (turn_key tid n)) = CHR '':'' # rev tid"
    using colon_not_in_int [of n] by (simp add: turn_key_def dropWhile_append)
  show ?thesis
    using t d parse_show_int [OF assms]
    by (simp add: parse_turn_key_def rsplit_colon_def) (simp add: turn_key_def)
qed

theorem turn_key_roundtrip_witness: "parse_turn_key (turn_key ''a:7'' (- 3)) = Some (''a:7'', - 3)"
  by (rule turn_key_roundtrip) (simp add: in_i64_def)

section \<open>Closing a turn tells its waiter\<close>

interpretation same_registry: orch_base "\<lambda>ob. oc_registry ob = r" env for r env
  by unfold_locales simp_all

lemma keeps_registry:
  "preserves (\<lambda>ob. oc_registry ob = oc_registry s) m \<Longrightarrow> oc_registry (snd (m s)) = oc_registry s"
  by (simp add: preserves_def)

lemmas registry_kept = keeps_registry [OF same_registry.pres_dispatch_with_retry]
  keeps_registry [OF same_registry.pres_terminal_metric]
  keeps_registry [OF same_registry.pres_reads(1)] keeps_registry [OF same_registry.pres_reads(3)]
  keeps_registry [OF same_registry.pres_reads(6)]

lemma fail_task_with_reason_tells:
  assumes "map_of (tg_active_turns (oc_registry ob)) tid = Some p"
  shows "(pt_result_tx p, TurnOutcomeFailed n et em)
    \<in> set (tg_sent (oc_registry (snd (fail_task_with_reason env tid n reason et em ob))))"
proof -
  let ?s1 = "snd (clear_retry tid n ob)"
  obtain u s2 where s2: "record_turn_terminal_metric env tid n ''failed'' ?s1 = (Inr u, s2)"
    using record_turn_terminal_metric_ok [of env tid n "''failed''" ?s1] by (metis prod.collapse)
  let ?s3 = "snd (serve env (\<lambda>now. fail_turn (oe_store env) now tid n et em None (Some reason)) s2)"
  let ?s4 = "snd (serve env (\<lambda>now. fail_task (oe_store env) now tid
      (failure_reason_as_str reason @ '': '' @ et) (Some reason)) ?s3)"
  have "oc_registry ?s4 = oc_registry ob"
    using registry_kept(2) [of env tid n "''failed''" ?s1] s2
    by (simp add: registry_kept(3)) (simp add: clear_retry_def upd_def)
  moreover have "snd (fail_task_with_reason env tid n reason et em ob) =
      snd (notify tid (TurnOutcomeFailed n et em) ?s4)"
    using s2
    by (simp add: fail_task_with_reason_def andThen_apply discard_def Let_def notify_def upd_def
        clear_retry_def)
  ultimately show ?thesis
    using assms
    by (simp add: notify_def upd_def complete_pending_turn_def take_pending_turn_def send_def)
qed

lemma dispatch_tries_all_fail:
  assumes "\<And>s. \<exists>e. fst (m s) = Inl e"
  shows "\<exists>e. fst (dispatch_tries k env tries prev m s) = Inl e"
proof (induction k arbitrary: prev s)
  case 0
  then show ?case by simp
next
  case (Suc k)
  obtain e s' where "m s = (Inl e, s')" using assms [of s] by (metis prod.collapse)
  with Suc show ?case by (simp add: attempt_apply)
qed

text \<open>What giving up on a turn hands to the store, whose refusals are ignored: the two failures in turn.\<close>

definition closing_writes ::
  "'s orch_env \<Rightarrow> string \<Rightarrow> int \<Rightarrow> failure_reason \<Rightarrow> string \<Rightarrow> string \<Rightarrow> nat \<Rightarrow> 's \<Rightarrow> 's" where
  "closing_writes env tid n reason et em k s =
     (let es = oe_store env;
          turn_failed = agent_event_new (oe_wall env k) tid (Some n) None TurnFailed
            (turn_failed_payload et em (Some reason) None)
      in snd (fail_task es (oe_wall env (k + 1)) tid (failure_reason_as_str reason @ '': '' @ et) (Some reason)
               (snd (es_write_event es turn_failed s))))"

lemma snd_write_new: "snd (write_new es e s) = snd (es_write_event es e s)"
  by (simp add: write_new_def andThen_apply split: prod.split sum.split)

lemma snd_serve:
  "snd (serve env f ob) = ob\<lparr>oc_store := snd (f (oe_wall env (oc_ticks ob)) (oc_store ob)), oc_ticks := oc_ticks ob + 1\<rparr>"
  by (simp add: serve_def andThen_apply tick_def on_store_def split: prod.split)

lemma fail_task_with_reason_writes:
  assumes "record_turn_terminal_metric env tid n ''failed'' (snd (clear_retry tid n ob)) = (u, s2)"
  shows "oc_store (snd (fail_task_with_reason env tid n reason et em ob)) =
    closing_writes env tid n reason et em (oc_ticks s2) (oc_store s2)"
proof -
  obtain v where "u = Inr v"
    using record_turn_terminal_metric_ok [of env tid n "''failed''" "snd (clear_retry tid n ob)"] assms by auto
  with assms show ?thesis
    by (simp add: fail_task_with_reason_def andThen_apply discard_def Let_def notify_def upd_def clear_retry_def
        snd_serve closing_writes_def fail_turn_def snd_write_new)
qed

text \<open>A retry up to the point where its last attempt to dispatch is over.\<close>

definition retry_dispatched ::
  "'s orch_env \<Rightarrow> string \<Rightarrow> int \<Rightarrow> string \<Rightarrow> string \<Rightarrow> int \<Rightarrow> ('s, unit) oop" where
  "retry_dispatched env tid n ui rg c =
     andThen (task_type_or_unknown env tid) (\<lambda>tt.
     andThen (metric (record_retry tt)) (\<lambda>_.
     andThen (get_cached_llm_responses env tid n) (\<lambda>cached.
     dispatch_with_retry env tid n ui rg c cached)))"

text \<open>
  C18. When no attempt to dispatch a retry succeeds, the turn's failure and then the task's are written to
  the store, which may refuse them; the waiter is told and the event counts as handled. But the turn's
  concurrency slot is not given back: the dispatcher is as it was.
\<close>

theorem undispatchable_retry_keeps_slot:
  assumes "range (\<lambda>(cached, s). fst (dispatch_execute_turn env tid n ui rg c cached s)) \<inter> range Inr = {}"
    and "map_of (tg_active_turns (oc_registry ob)) tid = Some p"
  shows "\<exists>e given_up. retry_dispatched env tid n ui rg c ob = (Inl e, given_up) \<and>
     fst (retry_turn env tid n ui rg c ob) = Inr () \<and>
     oc_dispatcher (snd (retry_turn env tid n ui rg c ob)) = oc_dispatcher ob \<and>
     (pt_result_tx p, TurnOutcomeFailed n ''redo_dispatch_failed'' (error_text env e))
       \<in> set (tg_sent (oc_registry (snd (retry_turn env tid n ui rg c ob)))) \<and>
     (let counted = snd (record_turn_terminal_metric env tid n ''failed'' (snd (clear_retry tid n given_up)))
      in oc_store (snd (retry_turn env tid n ui rg c ob)) =
           closing_writes env tid n RedoDispatchFailed ''redo_dispatch_failed'' (error_text env e)
             (oc_ticks counted) (oc_store counted))"
proof -
  obtain t s1 where s1: "task_type_or_unknown env tid ob = (Inr t, s1)"
    using task_type_or_unknown_ok [of env tid ob] by (metis prod.collapse)
  then have r1: "oc_registry s1 = oc_registry ob" using registry_kept(4) [of env tid ob] by simp
  let ?s2 = "snd (metric (record_retry t) s1)"
  have r2: "oc_registry ?s2 = oc_registry ob" using r1 by (simp add: metric_def upd_def)
  obtain cached s3 where s3: "get_cached_llm_responses env tid n ?s2 = (Inr cached, s3)"
    by (cases "on_store (es_get_turn_events (oe_store env) tid n) ?s2")
       (auto simp: get_cached_llm_responses_def attempt_def)
  then have r3: "oc_registry s3 = oc_registry ob" using registry_kept(5) [of env tid n ?s2] r2 by simp
  have "\<exists>e. fst (dispatch_execute_turn env tid n ui rg c cached s) = Inl e" for s
    using assms(1) by (cases "fst (dispatch_execute_turn env tid n ui rg c cached s)") force+
  then have "\<exists>e. fst (dispatch_with_retry env tid n ui rg c cached s3) = Inl e"
    unfolding dispatch_with_retry_def Let_def by (rule dispatch_tries_all_fail)
  then obtain e s4 where s4: "dispatch_with_retry env tid n ui rg c cached s3 = (Inl e, s4)"
    by (metis prod.collapse)
  then have "oc_registry s4 = oc_registry ob"
    using registry_kept(1) [of env tid n ui rg c cached s3] r3 by simp
  with assms(2) have told: "(pt_result_tx p, TurnOutcomeFailed n ''redo_dispatch_failed'' (error_text env e))
      \<in> set (tg_sent (oc_registry (snd (fail_task_with_reason env tid n RedoDispatchFailed
          ''redo_dispatch_failed'' (error_text env e) s4))))"
    by (intro fail_task_with_reason_tells) simp
  obtain s5 where s5: "fail_task_with_reason env tid n RedoDispatchFailed ''redo_dispatch_failed''
      (error_text env e) s4 = (Inr (TurnOutcomeFailed n ''redo_dispatch_failed'' (error_text env e)), s5)"
    using fail_task_with_reason_ok by (metis prod.collapse)
  have run: "retry_turn env tid n ui rg c ob = (Inr (), s5)" "retry_dispatched env tid n ui rg c ob = (Inl e, s4)"
    using s1 s3 s4 s5
    by (simp_all add: retry_turn_def retry_dispatched_def andThen_apply attempt_apply metric_def upd_def)
  have "oc_store s5 = (let counted = snd (record_turn_terminal_metric env tid n ''failed'' (snd (clear_retry tid n s4)))
      in closing_writes env tid n RedoDispatchFailed ''redo_dispatch_failed'' (error_text env e)
           (oc_ticks counted) (oc_store counted))"
    using fail_task_with_reason_writes [OF surjective_pairing, where ob = s4 and env = env and tid = tid
        and n = n and reason = RedoDispatchFailed and et = "''redo_dispatch_failed''" and em = "error_text env e"] s5
    by (simp add: Let_def)
  with told s5 run queue_kept(3) [of env tid n ui rg c ob] show ?thesis by (auto simp: Let_def)
qed

text \<open>A broker that accepts no record.\<close>

definition broker_down :: "int store orch_env" where
  "broker_down = sample_orch_env\<lparr>oe_store := broker_event_store
     (sample_env\<lparr>se_broker := counting_broker\<lparr>br_produce := (\<lambda>req w. (Inl ''down'', w))\<rparr>\<rparr>)\<rparr>"

text \<open>A broker that refuses dispatch records only, so that the failures are written.\<close>

definition dispatch_refused :: "int store orch_env" where
  "dispatch_refused = sample_orch_env\<lparr>oe_store := broker_event_store
     (sample_env\<lparr>se_broker := counting_broker\<lparr>br_produce := (\<lambda>req w.
        if pq_event_type req = ''execute_turn'' then (Inl ''full'', w) else (Inr (w, w + 1), w + 1))\<rparr>\<rparr>)\<rparr>"

lemma dispatch_refused_publish [simp]:
  "es_publish_turn_begin (oe_store dispatch_refused) tid tt msg s \<noteq> (Inr u, s')"
  by (simp add: dispatch_refused_def sample_orch_env_def broker_event_store_def publish_turn_begin_def
      produce_op_def now_op_def counting_broker_def sample_env_def andThen_apply attempt_apply)

lemma dispatch_refused_dispatch: "fst (dispatch_execute_turn dispatch_refused tid n ui rg c cached s) \<noteq> Inr u"
  by (auto simp: dispatch_execute_turn_def dispatch_execute_turn_with_ctx_def andThen_apply attempt_apply
      on_store_def Let_def split: prod.splits sum.splits)

theorem undispatchable_retry_keeps_slot_witness:
  "\<exists>e given_up. retry_dispatched dispatch_refused ''t'' 1 ''go'' ''rg'' 1 sample_orch = (Inl e, given_up) \<and>
     oc_dispatcher (snd (retry_turn dispatch_refused ''t'' 1 ''go'' ''rg'' 1 sample_orch)) = oc_dispatcher sample_orch \<and>
     (0, TurnOutcomeFailed 1 ''redo_dispatch_failed'' (error_text dispatch_refused e))
       \<in> set (tg_sent (oc_registry (snd (retry_turn dispatch_refused ''t'' 1 ''go'' ''rg'' 1 sample_orch)))) \<and>
     fst (es_write_event (oe_store dispatch_refused)
       (agent_event_new 0 ''t'' (Some 1) None TurnFailed
         (turn_failed_payload ''redo_dispatch_failed'' (error_text dispatch_refused e) (Some RedoDispatchFailed) None))
       (sample_store Executing)) = Inr 11"
proof -
  have accepted: "fst (es_write_event (oe_store dispatch_refused)
       (agent_event_new 0 ''t'' (Some 1) None TurnFailed payload) (sample_store Executing)) = Inr 11" for payload
    by (simp add: dispatch_refused_def sample_orch_env_def broker_event_store_def write_event_unfold
        well_formed_turn event_class_defs validate_task_event_transition_def andThen_apply now_op_def
        produce_op_def counting_broker_def sample_env_def Let_def apply_written_def event_request_def
        get_op_result put_op_def cache_get_def bs_proj_def wrap_i64_def)
  have "range (\<lambda>(cached, s). fst (dispatch_execute_turn dispatch_refused ''t'' 1 ''go'' ''rg'' 1 cached s))
      \<inter> range Inr = {}"
    using dispatch_refused_dispatch by (auto simp del: fst_conv)
  moreover have "map_of (tg_active_turns (oc_registry sample_orch)) ''t'' =
      Some \<lparr>pt_task_id = ''t'', pt_turn_id = 1, pt_redo_group = ''rg'', pt_result_tx = 0\<rparr>"
    by (simp add: sample_orch_def open_turn_def pending_turn_new_def orchestrator_new_def
        registry_new_def register_pending_turn_def)
  ultimately show ?thesis
    using undispatchable_retry_keeps_slot [of dispatch_refused "''t''" 1 "''go''" "''rg''" 1 sample_orch]
    using accepted by fastforce
qed

theorem completion_is_write_ahead_witness:
  "fst (handle_turn_execution_done broker_down ''t'' 1 0 ''out'' sample_orch) =
     Inl (Internal ''broker produce: down'')"
proof -
  have "\<exists>s'. es_write_event (oe_store broker_down)
      (agent_event_new (oe_wall broker_down (oc_ticks sample_orch)) ''t'' (Some 1) None TurnCompleted
        (turn_completed_payload ''out'')) (oc_store sample_orch) =
      (Inl (Internal ''broker produce: down''), s')"
    by (simp add: broker_down_def sample_orch_env_def broker_event_store_def write_event_unfold
        well_formed_turn event_class_defs validate_task_event_transition_def andThen_apply now_op_def
        produce_op_def counting_broker_def sample_env_def Let_def)
  then show ?thesis using completion_is_write_ahead by (metis fst_conv)
qed

section \<open>The consumers\<close>

lemma ok_if:
  "\<exists>b. fst (f s) = Inr b \<Longrightarrow> \<exists>b. fst (g s) = Inr b \<Longrightarrow> \<exists>b. fst ((if c then f else g) s) = Inr b"
  by simp

lemma when_usable_ok: "\<exists>b. fst (when_usable c h s) = Inr b" "\<exists>b. fst (ok x s) = Inr b"
  by (cases c) (auto simp: when_usable_def andThen_apply discard_def)

lemma lifecycle_record_ok: "\<exists>b. fst (lifecycle_record env rec ob) = Inr b"
  unfolding lifecycle_record_def Let_def by (intro ok_if when_usable_ok)

lemma result_record_ok: "\<exists>b. fst (result_record env rec ob) = Inr b"
  unfolding result_record_def by (auto simp: andThen_apply tick_def upd_def)

interpretation lifecycle: record_handler "lifecycle_record env" for env
  by unfold_locales (rule lifecycle_record_ok)

interpretation result: record_handler "result_record env" for env
  by unfold_locales (rule result_record_ok)

text \<open>
  The lifecycle consumer handles any stream of frames to a result, whatever its handlers run into:
  it commits records in the order they were delivered, none twice unless delivered twice, and it gives
  up for a rejoin exactly when three errors come in a row.
\<close>

theorem lifecycle_consumer_commits_in_order:
  "\<exists>ended commits ob'. run_lifecycle_consumer env fs ob = (Inr (ended, commits), ob') \<and>
     subseq commits (delivered fs) \<and> (ended \<longleftrightarrow> \<not> sublist [GfError, GfError, GfError] fs)"
  using lifecycle.commits_in_order [of env fs ob]
  by (simp add: run_lifecycle_consumer_def numeral_eq_Suc)

end
