(* ===== verification/Tool_Catalog.thy ===== *)
theory Tool_Catalog
  imports Fixus_Prelude
begin

text \<open>
  \<open>crates/tool-catalog/src/lib.rs\<close>: the catalog of tools. The built-in tools, the parser of the
  operator's extra tools with its templates of command lines, and the rendering of a template against
  the arguments an agent supplies. The TOML decoder is a parameter.
\<close>

section \<open>Tools\<close>

datatype bin_io = IoRead | IoWrite | IoNone

datatype argv_part = Literal string | Arg string | Flag string string

record bin_spec =
  bn_binary :: string
  bn_argv :: "argv_part list"
  bn_io :: bin_io
  bn_path_args :: "string list"

datatype executor_kind = Bash | FileRead | FileWrite | FileEdit | Glob | Grep | Bin bin_spec

record tool_spec =
  ts_name :: string
  ts_description :: string
  ts_input_schema :: json
  ts_default_timeout_secs :: nat
  ts_executor :: executor_kind

record tool_def =
  td_name :: string
  td_description :: string
  td_input_schema :: json

text \<open>What is wrong with a catalog: the decoder's message, a tool without a command, an io it does not know.\<close>

datatype malformed = Undecodable string | EmptyArgv string | UnknownIo string

datatype catalog_error = Malformed malformed | DuplicateName string | UnknownPlaceholder string

datatype render_error = MissingArg string | ArgTypeMismatch string

section \<open>The built-in tools\<close>

text \<open>A property of a schema: name, type, description (the empty one is absent).\<close>

definition schema_property :: "string \<times> string \<times> string \<Rightarrow> string \<times> json" where
  "schema_property x =
     (case x of (name, ty, d) \<Rightarrow>
        (name, JObj ((''type'', JStr ty) # (if d = [] then [] else [(''description'', JStr d)]))))"

definition object_schema :: "(string \<times> string \<times> string) list \<Rightarrow> string list \<Rightarrow> json" where
  "object_schema properties req =
     JObj [(''type'', JStr ''object''), (''properties'', JObj (map schema_property properties)),
           (''required'', JArr (map JStr req))]"

definition file_path_property :: "string \<times> string \<times> string" where
  "file_path_property =
     (''file_path'', ''string'', ''Path to file (relative or absolute, scoped to workspace)'')"

definition builtin ::
  "string \<Rightarrow> string \<Rightarrow> nat \<Rightarrow> executor_kind \<Rightarrow> (string \<times> string \<times> string) list \<Rightarrow> string list \<Rightarrow> tool_spec" where
  "builtin name description timeout kind properties req =
     \<lparr>ts_name = name, ts_description = description, ts_input_schema = object_schema properties req,
      ts_default_timeout_secs = timeout, ts_executor = kind\<rparr>"

definition jq_spec :: bin_spec where
  "jq_spec = \<lparr>bn_binary = ''jq'',
     bn_argv = [Literal ''jq'', Flag ''raw'' ''-r'', Arg ''filter'', Arg ''file''],
     bn_io = IoRead, bn_path_args = [''file'']\<rparr>"

definition rg_spec :: bin_spec where
  "rg_spec = \<lparr>bn_binary = ''rg'', bn_argv = [Literal ''rg'', Arg ''pattern'', Arg ''path''],
     bn_io = IoRead, bn_path_args = [''path'']\<rparr>"

definition builtins :: "tool_spec list" where
  "builtins =
     [builtin ''fixus_bash'' ''Execute a shell command (via fixus sandbox)'' 30 Bash
        [(''command'', ''string'', ''The command to execute''),
         (''description'', ''string'', ''Brief description'')] [''command''],
      builtin ''fixus_read'' ''Read a file (via fixus sandbox)'' 15 FileRead
        [file_path_property, (''offset'', ''integer'', ''Line number to start reading from''),
         (''limit'', ''integer'', ''Number of lines to read'')] [''file_path''],
      builtin ''fixus_write'' ''Write to a file (via fixus sandbox)'' 15 FileWrite
        [file_path_property, (''content'', ''string'', ''Content to write'')]
        [''file_path'', ''content''],
      builtin ''fixus_edit'' ''Edit a file by replacing a string (via fixus sandbox)'' 15 FileEdit
        [file_path_property, (''old_string'', ''string'', ''String to replace''),
         (''new_string'', ''string'', ''Replacement string'')] [''file_path'', ''old_string'', ''new_string''],
      builtin ''fixus_glob'' ''Find files matching a pattern (via fixus sandbox)'' 15 Glob
        [(''pattern'', ''string'', ''Glob pattern (e.g. *.rs)'')] [''pattern''],
      builtin ''fixus_grep'' ''Search for a pattern in files (via fixus sandbox)'' 15 Grep
        [(''pattern'', ''string'', ''Pattern to search for''),
         (''path'', ''string'', ''Directory or file to search in'')] [''pattern''],
      builtin ''fixus_jq'' ''Run jq (JSON query) on a file'' 15 (Bin jq_spec)
        [(''filter'', ''string'', []), (''file'', ''string'', []), (''raw'', ''boolean'', [])]
        [''filter'', ''file''],
      builtin ''fixus_rg'' ''Recursively search file contents (ripgrep)'' 15 (Bin rg_spec)
        [(''pattern'', ''string'', []), (''path'', ''string'', [])] [''pattern'']]"

definition find_tool :: "tool_spec list \<Rightarrow> string \<Rightarrow> tool_spec option" where
  "find_tool specs full_name = find (\<lambda>s. ts_name s = full_name) specs"

definition tool_def_of :: "tool_spec \<Rightarrow> tool_def" where
  "tool_def_of s =
     \<lparr>td_name = ts_name s, td_description = ts_description s, td_input_schema = ts_input_schema s\<rparr>"

section \<open>Rendering a command line\<close>

fun show_bool :: "bool \<Rightarrow> string" where
  "show_bool True = ''true''"
| "show_bool False = ''false''"

definition render_part :: "json \<Rightarrow> argv_part \<Rightarrow> render_error + string list" where
  "render_part args part =
     (case part of
        Literal s \<Rightarrow> Inr [s]
      | Arg name \<Rightarrow>
          (case jget name args of
             None \<Rightarrow> Inl (MissingArg name)
           | Some JNull \<Rightarrow> Inl (MissingArg name)
           | Some (JStr s) \<Rightarrow> Inr [s]
           | Some (JInt n) \<Rightarrow> Inr [show_int n]
           | Some (JFloat f) \<Rightarrow> Inr [f]
           | Some (JBool b) \<Rightarrow> Inr [show_bool b]
           | Some _ \<Rightarrow> Inl (ArgTypeMismatch name))
      | Flag name v \<Rightarrow>
          (case jget name args of
             None \<Rightarrow> Inr []
           | Some JNull \<Rightarrow> Inr []
           | Some (JBool b) \<Rightarrow> Inr (if b then [v] else [])
           | Some _ \<Rightarrow> Inl (ArgTypeMismatch name)))"

fun render_from :: "json \<Rightarrow> string list \<Rightarrow> argv_part list \<Rightarrow> render_error + string list" where
  "render_from args out [] = Inr out"
| "render_from args out (part # parts) =
     (case render_part args part of
        Inl e \<Rightarrow> Inl e | Inr ss \<Rightarrow> render_from args (out @ ss) parts)"

definition render_argv :: "argv_part list \<Rightarrow> json \<Rightarrow> render_error + string list" where
  "render_argv argv args = render_from args [] argv"

section \<open>Parsing a template\<close>

definition is_ascii_alphabetic :: "char \<Rightarrow> bool" where
  "is_ascii_alphabetic c \<longleftrightarrow>
     (let k = (of_char c :: nat) in (65 \<le> k \<and> k \<le> 90) \<or> (97 \<le> k \<and> k \<le> 122))"

fun is_ident :: "string \<Rightarrow> bool" where
  "is_ident [] = False"
| "is_ident (c # cs) \<longleftrightarrow> (is_ascii_alphabetic c \<or> c = CHR ''_'') \<and>
     (\<forall>x \<in> set cs. is_ascii_alphanumeric x \<or> x = CHR ''_'')"

text \<open>\<open>str::split_once(':')\<close>.\<close>

definition split_colon :: "string \<Rightarrow> (string \<times> string) option" where
  "split_colon s =
     (case dropWhile (\<lambda>c. c \<noteq> CHR '':'') s of
        [] \<Rightarrow> None | _ # v \<Rightarrow> Some (takeWhile (\<lambda>c. c \<noteq> CHR '':'') s, v))"

definition braced :: "string \<Rightarrow> bool" where
  "braced s \<longleftrightarrow> (case s of [] \<Rightarrow> False | c # _ \<Rightarrow> c = CHR ''{'' \<and> last s = CHR ''}'')"

definition parse_argv_element :: "string \<Rightarrow> catalog_error + argv_part" where
  "parse_argv_element s =
     (if braced s then
        let inner = butlast (tl s) in
        (case inner of
           CHR ''?'' # rest \<Rightarrow>
             (case split_colon rest of
                Some (name, v) \<Rightarrow>
                  if is_ident name \<and> v \<noteq> [] then Inr (Flag name v) else Inl (UnknownPlaceholder s)
              | None \<Rightarrow> Inl (UnknownPlaceholder s))
         | _ \<Rightarrow> if is_ident inner then Inr (Arg inner) else Inl (UnknownPlaceholder s))
      else Inr (Literal s))"

section \<open>The operator's extra tools\<close>

datatype toml =
    TStr string
  | TInt int
  | TFloat string bool      \<comment> \<open>its text, and whether it is finite\<close>
  | TBool bool
  | TArr "toml list"
  | TTable "(string \<times> toml) list"
  | TDatetime string

fun toml_to_json :: "toml \<Rightarrow> json" where
  "toml_to_json (TStr s) = JStr s"
| "toml_to_json (TInt i) = JInt i"
| "toml_to_json (TFloat f fin) = (if fin then JFloat f else JNull)"
| "toml_to_json (TBool b) = JBool b"
| "toml_to_json (TArr a) = JArr (map toml_to_json a)"
| "toml_to_json (TTable t) = JObj (map (\<lambda>(k, v). (k, toml_to_json v)) t)"
| "toml_to_json (TDatetime d) = JStr d"

record extra_tool_raw =
  er_name :: string
  er_description :: string
  er_binary :: string
  er_argv :: "string list"
  er_io :: string
  er_path_args :: "string list"
  er_timeout_secs :: nat
  er_input_schema :: toml

definition parse_bin_io :: "string \<Rightarrow> catalog_error + bin_io" where
  "parse_bin_io s =
     (if s = ''read'' then Inr IoRead
      else if s = ''write'' then Inr IoWrite
      else if s = ''none'' then Inr IoNone
      else Inl (Malformed (UnknownIo s)))"

fun parse_argv_from :: "argv_part list \<Rightarrow> string list \<Rightarrow> catalog_error + argv_part list" where
  "parse_argv_from acc [] = Inr acc"
| "parse_argv_from acc (e # es) =
     (case parse_argv_element e of Inl x \<Rightarrow> Inl x | Inr a \<Rightarrow> parse_argv_from (acc @ [a]) es)"

definition parse_extra :: "extra_tool_raw \<Rightarrow> catalog_error + tool_spec" where
  "parse_extra raw =
     (if er_argv raw = [] then Inl (Malformed (EmptyArgv (er_name raw)))
      else (case parse_argv_from [] (er_argv raw) of
              Inl e \<Rightarrow> Inl e
            | Inr argv \<Rightarrow>
                (case parse_bin_io (er_io raw) of
                   Inl e \<Rightarrow> Inl e
                 | Inr io \<Rightarrow>
                     Inr \<lparr>ts_name = er_name raw, ts_description = er_description raw,
                          ts_input_schema = toml_to_json (er_input_schema raw),
                          ts_default_timeout_secs = er_timeout_secs raw,
                          ts_executor = Bin \<lparr>bn_binary = er_binary raw, bn_argv = argv, bn_io = io,
                                             bn_path_args = er_path_args raw\<rparr>\<rparr>)))"

fun parse_extras ::
  "string set \<Rightarrow> tool_spec list \<Rightarrow> extra_tool_raw list \<Rightarrow> catalog_error + tool_spec list" where
  "parse_extras seen specs [] = Inr specs"
| "parse_extras seen specs (raw # raws) =
     (if er_name raw \<in> seen then Inl (DuplicateName (er_name raw))
      else (case parse_extra raw of
              Inl e \<Rightarrow> Inl e
            | Inr s \<Rightarrow> parse_extras (insert (er_name raw) seen) (specs @ [s]) raws))"

definition parse_extra_catalog ::
  "(string \<Rightarrow> string + extra_tool_raw list) \<Rightarrow> string \<Rightarrow> catalog_error + tool_spec list" where
  "parse_extra_catalog from_str toml_str =
     (if is_blank toml_str then Inr []
      else (case from_str toml_str of
              Inl e \<Rightarrow> Inl (Malformed (Undecodable e))
            | Inr raws \<Rightarrow> parse_extras {} [] raws))"

definition filter_collisions :: "tool_spec list \<Rightarrow> tool_spec list \<Rightarrow> tool_spec list" where
  "filter_collisions extras reserved = filter (\<lambda>e. ts_name e \<notin> ts_name ` set reserved) extras"

section \<open>One element in, at most one element out\<close>

text \<open>What an argument contributes to the command line: its value, whatever its characters.\<close>

fun arg_text :: "json \<Rightarrow> string option" where
  "arg_text (JStr s) = Some s"
| "arg_text (JInt n) = Some (show_int n)"
| "arg_text (JFloat f) = Some f"
| "arg_text (JBool b) = Some (show_bool b)"
| "arg_text _ = None"

definition part_words :: "json \<Rightarrow> argv_part \<Rightarrow> string list" where
  "part_words args part =
     (case part of
        Literal s \<Rightarrow> [s]
      | Arg name \<Rightarrow> (case Option.bind (jget name args) arg_text of None \<Rightarrow> [] | Some w \<Rightarrow> [w])
      | Flag name v \<Rightarrow> if jget name args = Some (JBool True) then [v] else [])"

definition part_error :: "json \<Rightarrow> argv_part \<Rightarrow> render_error option" where
  "part_error args part =
     (let absent = (\<lambda>name. jget name args \<in> {None, Some JNull}) in
      case part of
        Literal s \<Rightarrow> None
      | Arg name \<Rightarrow>
          if absent name then Some (MissingArg name)
          else if Option.bind (jget name args) arg_text = None then Some (ArgTypeMismatch name) else None
      | Flag name v \<Rightarrow>
          if absent name \<or> jget name args \<in> {Some (JBool True), Some (JBool False)} then None
          else Some (ArgTypeMismatch name))"

lemma render_part_eq:
  "render_part args part =
     (case part_error args part of Some e \<Rightarrow> Inl e | None \<Rightarrow> Inr (part_words args part))"
  by (cases part)
     (auto simp: render_part_def part_error_def part_words_def Let_def split: option.split json.split)

lemma render_from_eq:
  "render_from args out parts =
     (case List.map_filter (part_error args) parts of
        e # _ \<Rightarrow> Inl e | [] \<Rightarrow> Inr (out @ concat (map (part_words args) parts)))"
  by (induction parts arbitrary: out)
     (auto simp: map_filter_simps render_part_eq split: option.split list.split)

lemma part_words_length: "length (part_words args part) \<le> 1"
  by (simp add: part_words_def split: argv_part.split option.split)

lemma render_length: "length (concat (map (part_words args) parts)) \<le> length parts"
proof (induction parts)
  case (Cons a parts)
  with add_mono [OF part_words_length [of args a] Cons.IH] show ?case by simp
qed simp

section \<open>Printing a template\<close>

fun print_part :: "argv_part \<Rightarrow> string" where
  "print_part (Literal s) = s"
| "print_part (Arg name) = ''{'' @ name @ ''}''"
| "print_part (Flag name v) = ''{?'' @ name @ '':'' @ v @ ''}''"

fun part_ok :: "argv_part \<Rightarrow> bool" where
  "part_ok (Literal s) \<longleftrightarrow> \<not> braced s"
| "part_ok (Arg name) \<longleftrightarrow> is_ident name"
| "part_ok (Flag name v) \<longleftrightarrow> is_ident name \<and> v \<noteq> []"

lemma braced_iff: "braced s \<longleftrightarrow> (\<exists>inner. s = ''{'' @ inner @ ''}'')"
proof
  assume "braced s"
  then obtain cs where s: "s = CHR ''{'' # cs" "last s = CHR ''}''"
    by (auto simp: braced_def split: list.splits)
  then have "cs \<noteq> []" by auto
  with s have "cs = butlast cs @ ''}''" by (metis append_butlast_last_id last_ConsR)
  with s(1) show "\<exists>inner. s = ''{'' @ inner @ ''}''" by auto
qed (auto simp: braced_def)

lemma split_colon_iff: "split_colon s = Some (a, b) \<longleftrightarrow> s = a @ '':'' @ b \<and> CHR '':'' \<notin> set a"
proof
  assume h: "split_colon s = Some (a, b)"
  then obtain c where d: "dropWhile (\<lambda>c. c \<noteq> CHR '':'') s = c # b" "a = takeWhile (\<lambda>c. c \<noteq> CHR '':'') s"
    by (auto simp: split_colon_def split: list.splits)
  then have "c = CHR '':''" using hd_dropWhile [of "\<lambda>c. c \<noteq> CHR '':''" s] by simp
  with d show "s = a @ '':'' @ b \<and> CHR '':'' \<notin> set a"
    using takeWhile_dropWhile_id [of "\<lambda>c. c \<noteq> CHR '':''" s] by (auto dest: set_takeWhileD)
next
  assume "s = a @ '':'' @ b \<and> CHR '':'' \<notin> set a"
  then show "split_colon s = Some (a, b)"
    by (auto simp: split_colon_def takeWhile_append dropWhile_append)
qed

lemma ident_first: "is_ident s \<Longrightarrow> \<exists>c cs. s = c # cs \<and> c \<noteq> CHR ''?''"
  by (cases s) (auto simp: is_ascii_alphabetic_def)

lemma ident_no_colon: "is_ident s \<Longrightarrow> CHR '':'' \<notin> set s"
  by (cases s) (auto simp: is_ascii_alphabetic_def is_ascii_alphanumeric_def)

lemma split_colon_ident:
  "is_ident name \<Longrightarrow> split_colon (name @ CHR '':'' # v) = Some (name, v)"
  using ident_no_colon by (simp add: split_colon_iff)

text \<open>
  Template elements: an element is read as a part exactly when the part is well-formed and the
  element is how it is printed. So reading is the inverse of printing, no two parts share a spelling,
  and text that looks like a placeholder and is none is refused, never passed on as text.
\<close>

theorem parse_argv_element_exact: "parse_argv_element s = Inr p \<longleftrightarrow> part_ok p \<and> print_part p = s"
proof (cases "braced s")
  case False
  then show ?thesis
    by (cases p) (auto simp: parse_argv_element_def braced_iff)
next
  case True
  then obtain inner where s: "s = ''{'' @ inner @ ''}''" by (auto simp: braced_iff)
  then have inner: "butlast (tl s) = inner" by (simp add: butlast_append)
  have lit: "\<not> (part_ok (Literal x) \<and> print_part (Literal x) = s)" for x using True by auto
  show ?thesis
  proof (cases "\<exists>rest. inner = CHR ''?'' # rest")
    case True
    then obtain rest where r: "inner = CHR ''?'' # rest" by blast
    have parse: "parse_argv_element s =
        (case split_colon rest of
           Some (name, v) \<Rightarrow> if is_ident name \<and> v \<noteq> [] then Inr (Flag name v) else Inl (UnknownPlaceholder s)
         | None \<Rightarrow> Inl (UnknownPlaceholder s))"
      by (simp add: parse_argv_element_def \<open>braced s\<close> inner) (simp add: r)
    show ?thesis
    proof (cases p)
      case (Arg name)
      with parse s r ident_first [of name] show ?thesis by (auto split: option.splits if_splits)
    next
      case (Flag name v)
      have "split_colon rest = Some (name, v) \<and> is_ident name \<and> v \<noteq> [] \<longleftrightarrow>
          part_ok p \<and> print_part p = s"
        using Flag s r ident_no_colon by (auto simp: split_colon_iff)
      with parse Flag show ?thesis by (auto split: option.splits if_splits)
    qed (use parse lit in \<open>auto split: option.splits if_splits\<close>)
  next
    case False
    then have "parse_argv_element s = (if is_ident inner then Inr (Arg inner) else Inl (UnknownPlaceholder s))"
      using \<open>braced s\<close> s by (auto simp: parse_argv_element_def split: list.split char.split bool.split)
    with False s lit show ?thesis by (cases p) auto
  qed
qed

text \<open>
  Rendering: a template fails with the error of its first part that has one, and otherwise is the
  words of its parts in order. A part gives at most one word, a flag only its own fixed word, and an
  argument exactly its value, so no value is split, joined or dropped, whatever its characters.
\<close>

theorem render_argv_exact:
  "render_argv argv args =
     (case List.map_filter (part_error args) argv of
        e # _ \<Rightarrow> Inl e | [] \<Rightarrow> Inr (concat (map (part_words args) argv))) \<and>
   length (concat (map (part_words args) argv)) \<le> length argv"
  by (simp add: render_argv_def render_from_eq render_length split: list.split)

section \<open>A loaded catalog\<close>

definition tool_ok :: "tool_spec \<Rightarrow> bool" where
  "tool_ok s \<longleftrightarrow>
     (case ts_executor s of Bin b \<Rightarrow> bn_argv b \<noteq> [] \<and> list_all part_ok (bn_argv b) | _ \<Rightarrow> True)"

lemma parse_argv_from_ok:
  "parse_argv_from acc es = Inr argv \<Longrightarrow> \<exists>parts. argv = acc @ parts \<and> list_all part_ok parts \<and>
     map print_part parts = es"
proof (induction es arbitrary: acc)
  case Nil
  then show ?case by simp
next
  case (Cons e es)
  then obtain a where a: "parse_argv_element e = Inr a" "parse_argv_from (acc @ [a]) es = Inr argv"
    by (auto split: sum.splits)
  from Cons.IH [OF a(2)] obtain parts where "argv = acc @ a # parts" "list_all part_ok parts"
    "map print_part parts = es" by auto
  with a(1) show ?case by (intro exI [of _ "a # parts"]) (simp add: parse_argv_element_exact)
qed

lemma parse_extra_ok:
  assumes "parse_extra raw = Inr s"
  shows "ts_name s = er_name raw" "tool_ok s"
proof -
  from assms obtain argv io where a: "er_argv raw \<noteq> []" "parse_argv_from [] (er_argv raw) = Inr argv"
    "s = \<lparr>ts_name = er_name raw, ts_description = er_description raw,
          ts_input_schema = toml_to_json (er_input_schema raw),
          ts_default_timeout_secs = er_timeout_secs raw,
          ts_executor = Bin \<lparr>bn_binary = er_binary raw, bn_argv = argv, bn_io = io,
                             bn_path_args = er_path_args raw\<rparr>\<rparr>"
    by (auto simp: parse_extra_def split: if_splits sum.splits)
  from parse_argv_from_ok [OF a(2)] a show "ts_name s = er_name raw" "tool_ok s"
    by (auto simp: tool_ok_def)
qed

lemma parse_extras_ok:
  "parse_extras seen specs raws = Inr out \<Longrightarrow>
     \<exists>new. out = specs @ new \<and> map ts_name new = map er_name raws \<and> list_all tool_ok new \<and>
       distinct (map er_name raws) \<and> er_name ` set raws \<inter> seen = {}"
proof (induction raws arbitrary: seen specs)
  case Nil
  then show ?case by simp
next
  case (Cons raw raws)
  then obtain s where s: "er_name raw \<notin> seen" "parse_extra raw = Inr s"
    "parse_extras (insert (er_name raw) seen) (specs @ [s]) raws = Inr out"
    by (auto split: if_splits sum.splits)
  from Cons.IH [OF s(3)] obtain new where "out = specs @ s # new" "map ts_name new = map er_name raws"
    "list_all tool_ok new" "distinct (map er_name raws)" "er_name ` set raws \<inter> insert (er_name raw) seen = {}"
    by auto
  with s(1) parse_extra_ok [OF s(2)] show ?case by (intro exI [of _ "s # new"]) auto
qed

lemma find_tool_own:
  "distinct (map ts_name xs) \<Longrightarrow> t \<in> set xs \<Longrightarrow> find_tool (xs @ ys) (ts_name t) = Some t"
  by (induction xs) (auto simp: find_tool_def image_iff)

lemma filter_collisions_disjoint: "ts_name ` set reserved \<inter> ts_name ` set (filter_collisions extras reserved) = {}"
proof -
  have "ts_name ` set (filter_collisions extras reserved) \<subseteq> - (ts_name ` set reserved)"
    unfolding filter_collisions_def by (rule image_subsetI) simp
  then show ?thesis by blast
qed

lemma builtins_names:
  "map ts_name builtins =
     [''fixus_bash'', ''fixus_read'', ''fixus_write'', ''fixus_edit'', ''fixus_glob'', ''fixus_grep'',
      ''fixus_jq'', ''fixus_rg'']"
  by (simp add: builtins_def builtin_def)

lemma builtins_ok: "list_all tool_ok builtins"
  by (simp add: builtins_def builtin_def tool_ok_def jq_spec_def rg_spec_def braced_def
      is_ascii_alphabetic_def is_ascii_alphanumeric_def Let_def)

text \<open>
  C29. Whatever operator file is accepted, the catalog made of the built-in tools and the extra tools
  that do not collide with them is well-formed: names are unique, so a name finds one tool, and every
  external tool has a command line whose parts are well-formed: a literal is not in braces, and the name in a
  placeholder is an identifier. That the name is an argument of the tool's schema is not checked
  (\<open>undeclared_placeholder_loads\<close>). A collision never hides a built-in.
\<close>

theorem loaded_catalog_well_formed:
  "{builtins @ filter_collisions extras builtins | extras.
      parse_extra_catalog from_str toml_str = Inr extras} \<subseteq>
   {cat. distinct (map ts_name cat) \<and> list_all tool_ok cat \<and>
         map (find_tool cat) (map ts_name builtins) = map Some builtins}"
proof (clarsimp)
  fix extras
  assume "parse_extra_catalog from_str toml_str = Inr extras"
  then have e: "distinct (map ts_name extras) \<and> list_all tool_ok extras"
    using parse_extras_ok [of "{}" "[]"]
    by (fastforce simp: parse_extra_catalog_def split: if_splits sum.splits)
  let ?f = "filter_collisions extras builtins"
  have "distinct (map ts_name ?f)" "list_all tool_ok ?f"
    using e by (auto simp: filter_collisions_def list_all_iff distinct_map_filter)
  moreover have "ts_name ` set builtins \<inter> ts_name ` set ?f = {}" by (rule filter_collisions_disjoint)
  moreover have "distinct (map ts_name builtins)" by (simp add: builtins_names)
  moreover have "find_tool (builtins @ ?f) (ts_name t) = Some t" if "t \<in> set builtins" for t
    using find_tool_own [OF _ that] by (simp add: builtins_names)
  ultimately show "distinct (map ts_name builtins) \<and> distinct (map ts_name ?f) \<and>
      ts_name ` set builtins \<inter> ts_name ` set ?f = {} \<and> list_all tool_ok builtins \<and> list_all tool_ok ?f \<and>
      (\<forall>t \<in> set builtins. find_tool (builtins @ ?f) (ts_name t) = Some t)"
    using builtins_ok by blast
qed

definition required_args :: "tool_spec \<Rightarrow> json list" where
  "required_args s =
     (case jget ''required'' (ts_input_schema s) of Some (JArr rs) \<Rightarrow> rs | _ \<Rightarrow> [])"

definition demanded_args :: "tool_spec \<Rightarrow> string list" where
  "demanded_args s =
     (case ts_executor s of
        Bin b \<Rightarrow> List.map_filter (\<lambda>p. case p of Arg a \<Rightarrow> Some a | _ \<Rightarrow> None) (bn_argv b)
      | _ \<Rightarrow> [])"

text \<open>
  Of the built-in tools exactly \<open>fixus_rg\<close> has a command line that demands an argument its schema
  does not require: called with a pattern alone, as the schema allows, it is refused.
\<close>

theorem rg_demands_optional_path:
  "map ts_name (filter (\<lambda>s. filter (\<lambda>a. JStr a \<notin> set (required_args s)) (demanded_args s) \<noteq> []) builtins) = [''fixus_rg''] \<and>
   render_argv (bn_argv rg_spec) (JObj [(''pattern'', JStr p)]) = Inl (MissingArg ''path'')"
  by (simp add: builtins_def builtin_def demanded_args_def required_args_def object_schema_def jq_spec_def
      rg_spec_def map_filter_simps render_argv_def render_part_def)

text \<open>An operator's template may demand an argument the tool's schema does not even have.\<close>

theorem undeclared_placeholder_loads:
  "er_argv raw = [''{foo}''] \<Longrightarrow> er_io raw = ''read'' \<Longrightarrow> er_input_schema raw = TTable [] \<Longrightarrow>
     \<exists>s. parse_extras {} [] [raw] = Inr [s] \<and> demanded_args s = [''foo''] \<and> ts_input_schema s = JObj []"
  by (simp add: parse_extra_def parse_bin_io_def parse_argv_element_def braced_def demanded_args_def
      map_filter_simps is_ascii_alphabetic_def is_ascii_alphanumeric_def Let_def)

end
