(* ===== verification/Tool_Adapter.thy ===== *)
theory Tool_Adapter
  imports Tool_Catalog "HOL-Library.List_Lexorder" "HOL-Library.Char_ord"
begin

text \<open>
  The pure half of \<open>src/bin/tools-bank/adapter.rs\<close>: the registry that routes a tool to the adapter that
  owns it, over any kind of adapter; the idempotency key, the time limits and the payload of a sandbox
  call; and the parser of the variable that declares external adapters. The JSON printer and the
  digest are parameters.
\<close>

section \<open>Calls and results\<close>

record tool_result =
  rs_success :: bool
  rs_output :: json
  rs_error :: "string option"
  rs_duration_ms :: nat

record call_ctx =
  cx_task_id :: string
  cx_idempotency_key :: string
  cx_effective_policy :: "json option"
  cx_step_id :: string
  cx_turn_id :: "int option"

datatype invoke_error = NotFound | AdapterFailed string

text \<open>
  \<open>trait ActionAdapter\<close>: a name, the tools, and the execution of one on the state \<open>'s\<close> of the process.
  The error is the text of an \<open>AdapterError\<close>.
\<close>

record 's action_adapter =
  aa_name :: string
  aa_tools :: "tool_def list"
  aa_invoke :: "string \<Rightarrow> json \<Rightarrow> call_ctx \<Rightarrow> (string, 's, tool_result) opn"

section \<open>The registry\<close>

record dup_tool =
  dt_tool :: string
  dt_existing_adapter :: string

record 's tool_registry =
  tr_adapters :: "'s action_adapter list"
  tr_index :: "string \<rightharpoonup> nat"

definition tool_registry_new :: "'s tool_registry" where
  "tool_registry_new = \<lparr>tr_adapters = [], tr_index = Map.empty\<rparr>"

definition register_adapter :: "'s action_adapter \<Rightarrow> 's tool_registry \<Rightarrow> (dup_tool + unit) \<times> 's tool_registry" where
  "register_adapter a r =
     (case find (\<lambda>t. tr_index r (td_name t) \<noteq> None) (aa_tools a) of
        Some t \<Rightarrow>
          (Inl \<lparr>dt_tool = td_name t,
                dt_existing_adapter = aa_name (tr_adapters r ! the (tr_index r (td_name t)))\<rparr>, r)
      | None \<Rightarrow>
          (Inr (),
           \<lparr>tr_adapters = tr_adapters r @ [a],
            tr_index = foldl (\<lambda>m t. m(td_name t \<mapsto> length (tr_adapters r))) (tr_index r) (aa_tools a)\<rparr>))"

definition list_tools :: "'s tool_registry \<Rightarrow> tool_def list" where
  "list_tools r = concat (map aa_tools (tr_adapters r))"

definition find_adapter :: "'s tool_registry \<Rightarrow> string \<Rightarrow> 's action_adapter option" where
  "find_adapter r tool = map_option (\<lambda>i. tr_adapters r ! i) (tr_index r tool)"

definition invoke_tool ::
  "'s tool_registry \<Rightarrow> string \<Rightarrow> json \<Rightarrow> call_ctx \<Rightarrow> (invoke_error, 's, tool_result) opn" where
  "invoke_tool r tool args ctx s =
     (case find_adapter r tool of
        Some a \<Rightarrow>
          (case aa_invoke a tool args ctx s of
             (Inl e, s') \<Rightarrow> (Inl (AdapterFailed e), s') | (Inr x, s') \<Rightarrow> (Inr x, s'))
      | None \<Rightarrow> (Inl NotFound, s))"

definition adapter_count :: "'s tool_registry \<Rightarrow> nat" where
  "adapter_count r = length (tr_adapters r)"

section \<open>Keys, time limits, payloads\<close>

fun join :: "string \<Rightarrow> string list \<Rightarrow> string" where
  "join sep [] = []"
| "join sep [x] = x"
| "join sep (x # y # xs) = x @ sep @ join sep (y # xs)"

text \<open>\<open>print\<close> is \<open>serde_json::to_string\<close>. The keys of an object are distinct, as those of a JSON map are.\<close>

fun canonical_json :: "(json \<Rightarrow> string) \<Rightarrow> json \<Rightarrow> string" where
  "canonical_json print (JObj kvs) =
     ''{'' @ join '','' (map (\<lambda>(k, c). print (JStr k) @ '':'' @ c)
               (sort_key fst (map (\<lambda>(k, v). (k, canonical_json print v)) kvs))) @ ''}''"
| "canonical_json print (JArr vs) = ''['' @ join '','' (map (canonical_json print) vs) @ '']''"
| "canonical_json print v = print v"

text \<open>\<open>digest\<close> is the hexadecimal SHA-256, 64 characters of which 16 are kept.\<close>

definition build_key ::
  "(json \<Rightarrow> string) \<Rightarrow> (string \<Rightarrow> string) \<Rightarrow> string \<Rightarrow> string \<Rightarrow> json \<Rightarrow> string" where
  "build_key print digest task_id tool_name args =
     task_id @ '':bank:'' @ tool_name @ '':'' @ take 16 (digest (canonical_json print args))"

definition default_timeout :: "string \<Rightarrow> tool_spec list \<Rightarrow> nat" where
  "default_timeout tool_name all_tools =
     unwrap_or 30 (map_option ts_default_timeout_secs (find_tool all_tools tool_name))"

text \<open>A \<open>u64\<close>: the subtraction stops at zero, the product wraps around.\<close>

definition sandbox_timeout_ms :: "nat \<Rightarrow> nat" where
  "sandbox_timeout_ms timeout_secs = max (timeout_secs - 5) 5 * 1000 mod 2 ^ 64"

definition sandbox_payload :: "string \<Rightarrow> string \<Rightarrow> string \<Rightarrow> json \<Rightarrow> string \<Rightarrow> nat \<Rightarrow> json" where
  "sandbox_payload task_id tool_name tool_call_id args idempotency_key timeout_secs =
     JObj [(''step_type'', JStr ''tool_call''), (''tool_name'', JStr tool_name),
           (''tool_call_id'', JStr tool_call_id), (''idempotency_key'', JStr idempotency_key),
           (''input'', args), (''local_seq'', JInt 0), (''session_id'', JStr task_id),
           (''timeout_ms'', JInt (int (sandbox_timeout_ms timeout_secs)))]"

definition build_invoke_meta ::
  "(json \<Rightarrow> string) \<Rightarrow> string \<Rightarrow> string \<Rightarrow> json option \<Rightarrow> (string \<times> string) list" where
  "build_invoke_meta print task_id step_id effective_policy =
     [(''task_id'', task_id), (''step_id'', step_id), (''event_type'', ''tool_invoked'')] @
     (case effective_policy of None \<Rightarrow> [] | Some p \<Rightarrow> [(''effective_policy'', print p)])"

section \<open>Declared external adapters\<close>

record adapter_tool =
  at_name :: string
  at_description :: string

record http_adapter_config =
  ha_name :: string
  ha_base_url :: string
  ha_auth_header :: "string option"
  ha_timeout_secs :: nat
  ha_tools :: "adapter_tool list"

text \<open>\<open>trim\<close> over the ASCII white space and \<open>strip_prefix\<close>.\<close>

definition trim :: "string \<Rightarrow> string" where
  "trim s = rev (dropWhile (\<lambda>c. is_blank [c]) (rev (dropWhile (\<lambda>c. is_blank [c]) s)))"

definition strip_prefix :: "string \<Rightarrow> string \<Rightarrow> string option" where
  "strip_prefix p s = (if take (length p) s = p then Some (drop (length p) s) else None)"

definition declared_tool :: "string \<Rightarrow> string \<Rightarrow> adapter_tool" where
  "declared_tool base_url t =
     \<lparr>at_name = t, at_description = ''External tool '' @ t @ '' via '' @ base_url\<rparr>"

fun adapter_options :: "string option \<Rightarrow> nat \<Rightarrow> string list \<Rightarrow> string option \<times> nat" where
  "adapter_options auth timeout [] = (auth, timeout)"
| "adapter_options auth timeout (p # ps) =
     (case strip_prefix ''auth='' p of
        Some v \<Rightarrow> adapter_options (Some v) timeout ps
      | None \<Rightarrow>
          (case strip_prefix ''timeout='' p of
             Some v \<Rightarrow> adapter_options auth (unwrap_or 15 (parse_uint 64 v)) ps
           | None \<Rightarrow> adapter_options auth timeout ps))"

definition parse_one_http_adapter :: "string \<Rightarrow> http_adapter_config option" where
  "parse_one_http_adapter entry =
     (case map trim (split_on CHR ''|'' entry) of
        name # base_url # tool_names # options \<Rightarrow>
          (let tools = map (declared_tool base_url)
                         (filter (\<lambda>t. t \<noteq> []) (map trim (split_on CHR '','' tool_names)));
               (auth, timeout) = adapter_options None 15 options
           in if name = [] \<or> base_url = [] then None
              else if tools = [] then None
              else Some \<lparr>ha_name = name, ha_base_url = base_url, ha_auth_header = auth,
                         ha_timeout_secs = timeout, ha_tools = tools\<rparr>)
      | _ \<Rightarrow> None)"

definition parse_http_adapters :: "string \<Rightarrow> http_adapter_config list" where
  "parse_http_adapters s =
     List.map_filter parse_one_http_adapter
       (filter (\<lambda>e. e \<noteq> []) (map trim (split_on CHR '';'' s)))"

section \<open>The index is a linear search\<close>

definition adapter_names :: "'s action_adapter \<Rightarrow> string set" where
  "adapter_names a = td_name ` set (aa_tools a)"

definition register_all :: "'s action_adapter list \<Rightarrow> 's tool_registry" where
  "register_all as = foldl (\<lambda>r a. snd (register_adapter a r)) tool_registry_new as"

text \<open>The adapters that get in: the ones with no tool an earlier one owns.\<close>

definition accept_adapter :: "'s action_adapter list \<Rightarrow> 's action_adapter \<Rightarrow> 's action_adapter list" where
  "accept_adapter acc a =
     (if list_all (\<lambda>b. adapter_names a \<inter> adapter_names b = {}) acc then acc @ [a] else acc)"

definition owner :: "'s action_adapter list \<Rightarrow> string \<Rightarrow> 's action_adapter option" where
  "owner as tool = find (\<lambda>a. tool \<in> adapter_names a) as"

definition indexed :: "'s tool_registry \<Rightarrow> bool" where
  "indexed r \<longleftrightarrow> (\<forall>t i. tr_index r t = Some i \<longleftrightarrow>
     i < length (tr_adapters r) \<and> t \<in> adapter_names (tr_adapters r ! i))"

lemma index_tools:
  "foldl (\<lambda>m t. m(td_name t \<mapsto> n)) m ts x = (if x \<in> td_name ` set ts then Some n else m x)"
  by (induction ts arbitrary: m) auto

lemma find_none_iff: "find P xs = None \<longleftrightarrow> (\<forall>x \<in> set xs. \<not> P x)"
  by (auto simp: find_None_iff)

lemma indexed_unknown:
  assumes "indexed r"
  shows "tr_index r t = None \<longleftrightarrow> (\<forall>a \<in> set (tr_adapters r). t \<notin> adapter_names a)"
proof -
  have "tr_index r t = None \<longleftrightarrow> (\<forall>i. tr_index r t \<noteq> Some i)" by auto
  with assms show ?thesis by (auto simp: indexed_def all_set_conv_all_nth)
qed

lemma indexed_new [simp, inv_intros]: "indexed tool_registry_new"
  by (simp add: indexed_def tool_registry_new_def)

lemma register_refused_iff:
  assumes "indexed r"
  shows "find (\<lambda>t. tr_index r (td_name t) \<noteq> None) (aa_tools a) = None \<longleftrightarrow>
    list_all (\<lambda>b. adapter_names a \<inter> adapter_names b = {}) (tr_adapters r)"
  unfolding find_none_iff list_all_iff using indexed_unknown [OF assms] by (auto simp: adapter_names_def)

lemma register_adapters:
  assumes "indexed r"
  shows "tr_adapters (snd (register_adapter a r)) = accept_adapter (tr_adapters r) a"
  using register_refused_iff [OF assms, of a]
  by (auto simp: register_adapter_def accept_adapter_def split: option.split)

lemma register_indexed [inv_intros]:
  assumes "indexed r"
  shows "indexed (snd (register_adapter a r))"
proof (cases "find (\<lambda>t. tr_index r (td_name t) \<noteq> None) (aa_tools a)")
  case None
  with register_refused_iff [OF assms, of a]
  have fresh: "\<And>b. b \<in> set (tr_adapters r) \<Longrightarrow> adapter_names a \<inter> adapter_names b = {}"
    by (simp add: list_all_iff)
  let ?r = "snd (register_adapter a r)"
  have r: "tr_adapters ?r = tr_adapters r @ [a]"
    "\<And>t. tr_index ?r t =
       (if t \<in> adapter_names a then Some (length (tr_adapters r)) else tr_index r t)"
    using None by (simp_all add: register_adapter_def index_tools adapter_names_def)
  have old: "t \<in> adapter_names a \<Longrightarrow> i < length (tr_adapters r) \<Longrightarrow> t \<notin> adapter_names (tr_adapters r ! i)" for t i
    using fresh [of "tr_adapters r ! i"] by auto
  have eq: "tr_index r t = Some i \<longleftrightarrow> i < length (tr_adapters r) \<and> t \<in> adapter_names (tr_adapters r ! i)" for t i
    using assms by (simp add: indexed_def)
  show ?thesis
    unfolding indexed_def using old by (auto simp: r nth_append less_Suc_eq eq)
qed (simp add: register_adapter_def assms)

lemma indexed_find:
  assumes "indexed r"
  shows "find_adapter r t = owner (tr_adapters r) t"
proof (cases "tr_index r t")
  case None
  with assms indexed_unknown [of r t] show ?thesis
    by (simp add: find_adapter_def owner_def) (metis find_none_iff)
next
  case (Some i)
  have unique: "j = i" if "j < length (tr_adapters r)" "t \<in> adapter_names (tr_adapters r ! j)" for j
  proof -
    from that assms have "tr_index r t = Some j" by (simp add: indexed_def)
    with Some show ?thesis by simp
  qed
  from Some assms have i: "i < length (tr_adapters r)" "t \<in> adapter_names (tr_adapters r ! i)"
    by (simp_all add: indexed_def)
  have "t \<notin> adapter_names (tr_adapters r ! j)" if "j < i" for j
    using unique [of j] that i(1) by auto
  with i have "owner (tr_adapters r) t = Some (tr_adapters r ! i)"
    unfolding owner_def find_Some_iff by blast
  with Some show ?thesis by (simp add: find_adapter_def)
qed

lemma register_all_snoc: "register_all (as @ [a]) = snd (register_adapter a (register_all as))"
  by (simp add: register_all_def)

lemma register_all_indexed: "indexed (register_all as)"
proof (induction as rule: rev_induct)
  case Nil
  then show ?case by (simp add: register_all_def)
next
  case (snoc a as)
  then show ?case by (simp add: register_all_snoc register_indexed)
qed

lemma register_all_adapters: "tr_adapters (register_all as) = foldl accept_adapter [] as"
proof (induction as rule: rev_induct)
  case Nil
  then show ?case by (simp add: register_all_def tool_registry_new_def)
next
  case (snoc a as)
  then show ?case by (simp add: register_all_snoc register_adapters [OF register_all_indexed])
qed

lemma register_all_find: "find_adapter (register_all as) t = owner (foldl accept_adapter [] as) t"
  using indexed_find [OF register_all_indexed, of as t] by (simp add: register_all_adapters)

lemma register_all_names:
  "t \<in> td_name ` set (list_tools (register_all as)) \<longleftrightarrow> tr_index (register_all as) t \<noteq> None"
  using indexed_unknown [OF register_all_indexed, of as t] by (auto simp: list_tools_def adapter_names_def)

lemma accepted_split: "\<exists>bs. foldl accept_adapter acc as = acc @ bs \<and> set bs \<subseteq> set as"
proof (induction as arbitrary: acc)
  case (Cons a as)
  from Cons.IH [of "accept_adapter acc a"] obtain bs where
    b: "foldl accept_adapter (accept_adapter acc a) as = accept_adapter acc a @ bs" "set bs \<subseteq> set as" by blast
  have "accept_adapter acc a \<in> {acc, acc @ [a]}" by (simp add: accept_adapter_def)
  with b show ?case by auto
qed simp

lemma owner_in: "owner as t = Some a \<Longrightarrow> a \<in> set as"
  by (auto simp: owner_def find_Some_iff)

lemma first_adapter_owns:
  "t \<in> adapter_names a \<Longrightarrow> find_adapter (register_all (a # as)) t = Some a"
  using accepted_split [of "[a]" as] by (auto simp: register_all_find accept_adapter_def owner_def)

lemma found_adapter_in: "find_adapter (register_all as) t = Some a \<Longrightarrow> a \<in> set as"
  using accepted_split [of "[]" as] owner_in by (fastforce simp: register_all_find)

text \<open>
  Whatever adapters are registered, the ones accepted are those that share no tool with an adapter
  accepted before, a refused one leaves no trace, and the indexed lookup of a tool finds the same
  adapter a search through the accepted adapters finds. So no adapter takes a tool from another.
\<close>

theorem registry_routes_to_owner:
  "tr_adapters (register_all as) = foldl accept_adapter [] as \<and>
   find_adapter (register_all as) = owner (foldl accept_adapter [] as) \<and>
   td_name ` set (list_tools (register_all as)) = dom (tr_index (register_all as))"
proof (intro conjI)
  show "td_name ` set (list_tools (register_all as)) = dom (tr_index (register_all as))"
    using register_all_names [of _ as] by (simp add: set_eq_iff dom_def)
qed (simp_all add: register_all_adapters register_all_find fun_eq_iff)

section \<open>Keys name the call\<close>

text \<open>Two values that differ only in the order of object members, at any depth.\<close>

inductive json_same :: "json \<Rightarrow> json \<Rightarrow> bool" where
  json_same_refl: "json_same v v"
| json_same_array: "list_all2 json_same vs ws \<Longrightarrow> json_same (JArr vs) (JArr ws)"
| json_same_object:
    "list_all2 (\<lambda>x y. fst x = fst y \<and> json_same (snd x) (snd y)) kvs lws \<Longrightarrow> mset lws = mset lws' \<Longrightarrow>
     distinct (map fst kvs) \<Longrightarrow> json_same (JObj kvs) (JObj lws')"

lemma sort_members:
  assumes "mset xs = mset ys" "distinct (map fst xs)"
  shows "sort_key fst xs = sort_key fst ys"
proof (rule sort_key_inj_key_eq)
  show "mset xs = mset (sort_key fst ys)" using assms(1) by simp
  show "inj_on fst (set xs)" using assms(2) by (simp add: distinct_map)
  show "sorted (map fst (sort_key fst ys))" by simp
qed

lemma canonical_json_same: "json_same a b \<Longrightarrow> canonical_json print a = canonical_json print b"
proof (induction rule: json_same.induct)
  case (json_same_array vs ws)
  then have "map (canonical_json print) vs = map (canonical_json print) ws"
    by (induction rule: list_all2_induct) auto
  then show ?case by simp
next
  case (json_same_object kvs lws lws')
  let ?c = "map (\<lambda>(k, v). (k, canonical_json print v))"
  have eq: "?c kvs = ?c lws"
    using json_same_object(1) by (induction rule: list_all2_induct) auto
  have "mset (?c lws) = mset (?c lws')" using json_same_object(2) by simp
  moreover have "map fst (?c lws) = map fst kvs" unfolding eq [symmetric] by (simp add: split_beta)
  then have "distinct (map fst (?c lws))" using json_same_object(3) by simp
  ultimately have "sort_key fst (?c lws) = sort_key fst (?c lws')" by (rule sort_members)
  with eq show ?case by simp
qed simp

lemma colon_suffix:
  assumes "a @ CHR '':'' # b = a' @ CHR '':'' # b'" "CHR '':'' \<notin> set b" "CHR '':'' \<notin> set b'"
  shows "a = a' \<and> b = b'"
proof -
  let ?P = "\<lambda>c. c \<noteq> CHR '':''"
  have suffix: "rev (takeWhile ?P (rev (u @ CHR '':'' # v))) = v \<and>
      length (takeWhile ?P (rev (u @ CHR '':'' # v))) = length v" if "CHR '':'' \<notin> set v" for u v :: string
    using that by (auto simp: takeWhile_append)
  from suffix [OF assms(2), of a] suffix [OF assms(3), of a'] have "b = b'" by (simp add: assms(1))
  with assms(1) show ?thesis by simp
qed

text \<open>
  The idempotency key of a call is the same for two argument values that differ only in the order
  of their members, and for tools without a colon in their name two keys are equal exactly when the
  task, the tool and the first sixteen digits of the arguments' digest are.
\<close>

theorem build_key_exact:
  assumes "CHR '':'' \<notin> set tool" "CHR '':'' \<notin> set tool'" "\<And>x. length (digest x) = 64"
    "json_same args args''"
  shows "build_key print digest task tool args = build_key print digest task tool args'' \<and>
    (build_key print digest task tool args = build_key print digest task' tool' args' \<longleftrightarrow>
      task = task' \<and> tool = tool' \<and>
      take 16 (digest (canonical_json print args)) = take 16 (digest (canonical_json print args')))"
proof -
  let ?h = "\<lambda>a. take 16 (digest (canonical_json print a))"
  have len: "length (CHR '':'' # ?h args) = length (CHR '':'' # ?h args')" using assms(3) by simp
  have "build_key print digest task tool args = build_key print digest task' tool' args' \<longleftrightarrow>
      (task @ '':bank:'' @ tool) @ CHR '':'' # ?h args = (task' @ '':bank:'' @ tool') @ CHR '':'' # ?h args'"
    by (simp add: build_key_def)
  also have "\<dots> \<longleftrightarrow> task @ '':bank:'' @ tool = task' @ '':bank:'' @ tool' \<and> ?h args = ?h args'"
    unfolding append_eq_append_conv [OF disjI2 [OF len]] by simp
  also have "task @ '':bank:'' @ tool = task' @ '':bank:'' @ tool' \<longleftrightarrow> task = task' \<and> tool = tool'"
    using colon_suffix [of "task @ '':bank''" tool "task' @ '':bank''" tool'] assms(1,2) by auto
  finally show ?thesis by (simp add: build_key_def canonical_json_same [OF assms(4)])
qed

lemma json_same_swap: "k \<noteq> l \<Longrightarrow> json_same (JObj [(k, v), (l, w)]) (JObj [(l, w), (k, v)])"
  by (rule json_same_object [where lws = "[(k, v), (l, w)]"]) (auto intro: json_same_refl)

lemma build_key_exact_witness:
  "build_key (\<lambda>_. ''x'') (\<lambda>_. replicate 64 CHR ''0'') ''t'' ''fixus_jq'' (JObj [(''a'', JNull), (''b'', JNull)]) =
   build_key (\<lambda>_. ''x'') (\<lambda>_. replicate 64 CHR ''0'') ''t'' ''fixus_jq'' (JObj [(''b'', JNull), (''a'', JNull)])"
  by (rule conjunct1 [OF build_key_exact [where tool' = "''fixus_rg''", OF _ _ _ json_same_swap]]) simp_all

section \<open>The sandbox has less time than its caller\<close>

text \<open>
  For every built-in tool the sandbox is given exactly five seconds less than the caller waits. In
  general the limit of the sandbox is not below the caller's exactly for the tools declared with at most
  five seconds, for which the caller gives up first.
\<close>

theorem sandbox_deadline_within_call:
  "map (\<lambda>s. sandbox_timeout_ms (ts_default_timeout_secs s) + 5000) builtins =
     map (\<lambda>s. default_timeout (ts_name s) builtins * 1000) builtins \<and>
   {t. t * 1000 < 2 ^ 64 \<and> sandbox_timeout_ms t \<ge> t * 1000} = {0..5}"
proof
  show "map (\<lambda>s. sandbox_timeout_ms (ts_default_timeout_secs s) + 5000) builtins =
      map (\<lambda>s. default_timeout (ts_name s) builtins * 1000) builtins"
    by (simp add: builtins_def builtin_def default_timeout_def find_tool_def sandbox_timeout_ms_def)
  show "{t. t * 1000 < 2 ^ 64 \<and> sandbox_timeout_ms t \<ge> t * 1000} = {0..5}"
    by (auto simp: sandbox_timeout_ms_def max_def split: if_splits)
qed

section \<open>Declaring external adapters\<close>

text \<open>Text that \<open>trim\<close> leaves alone and that is not empty.\<close>

definition tight :: "string \<Rightarrow> bool" where
  "tight w \<longleftrightarrow> w \<noteq> [] \<and> \<not> is_blank [hd w] \<and> \<not> is_blank [last w]"

definition print_adapter :: "http_adapter_config \<Rightarrow> string" where
  "print_adapter cfg =
     join ''|''
       ([ha_name cfg, ha_base_url cfg, join '','' (map at_name (ha_tools cfg))] @
        (case ha_auth_header cfg of None \<Rightarrow> [] | Some a \<Rightarrow> [''auth='' @ a]) @
        [''timeout='' @ show_nat (ha_timeout_secs cfg)])"

definition field_ok :: "string \<Rightarrow> bool" where
  "field_ok w \<longleftrightarrow> tight w \<and> CHR ''|'' \<notin> set w \<and> CHR '';'' \<notin> set w"

definition adapter_ok :: "http_adapter_config \<Rightarrow> bool" where
  "adapter_ok cfg \<longleftrightarrow>
     field_ok (ha_name cfg) \<and> field_ok (ha_base_url cfg) \<and> ha_tools cfg \<noteq> [] \<and>
     list_all (\<lambda>t. field_ok (at_name t) \<and> CHR '','' \<notin> set (at_name t) \<and>
       t = declared_tool (ha_base_url cfg) (at_name t)) (ha_tools cfg) \<and>
     pred_option field_ok (ha_auth_header cfg) \<and> ha_timeout_secs cfg < 2 ^ 64"

lemma trim_tight: "tight w \<Longrightarrow> trim w = w"
proof -
  have drop: "dropWhile (\<lambda>c. is_blank [c]) v = v" if "v \<noteq> []" "\<not> is_blank [hd v]" for v
    using that by (cases v) auto
  assume "tight w"
  then show ?thesis by (simp add: trim_def tight_def drop hd_rev)
qed

lemma tight_append: "tight a \<Longrightarrow> tight b \<Longrightarrow> tight (a @ s @ b)"
  by (simp add: tight_def)

lemma tight_join: "ws \<noteq> [] \<Longrightarrow> list_all tight ws \<Longrightarrow> tight (join sep ws)"
  by (induction sep ws rule: join.induct) (auto intro: tight_append)

lemma set_join: "set (join sep ws) \<subseteq> set sep \<union> \<Union> (set ` set ws)"
  by (induction sep ws rule: join.induct) auto

lemma split_on_word: "c \<notin> set w \<Longrightarrow> split_on c w = [w]"
  by (induction w) auto

lemma split_on_append: "c \<notin> set w \<Longrightarrow> split_on c (w @ c # s) = w # split_on c s"
  by (induction w) auto

lemma split_on_join: "ws \<noteq> [] \<Longrightarrow> list_all (\<lambda>w. c \<notin> set w) ws \<Longrightarrow> split_on c (join [c] ws) = ws"
proof (induction ws)
  case (Cons w ws)
  then show ?case by (cases ws) (simp_all add: split_on_word split_on_append)
qed simp

lemma trim_all: "list_all tight ws \<Longrightarrow> map trim ws = ws"
  by (induction ws) (simp_all add: trim_tight)

lemma digit_plain:
  "digit_val c \<noteq> None \<Longrightarrow> \<not> is_blank [c] \<and> c \<noteq> CHR ''|'' \<and> c \<noteq> CHR '';'' \<and> c \<noteq> CHR ''+''"
  by (auto simp: digit_val_def Let_def is_blank_def)

lemma show_nat_plain: "c \<in> set (show_nat n) \<Longrightarrow> \<not> is_blank [c] \<and> c \<noteq> CHR ''|'' \<and> c \<noteq> CHR '';''"
  using digit_plain [OF show_nat_digits] by simp

lemma field_ok_timeout: "field_ok (''timeout='' @ show_nat n)"
proof -
  have "\<not> is_blank [last (show_nat n)]" using show_nat_plain [of "last (show_nat n)" n] by simp
  moreover have "CHR ''|'' \<notin> set (show_nat n)" "CHR '';'' \<notin> set (show_nat n)"
    using show_nat_plain by blast+
  ultimately show ?thesis by (simp add: field_ok_def tight_def is_blank_def)
qed

lemma field_ok_auth: "field_ok a \<Longrightarrow> field_ok (''auth='' @ a)"
  by (simp add: field_ok_def tight_def is_blank_def)

lemma parse_uint_show: "n < 2 ^ w \<Longrightarrow> parse_uint w (show_nat n) = Some n"
proof -
  obtain c cs where c: "show_nat n = c # cs" "digit_val c \<noteq> None" using show_nat_hd by blast
  with parse_unsigned_show_nat [of n] digit_plain [of c] show "n < 2 ^ w \<Longrightarrow> ?thesis"
    by (simp add: parse_uint_def)
qed

lemma strip_options:
  "strip_prefix ''auth='' (''auth='' @ a) = Some a"
  "strip_prefix ''auth='' (''timeout='' @ n) = None"
  "strip_prefix ''timeout='' (''timeout='' @ n) = Some n"
  by (simp_all add: strip_prefix_def)

lemma options_printed:
  assumes "n < 2 ^ 64"
  shows "adapter_options None d
      ((case auth of None \<Rightarrow> [] | Some a \<Rightarrow> [''auth='' @ a]) @ [''timeout='' @ show_nat n]) = (auth, n)"
proof -
  have "adapter_options au d [''timeout='' @ show_nat n] = (au, n)" for au
    unfolding adapter_options.simps strip_options by (simp add: parse_uint_show [OF assms])
  moreover have "adapter_options None d [''auth='' @ a, x] = adapter_options (Some a) d [x]" for a x
    unfolding adapter_options.simps(2) [of None] strip_options by simp
  ultimately show ?thesis by (cases auth) simp_all
qed

definition adapter_fields :: "http_adapter_config \<Rightarrow> string list" where
  "adapter_fields cfg =
     [ha_name cfg, ha_base_url cfg, join '','' (map at_name (ha_tools cfg))] @
     (case ha_auth_header cfg of None \<Rightarrow> [] | Some a \<Rightarrow> [''auth='' @ a]) @
     [''timeout='' @ show_nat (ha_timeout_secs cfg)]"

lemma field_ok_join:
  assumes "ws \<noteq> []" "list_all field_ok ws"
  shows "field_ok (join '','' ws)"
proof -
  from assms have "tight (join '','' ws)" by (intro tight_join) (auto simp: list_all_iff field_ok_def)
  with assms set_join [of "'',''" ws] show ?thesis by (fastforce simp: field_ok_def list_all_iff)
qed

lemma adapter_fields_ok:
  assumes "adapter_ok cfg"
  shows "list_all field_ok (adapter_fields cfg)"
proof -
  have "field_ok (join '','' (map at_name (ha_tools cfg)))"
    using assms by (intro field_ok_join) (auto simp: adapter_ok_def list_all_iff)
  with assms show ?thesis
    using field_ok_timeout [of "ha_timeout_secs cfg"] field_ok_auth
    by (cases "ha_auth_header cfg") (simp_all add: adapter_ok_def adapter_fields_def)
qed

lemma parse_one_printed:
  assumes "adapter_ok cfg"
  shows "parse_one_http_adapter (print_adapter cfg) = Some cfg"
proof -
  let ?names = "map at_name (ha_tools cfg)"
  have ok: "list_all field_ok (adapter_fields cfg)" by (rule adapter_fields_ok [OF assms])
  have "map trim (split_on CHR ''|'' (print_adapter cfg)) = adapter_fields cfg"
  proof -
    have "print_adapter cfg = join ''|'' (adapter_fields cfg)" by (simp add: print_adapter_def adapter_fields_def)
    moreover have "split_on CHR ''|'' (join ''|'' (adapter_fields cfg)) = adapter_fields cfg"
      using ok by (intro split_on_join) (auto simp: list_all_iff field_ok_def adapter_fields_def)
    moreover have "map trim (adapter_fields cfg) = adapter_fields cfg"
      using ok by (intro trim_all) (auto simp: list_all_iff field_ok_def)
    ultimately show ?thesis by simp
  qed
  moreover have "filter (\<lambda>t. t \<noteq> []) (map trim (split_on CHR '','' (join '','' ?names))) = ?names"
  proof -
    have tn: "list_all tight ?names" "list_all (\<lambda>w. CHR '','' \<notin> set w) ?names" "?names \<noteq> []"
      using assms by (auto simp: adapter_ok_def list_all_iff field_ok_def)
    then show ?thesis
      by (simp only: split_on_join [OF tn(3,2)] trim_all [OF tn(1)])
        (auto simp: list_all_iff tight_def filter_id_conv)
  qed
  moreover have "map (declared_tool (ha_base_url cfg)) ?names = ha_tools cfg"
    using assms by (auto simp: adapter_ok_def list_all_iff intro: map_idI)
  moreover have "ha_name cfg \<noteq> []" "ha_base_url cfg \<noteq> []" "ha_tools cfg \<noteq> []" "ha_timeout_secs cfg < 2 ^ 64"
    using assms by (auto simp: adapter_ok_def field_ok_def tight_def)
  ultimately show ?thesis
    using options_printed [of "ha_timeout_secs cfg" 15 "ha_auth_header cfg"]
    by (simp add: parse_one_http_adapter_def adapter_fields_def)
qed

text \<open>
  Declaring external adapters: a list of adapters with well-formed fields, written with one
  entry for each, is read back unchanged, whatever their number, their options and their tools.
\<close>

theorem http_adapters_roundtrip:
  assumes "list_all adapter_ok cfgs" "cfgs \<noteq> []"
  shows "parse_http_adapters (join '';'' (map print_adapter cfgs)) = cfgs"
proof -
  have entry: "tight (print_adapter c)" "CHR '';'' \<notin> set (print_adapter c)" if "adapter_ok c" for c
  proof -
    have p: "print_adapter c = join ''|'' (adapter_fields c)" by (simp add: print_adapter_def adapter_fields_def)
    have f: "list_all field_ok (adapter_fields c)" by (rule adapter_fields_ok [OF that])
    then show "tight (print_adapter c)"
      unfolding p by (intro tight_join) (auto simp: list_all_iff field_ok_def adapter_fields_def)
    show "CHR '';'' \<notin> set (print_adapter c)"
      using f set_join [of "''|''" "adapter_fields c"] unfolding p by (fastforce simp: list_all_iff field_ok_def)
  qed
  let ?es = "map print_adapter cfgs"
  have e: "list_all tight ?es" "list_all (\<lambda>w. CHR '';'' \<notin> set w) ?es" "?es \<noteq> []"
    using assms entry by (auto simp: list_all_iff)
  have "filter (\<lambda>x. x \<noteq> []) ?es = ?es" using e(1) by (auto simp: list_all_iff tight_def filter_id_conv)
  moreover have "List.map_filter parse_one_http_adapter ?es = cfgs"
    using assms(1) by (induction cfgs) (simp_all add: map_filter_simps parse_one_printed)
  ultimately show ?thesis
    by (simp only: parse_http_adapters_def split_on_join [OF e(3,2)] trim_all [OF e(1)])
qed

definition sample_adapter :: http_adapter_config where
  "sample_adapter = \<lparr>ha_name = ''slack'', ha_base_url = ''http://localhost:9000'',
     ha_auth_header = Some ''Bearer x'', ha_timeout_secs = 10,
     ha_tools = [declared_tool ''http://localhost:9000'' ''post_message'',
                 declared_tool ''http://localhost:9000'' ''lookup'']\<rparr>"

lemma http_adapters_roundtrip_witness:
  "parse_http_adapters (join '';'' (map print_adapter [sample_adapter, sample_adapter])) =
     [sample_adapter, sample_adapter]"
proof (rule http_adapters_roundtrip)
  show "list_all adapter_ok [sample_adapter, sample_adapter]"
    by (simp add: adapter_ok_def sample_adapter_def field_ok_def tight_def is_blank_def declared_tool_def)
qed simp

end
