(* ===== verification/Tools_Bank.thy ===== *)
theory Tools_Bank
  imports Tool_Adapter Broker_Store Consumer_Group
begin

text \<open>
  The tools bank (\<open>src/bin/tools-bank/main.rs\<close> and the adapters of \<open>adapter.rs\<close>): the server that
  lists tools and runs them, in the sandbox over the broker or through an external web hook, and that
  reports each call to the orchestrator as a pair of step events. The broker, the web hooks, the clocks
  and the JSON and digest libraries are parameters, and so is what the process does for other calls
  while one waits; that is given as events executed by the model's own operations.
\<close>

section \<open>State and environment\<close>

type_synonym pending_tool_result = tool_result

text \<open>A oneshot channel is a number. \<open>bk_ticks\<close> counts the questions put to the environment.\<close>

record bank =
  bk_pending :: "(string \<times> nat) list"      \<comment> \<open>step, channel\<close>
  bk_next_channel :: nat
  bk_sent :: "(nat \<times> pending_tool_result) list"
  bk_produced :: "produce_request list"
  bk_seq :: nat      \<comment> \<open>an \<open>AtomicU64\<close>\<close>
  bk_ticks :: nat

definition bank_new :: bank where
  "bank_new = \<lparr>bk_pending = [], bk_next_channel = 0, bk_sent = [], bk_produced = [], bk_seq = 0, bk_ticks = 0\<rparr>"

record sandbox_adapter =
  sb_namespace :: string
  sb_region :: string
  sb_extras :: "tool_spec list"

record http_request =
  hr_url :: string
  hr_body :: json
  hr_auth :: "string option"

text \<open>A response with its status and, when it could be read, its text; or the error's kind and text.\<close>

datatype http_reply =
    HttpResponse nat "string option"
  | HttpTimeout string
  | HttpConnect string
  | HttpFailed string

text \<open>What the process does to its state for other calls, one step each.\<close>

datatype bank_event =
    OtherOpens sandbox_adapter string json call_ctx
  | OtherGivesUp string
  | OtherEmits string string string json      \<comment> \<open>namespace, task, event type, payload\<close>
  | OtherTakesSeq
  | ResultArrives group_record

record bank_env =
  be_print :: "json \<Rightarrow> string"
  be_parse :: "string \<Rightarrow> json option"
  be_digest :: "string \<Rightarrow> string"
  be_uuid :: "nat \<Rightarrow> string"
  be_instant :: "nat \<Rightarrow> int"
  be_broker :: "nat \<Rightarrow> produce_request \<Rightarrow> string option"      \<comment> \<open>the error, if any\<close>
  be_http :: "nat \<Rightarrow> http_request \<Rightarrow> http_reply"
  be_client :: "http_adapter_config \<Rightarrow> bool"
  be_meanwhile :: "nat \<Rightarrow> nat \<Rightarrow> bank_event list"      \<comment> \<open>while a channel is awaited for so many seconds\<close>

type_synonym ('e, 'a) bop = "('e, bank, 'a) opn"

definition ask :: "(nat \<Rightarrow> 'a) \<Rightarrow> ('e, 'a) bop" where
  "ask f s = (Inr (f (bk_ticks s)), s\<lparr>bk_ticks := bk_ticks s + 1\<rparr>)"

definition produce_full :: "bank_env \<Rightarrow> produce_request \<Rightarrow> (string, unit) bop" where
  "produce_full env req s =
     (let s' = s\<lparr>bk_ticks := bk_ticks s + 1\<rparr>
      in case be_broker env (bk_ticks s) req of
           Some e \<Rightarrow> (Inl e, s')
         | None \<Rightarrow> (Inr (), s'\<lparr>bk_produced := bk_produced s' @ [req]\<rparr>))"

definition bank_request ::
  "bank_env \<Rightarrow> string \<Rightarrow> string \<Rightarrow> string \<Rightarrow> json \<Rightarrow> string \<Rightarrow> metadata \<Rightarrow> produce_request" where
  "bank_request env namespace stream event_type content task_id meta =
     \<lparr>pq_namespace = namespace, pq_stream = stream, pq_event_type = event_type, pq_timestamp_ns = 0,
      pq_content_type = ''application/json'', pq_metadata = meta, pq_content = be_print env content,
      pq_shard_key = Some task_id\<rparr>"

section \<open>Step events\<close>

definition with_turn :: "int option \<Rightarrow> json \<Rightarrow> json" where
  "with_turn turn_id p = (case turn_id of None \<Rightarrow> p | Some t \<Rightarrow> jset ''turn_id'' (JInt t) p)"

definition tool_invoked_payload ::
  "string \<Rightarrow> int option \<Rightarrow> string \<Rightarrow> string \<Rightarrow> string \<Rightarrow> string \<Rightarrow> json \<Rightarrow> int \<Rightarrow> json" where
  "tool_invoked_payload task_id turn_id step_id tool_name tool_call_id idempotency_key input local_seq =
     with_turn turn_id (JObj
       [(''task_id'', JStr task_id), (''step_id'', JStr step_id), (''tool_name'', JStr tool_name),
        (''tool_call_id'', JStr tool_call_id), (''idempotency_key'', JStr idempotency_key),
        (''input'', input), (''local_seq'', JInt local_seq), (''event_type'', JStr ''tool_invoked'')])"

definition tool_completed_payload ::
  "string \<Rightarrow> int option \<Rightarrow> string \<Rightarrow> string \<Rightarrow> json \<Rightarrow> bool \<Rightarrow> int \<Rightarrow> json" where
  "tool_completed_payload task_id turn_id step_id tool_call_id output is_error local_seq =
     with_turn turn_id (JObj
       [(''task_id'', JStr task_id), (''step_id'', JStr step_id), (''tool_call_id'', JStr tool_call_id),
        (''output'', output), (''is_error'', JBool is_error), (''local_seq'', JInt local_seq),
        (''event_type'', JStr ''tool_completed'')])"

definition tool_failed_payload ::
  "string \<Rightarrow> int option \<Rightarrow> string \<Rightarrow> string \<Rightarrow> string \<Rightarrow> string \<Rightarrow> int \<Rightarrow> json" where
  "tool_failed_payload task_id turn_id step_id tool_call_id error_type error_message local_seq =
     with_turn turn_id (JObj
       [(''task_id'', JStr task_id), (''step_id'', JStr step_id), (''tool_call_id'', JStr tool_call_id),
        (''error_type'', JStr error_type), (''error_message'', JStr error_message),
        (''local_seq'', JInt local_seq), (''event_type'', JStr ''tool_failed'')])"

definition emit_task_end ::
  "bank_env \<Rightarrow> string \<Rightarrow> string \<Rightarrow> string \<Rightarrow> json \<Rightarrow> ('e, bool) bop" where
  "emit_task_end env namespace task_id event_type payload s =
     (case produce_full env
             (bank_request env namespace ''task-end'' event_type payload task_id
               [(''task_id'', task_id), (''event_type'', event_type)]) s of
        (Inr _, s') \<Rightarrow> (Inr True, s') | (Inl _, s') \<Rightarrow> (Inr False, s'))"

text \<open>\<open>seq.fetch_add(1) as i64 + 1\<close>.\<close>

definition next_local_seq :: "('e, int) bop" where
  "next_local_seq s =
     (Inr (add_i64 (wrap_i64 (int (bk_seq s))) 1), s\<lparr>bk_seq := (bk_seq s + 1) mod 2 ^ 64\<rparr>)"

section \<open>Results from the sandbox\<close>

fun as_u64 :: "json \<Rightarrow> nat option" where
  "as_u64 (JInt n) = (if 0 \<le> n \<and> n < 2 ^ 64 then Some (nat n) else None)"
| "as_u64 _ = None"

definition pending_result_of :: "json \<Rightarrow> pending_tool_result" where
  "pending_result_of result =
     \<lparr>rs_success = unwrap_or False (as_bool (jindex result ''success'')),
      rs_output = jindex result ''output'',
      rs_error = as_str (jindex result ''error''),
      rs_duration_ms = unwrap_or 0 (as_u64 (jindex result ''duration_ms''))\<rparr>"

definition result_json :: "bank_env \<Rightarrow> group_record \<Rightarrow> json" where
  "result_json env rec = unwrap_or JNull (be_parse env (gr_content rec))"

text \<open>The step a record is the result of: none for another record or one without a step.\<close>

definition result_step :: "bank_env \<Rightarrow> group_record \<Rightarrow> string option" where
  "result_step env rec =
     (let step_id = unwrap_or [] (as_str (jindex (result_json env rec) ''step_id''))
      in if gr_event_type rec \<noteq> ''tool_result'' \<or> step_id = [] then None else Some step_id)"

definition close_step :: "string \<Rightarrow> bank \<Rightarrow> bank" where
  "close_step step_id s = s\<lparr>bk_pending := AList.delete step_id (bk_pending s)\<rparr>"

definition deliver_result :: "bank_env \<Rightarrow> group_record \<Rightarrow> ('e, bool) bop" where
  "deliver_result env rec s =
     (case result_step env rec of
        None \<Rightarrow> (Inr False, s)
      | Some step_id \<Rightarrow>
          (let pr = pending_result_of (result_json env rec); s' = close_step step_id s
           in (Inr True,
               (case map_of (bk_pending s) step_id of
                  None \<Rightarrow> s'
                | Some tx \<Rightarrow> s'\<lparr>bk_sent := bk_sent s' @ [(tx, pr)]\<rparr>))))"

definition try_consume_results :: "bank_env \<Rightarrow> group_frame list \<Rightarrow> ('e, bool \<times> (nat \<times> int) list) bop" where
  "try_consume_results env fs = consume (deliver_result env) 0 [] fs"

definition bank_result_consumer ::
  "bank_env \<Rightarrow> group_session list \<Rightarrow> ('e, (bool \<times> (nat \<times> int) list) list) bop" where
  "bank_result_consumer env granted = rejoin (deliver_result env) granted"

section \<open>The sandbox adapter\<close>

definition sandbox_specs :: "sandbox_adapter \<Rightarrow> tool_spec list" where
  "sandbox_specs sb = builtins @ sb_extras sb"

definition sandbox_tools :: "sandbox_adapter \<Rightarrow> tool_def list" where
  "sandbox_tools sb = map tool_def_of (builtins @ sb_extras sb)"

text \<open>The first half of a call: the channel is registered before the request is produced.\<close>

definition sandbox_open :: "bank_env \<Rightarrow> sandbox_adapter \<Rightarrow> string \<Rightarrow> json \<Rightarrow> call_ctx \<Rightarrow> (string, nat) bop" where
  "sandbox_open env sb tool args ctx =
     andThen (ask (be_uuid env)) (\<lambda>tool_call_id s.
       let payload = sandbox_payload (cx_task_id ctx) tool tool_call_id args (cx_idempotency_key ctx)
                       (default_timeout tool (sandbox_specs sb));
           meta = build_invoke_meta (be_print env) (cx_task_id ctx) (cx_step_id ctx) (cx_effective_policy ctx);
           tx = bk_next_channel s;
           s1 = s\<lparr>bk_next_channel := tx + 1, bk_pending := AList.update (cx_step_id ctx) tx (bk_pending s)\<rparr>
       in case produce_full env
                 (bank_request env (sb_namespace sb) (''tool-invoke-'' @ sb_region sb) ''tool_invoked'' payload
                   (cx_task_id ctx) meta) s1 of
            (Inl e, s2) \<Rightarrow> (Inl (''broker produce failed: '' @ e), close_step (cx_step_id ctx) s2)
          | (Inr _, s2) \<Rightarrow> (Inr tx, s2))"

fun bank_event_step :: "bank_env \<Rightarrow> bank_event \<Rightarrow> bank \<Rightarrow> bank" where
  "bank_event_step env (OtherOpens sb tool args ctx) s = snd (sandbox_open env sb tool args ctx s)"
| "bank_event_step env (OtherGivesUp step_id) s = close_step step_id s"
| "bank_event_step env (OtherEmits ns task_id event_type payload) s =
     snd (emit_task_end env ns task_id event_type payload s :: (string + bool) \<times> bank)"
| "bank_event_step env OtherTakesSeq s = snd (next_local_seq s :: (string + int) \<times> bank)"
| "bank_event_step env (ResultArrives rec) s = snd (deliver_result env rec s :: (string + bool) \<times> bank)"

definition run_events :: "bank_env \<Rightarrow> bank_event list \<Rightarrow> bank \<Rightarrow> bank" where
  "run_events env es s = fold (bank_event_step env) es s"

text \<open>The second half: the result, a channel whose sender is gone, or the time is up.\<close>

definition sandbox_wait :: "bank_env \<Rightarrow> string \<Rightarrow> nat \<Rightarrow> nat \<Rightarrow> (string, tool_result) bop" where
  "sandbox_wait env step_id timeout_secs rx s =
     (let s' = run_events env (be_meanwhile env rx timeout_secs) s
      in case map_of (bk_sent s') rx of
           Some r \<Rightarrow> (Inr r, s')
         | None \<Rightarrow>
             if rx \<in> snd ` set (bk_pending s')
             then (Inl (''sandbox timeout after '' @ show_nat timeout_secs @ ''s''), close_step step_id s')
             else (Inl ''pending channel closed'', close_step step_id s'))"

definition sandbox_invoke :: "bank_env \<Rightarrow> sandbox_adapter \<Rightarrow> string \<Rightarrow> json \<Rightarrow> call_ctx \<Rightarrow> (string, tool_result) bop" where
  "sandbox_invoke env sb tool args ctx =
     andThen (sandbox_open env sb tool args ctx) (\<lambda>rx.
       sandbox_wait env (cx_step_id ctx) (default_timeout tool (sandbox_specs sb)) rx)"

definition sandbox_as_adapter :: "bank_env \<Rightarrow> sandbox_adapter \<Rightarrow> bank action_adapter" where
  "sandbox_as_adapter env sb =
     \<lparr>aa_name = ''sandbox'', aa_tools = sandbox_tools sb, aa_invoke = sandbox_invoke env sb\<rparr>"

section \<open>The adapter for web hooks\<close>

definition http_tools :: "http_adapter_config \<Rightarrow> tool_def list" where
  "http_tools cfg =
     map (\<lambda>t. \<lparr>td_name = at_name t, td_description = at_description t,
               td_input_schema = JObj [(''type'', JStr ''object'')]\<rparr>) (ha_tools cfg)"

definition http_invoke :: "bank_env \<Rightarrow> http_adapter_config \<Rightarrow> string \<Rightarrow> json \<Rightarrow> call_ctx \<Rightarrow> (string, tool_result) bop" where
  "http_invoke env cfg tool args ctx =
     andThen (ask (be_instant env)) (\<lambda>started.
     andThen (ask (\<lambda>n. be_http env n
         \<lparr>hr_url = trim_end_slashes (ha_base_url cfg) @ ''/'' @ tool,
          hr_body = JObj [(''tool'', JStr tool), (''arguments'', args), (''task_id'', JStr (cx_task_id ctx)),
                          (''idempotency_key'', JStr (cx_idempotency_key ctx))],
          hr_auth = ha_auth_header cfg\<rparr>)) (\<lambda>reply.
       case reply of
         HttpResponse status body \<Rightarrow>
           andThen (ask (be_instant env)) (\<lambda>now.
             let success = (200 \<le> status \<and> status < 300); txt = unwrap_or [] body
             in ok \<lparr>rs_success = success,
                    rs_output = (case be_parse env txt of Some j \<Rightarrow> j | None \<Rightarrow> JStr txt),
                    rs_error = (if success then None else Some (''http '' @ show_nat status)),
                    rs_duration_ms = nat ((now - started) div 1000000)\<rparr>)
       | HttpTimeout e \<Rightarrow> err (''http timeout failed: '' @ e)
       | HttpConnect e \<Rightarrow> err (''http connect failed: '' @ e)
       | HttpFailed e \<Rightarrow> err (''http request failed: '' @ e)))"

definition http_as_adapter :: "bank_env \<Rightarrow> http_adapter_config \<Rightarrow> bank action_adapter" where
  "http_as_adapter env cfg =
     \<lparr>aa_name = ha_name cfg, aa_tools = http_tools cfg, aa_invoke = http_invoke env cfg\<rparr>"

section \<open>The MCP server\<close>

record mcp_request =
  mq_id :: "int option"
  mq_method :: string
  mq_params :: "json option"

record mcp_response =
  mr_id :: "int option"
  mr_result :: "json option"
  mr_error :: "(int \<times> string) option"      \<comment> \<open>code, message\<close>

record app_state =
  ap_registry :: "bank tool_registry"
  ap_lifecycle_namespace :: string

definition mcp_ok :: "int option \<Rightarrow> json \<Rightarrow> mcp_response" where
  "mcp_ok rid result = \<lparr>mr_id = rid, mr_result = Some result, mr_error = None\<rparr>"

definition mcp_err :: "int option \<Rightarrow> int \<Rightarrow> string \<Rightarrow> mcp_response" where
  "mcp_err rid code message = \<lparr>mr_id = rid, mr_result = None, mr_error = Some (code, message)\<rparr>"

definition tool_def_json :: "tool_def \<Rightarrow> json" where
  "tool_def_json t =
     JObj [(''name'', JStr (td_name t)), (''description'', JStr (td_description t)),
           (''inputSchema'', td_input_schema t)]"

definition tools_list :: "'s tool_registry \<Rightarrow> int option \<Rightarrow> mcp_response" where
  "tools_list r rid = mcp_ok rid (JObj [(''tools'', JArr (map tool_def_json (list_tools r)))])"

text \<open>What the agent reads: the output, and for a failure its error too.\<close>

definition result_text :: "bank_env \<Rightarrow> tool_result \<Rightarrow> string" where
  "result_text env r =
     (if \<not> rs_success r
      then (case rs_error r of
              Some e \<Rightarrow> if is_null (rs_output r) then e else e @ '': '' @ be_print env (rs_output r)
            | None \<Rightarrow> be_print env (rs_output r))
      else be_print env (rs_output r))"

definition call_response :: "bank_env \<Rightarrow> int option \<Rightarrow> tool_result \<Rightarrow> mcp_response" where
  "call_response env rid r =
     mcp_ok rid (JObj
       [(''content'', JArr [JObj [(''type'', JStr ''text''), (''text'', JStr (result_text env r))]]),
        (''isError'', JBool (\<not> rs_success r)),
        (''_meta'', JObj [(''duration_ms'', JInt (int (rs_duration_ms r)))])])"

text \<open>The closing half of the pair of step events: only after an opening half that was produced.\<close>

definition emit_closing ::
  "bank_env \<Rightarrow> string \<Rightarrow> string \<Rightarrow> bool \<Rightarrow> string \<Rightarrow> (int \<Rightarrow> json) \<Rightarrow> ('e, unit) bop" where
  "emit_closing env namespace task_id opening_ok event_type payload =
     (if opening_ok
      then andThen next_local_seq (\<lambda>terminal_seq.
           andThen (emit_task_end env namespace task_id event_type (payload terminal_seq)) (\<lambda>_. ok ()))
      else ok ())"

definition tools_call ::
  "bank_env \<Rightarrow> app_state \<Rightarrow> string \<Rightarrow> int option \<Rightarrow> string \<Rightarrow> json \<Rightarrow> json option \<Rightarrow> int option
    \<Rightarrow> (invoke_error, mcp_response) bop" where
  "tools_call env app task_id turn_id tool_name args effective_policy rid =
     andThen (ask (be_uuid env)) (\<lambda>step_id.
       let key = build_key (be_print env) (be_digest env) task_id tool_name args;
           ctx = \<lparr>cx_task_id = task_id, cx_idempotency_key = key, cx_effective_policy = effective_policy,
                  cx_step_id = step_id, cx_turn_id = turn_id\<rparr>;
           ns = ap_lifecycle_namespace app;
           failed = (\<lambda>error_type message.
             tool_failed_payload task_id turn_id step_id step_id error_type message)
       in andThen next_local_seq (\<lambda>local_seq.
          andThen (emit_task_end env ns task_id ''tool_invoked''
             (tool_invoked_payload task_id turn_id step_id tool_name step_id key args local_seq)) (\<lambda>opening_ok.
          attempt (invoke_tool (ap_registry app) tool_name args ctx) (\<lambda>outcome.
            case outcome of
              Inr r \<Rightarrow>
                andThen (emit_closing env ns task_id opening_ok ''tool_completed''
                  (tool_completed_payload task_id turn_id step_id step_id (rs_output r) (\<not> rs_success r))) (\<lambda>_.
                ok (call_response env rid r))
            | Inl NotFound \<Rightarrow>
                andThen (emit_closing env ns task_id opening_ok ''tool_failed''
                  (failed ''NotFound'' (''unknown tool: '' @ tool_name))) (\<lambda>_.
                ok (mcp_err rid (- 32602) (''unknown tool: '' @ tool_name)))
            | Inl (AdapterFailed msg) \<Rightarrow>
                andThen (emit_closing env ns task_id opening_ok ''tool_failed'' (failed ''Adapter'' msg)) (\<lambda>_.
                ok (mcp_err rid (- 32603) msg))))))"

text \<open>The headers of a request that are text.\<close>

definition handle_mcp ::
  "bank_env \<Rightarrow> app_state \<Rightarrow> (string \<rightharpoonup> string) \<Rightarrow> mcp_request \<Rightarrow> (invoke_error, mcp_response) bop" where
  "handle_mcp env app headers body =
     (if mq_method body = ''initialize'' then
        ok (mcp_ok (mq_id body) (JObj
          [(''protocolVersion'', JStr ''2024-11-05''),
           (''serverInfo'', JObj [(''name'', JStr ''tools-bank''), (''version'', JStr ''0.1.0'')]),
           (''capabilities'', JObj [(''tools'', JObj [])])]))
      else if mq_method body = ''tools/list'' then ok (tools_list (ap_registry app) (mq_id body))
      else if mq_method body = ''tools/call'' then
        (let tool_name = unwrap_or ''?'' (Option.bind (Option.bind (mq_params body) (jget ''name'')) as_str);
             task_id = unwrap_or ''unknown'' (headers ''X-Fixus-Session-Id'');
             turn_id = Option.bind (headers ''X-Fixus-Turn-Id'') parse_i64;
             effective_policy = Option.bind (headers ''X-Fixus-Policy'') (be_parse env);
             args = unwrap_or JNull (Option.bind (mq_params body) (jget ''arguments''))
         in tools_call env app task_id turn_id tool_name args effective_policy (mq_id body))
      else ok (mcp_err (mq_id body) (- 32601) (''unknown method: '' @ mq_method body)))"

section \<open>Start-up\<close>

text \<open>Registering the sandbox first cannot collide, so its \<open>expect\<close> never fails.\<close>

definition build_registry :: "bank_env \<Rightarrow> sandbox_adapter \<Rightarrow> string \<Rightarrow> bank tool_registry" where
  "build_registry env sb http_env =
     foldl (\<lambda>r cfg. if be_client env cfg then snd (register_adapter (http_as_adapter env cfg) r) else r)
       (snd (register_adapter (sandbox_as_adapter env sb) tool_registry_new))
       (parse_http_adapters http_env)"

text \<open>The extra tools of the file, when one is named and can be read; a malformed one counts as none.\<close>

definition load_extras ::
  "(string \<Rightarrow> string + extra_tool_raw list) \<Rightarrow> string option \<Rightarrow> tool_spec list" where
  "load_extras from_str file_text =
     filter_collisions
       (case file_text of
          Some txt \<Rightarrow> (case parse_extra_catalog from_str txt of Inr v \<Rightarrow> v | Inl _ \<Rightarrow> [])
        | None \<Rightarrow> [])
       builtins"

definition start_bank ::
  "bank_env \<Rightarrow> (string \<Rightarrow> string + extra_tool_raw list) \<Rightarrow> string option \<Rightarrow> string \<Rightarrow> string \<Rightarrow> string \<Rightarrow> app_state" where
  "start_bank env from_str file_text namespace region http_env =
     \<lparr>ap_registry = build_registry env
        \<lparr>sb_namespace = namespace, sb_region = region, sb_extras = load_extras from_str file_text\<rparr> http_env,
      ap_lifecycle_namespace = namespace\<rparr>"

end
