(* ===== verification/Tools_Bank_Properties.thy ===== *)
theory Tools_Bank_Properties
  imports Tools_Bank Orchestrator
begin

text \<open>
  What the tools bank promises: every call on the sandbox is answered by the first result that names
  its step or by a time-out and leaves no entry behind; every call is answered and reported as one
  pair of step events whatever adapter runs it; the events are read back by the orchestrator's
  consumer as the calls of its handlers; and no external adapter takes a tool from the sandbox.
\<close>

section \<open>Channels\<close>

definition bank_ok :: "bank \<Rightarrow> bool" where
  "bank_ok s \<longleftrightarrow> hash_wf (bk_pending s) \<and>
     snd ` set (bk_pending s) \<union> fst ` set (bk_sent s) \<subseteq> {..<bk_next_channel s}"

definition waits_on :: "string \<Rightarrow> nat \<Rightarrow> bank \<Rightarrow> bool" where
  "waits_on step ch s \<longleftrightarrow> map_of (bk_pending s) step = Some ch \<and> ch \<notin> fst ` set (bk_sent s) \<and>
     list_all (\<lambda>(k, c). c = ch \<longrightarrow> k = step) (bk_pending s)"

definition answered :: "string \<Rightarrow> nat \<Rightarrow> tool_result \<Rightarrow> bank \<Rightarrow> bool" where
  "answered step ch pr s \<longleftrightarrow> map_of (bk_pending s) step = None \<and> map_of (bk_sent s) ch = Some pr"

text \<open>The events that concern a step by its id: another call under the same id.\<close>

fun reuses_step :: "string \<Rightarrow> bank_event \<Rightarrow> bool" where
  "reuses_step step (OtherOpens sb tool args ctx) \<longleftrightarrow> cx_step_id ctx = step"
| "reuses_step step (OtherGivesUp sid) \<longleftrightarrow> sid = step"
| "reuses_step step _ \<longleftrightarrow> False"

definition result_for :: "bank_env \<Rightarrow> string \<Rightarrow> bank_event \<Rightarrow> tool_result option" where
  "result_for env step e =
     (case e of
        ResultArrives rec \<Rightarrow>
          if result_step env rec = Some step then Some (pending_result_of (result_json env rec)) else None
      | _ \<Rightarrow> None)"

definition first_result :: "bank_env \<Rightarrow> string \<Rightarrow> bank_event list \<Rightarrow> tool_result option" where
  "first_result env step es = (case List.map_filter (result_for env step) es of [] \<Rightarrow> None | pr # _ \<Rightarrow> Some pr)"

lemma produce_full_fields:
  "produce_full env req s = (r, s') \<Longrightarrow>
     bk_pending s' = bk_pending s \<and> bk_sent s' = bk_sent s \<and> bk_next_channel s' = bk_next_channel s"
  by (auto simp: produce_full_def Let_def split: option.splits)

lemma emit_task_end_fields:
  "emit_task_end env ns t et p s = (r, s') \<Longrightarrow>
     bk_pending s' = bk_pending s \<and> bk_sent s' = bk_sent s \<and> bk_next_channel s' = bk_next_channel s"
  by (auto simp: emit_task_end_def dest: produce_full_fields split: prod.splits sum.splits)

lemma quiet_fields [simp]:
  "bk_pending (snd (emit_task_end env ns t et p s)) = bk_pending s"
  "bk_sent (snd (emit_task_end env ns t et p s)) = bk_sent s"
  "bk_next_channel (snd (emit_task_end env ns t et p s)) = bk_next_channel s"
  "bk_pending (snd (next_local_seq s)) = bk_pending s"
  "bk_sent (snd (next_local_seq s)) = bk_sent s"
  "bk_next_channel (snd (next_local_seq s)) = bk_next_channel s"
  by (simp_all add: emit_task_end_fields [OF surjective_pairing] next_local_seq_def)

text \<open>Opening a call: its channel is new, and an opening that fails leaves the step without an entry.\<close>

lemma sandbox_open_fields:
  assumes "sandbox_open env sb tool args ctx s = (r, s')"
  shows "bk_sent s' = bk_sent s" "bk_next_channel s' = bk_next_channel s + 1"
    "bk_pending s' = (case r of
       Inl _ \<Rightarrow> AList.delete (cx_step_id ctx) (AList.update (cx_step_id ctx) (bk_next_channel s) (bk_pending s))
     | Inr _ \<Rightarrow> AList.update (cx_step_id ctx) (bk_next_channel s) (bk_pending s))"
    "r = Inr ch \<Longrightarrow> ch = bk_next_channel s"
  using assms
  by (auto simp: sandbox_open_def andThen_apply ask_def Let_def close_step_def
      dest!: produce_full_fields split: prod.splits sum.splits)

lemma set_alist_update: "set (AList.update k v m) \<subseteq> insert (k, v) (set m)"
  by (induction m) auto

lemma set_alist_delete: "set (AList.delete k m) \<subseteq> set m"
  by (auto simp: AList.delete_eq)

lemma bank_ok_open: "bank_ok s \<Longrightarrow> bank_ok (snd (sandbox_open env sb tool args ctx s))"
proof -
  assume s: "bank_ok s"
  obtain r s' where e: "sandbox_open env sb tool args ctx s = (r, s')" by fastforce
  note f = sandbox_open_fields(1-3) [OF e]
  have "set (bk_pending s') \<subseteq> insert (cx_step_id ctx, bk_next_channel s) (set (bk_pending s))"
    using set_alist_update [of "cx_step_id ctx" "bk_next_channel s" "bk_pending s"] set_alist_delete
    by (cases r) (fastforce simp: f)+
  with s show ?thesis
    by (cases r) (fastforce simp: e f bank_ok_def)+
qed

lemma bank_ok_close: "bank_ok s \<Longrightarrow> bank_ok (close_step step s)"
  using set_alist_delete [of step "bk_pending s"] by (fastforce simp: bank_ok_def close_step_def)

lemma bank_ok_deliver: "bank_ok s \<Longrightarrow> bank_ok (snd (deliver_result env rec s))"
proof (cases "result_step env rec")
  case (Some step)
  assume s: "bank_ok s"
  show ?thesis
  proof (cases "map_of (bk_pending s) step")
    case None
    with s Some show ?thesis by (simp add: deliver_result_def bank_ok_close)
  next
    case (Some tx)
    then have "tx < bk_next_channel s" using s by (force simp: bank_ok_def dest: map_of_SomeD)
    with \<open>result_step env rec = Some step\<close> Some bank_ok_close [OF s, of step] show ?thesis
      by (auto simp: deliver_result_def bank_ok_def close_step_def)
  qed
qed (simp add: deliver_result_def)

interpretation bank_results: record_handler "deliver_result env" for env
  by unfold_locales (auto simp: deliver_result_def Let_def split: option.split)

lemma bank_ok_event: "bank_ok s \<Longrightarrow> bank_ok (bank_event_step env e s)"
  by (cases e) (simp_all add: bank_ok_open bank_ok_close bank_ok_deliver, simp_all add: bank_ok_def)

lemma bank_ok_events: "bank_ok s \<Longrightarrow> bank_ok (run_events env es s)"
  unfolding run_events_def by (induction es arbitrary: s) (simp_all add: bank_ok_event)

section \<open>A call and its result\<close>

lemma waits_on_open:
  assumes "bank_ok s" "waits_on step ch s" "cx_step_id ctx \<noteq> step"
  shows "waits_on step ch (snd (sandbox_open env sb tool args ctx s))"
proof -
  obtain r s' where e: "sandbox_open env sb tool args ctx s = (r, s')" by fastforce
  note f = sandbox_open_fields(1-3) [OF e]
  have "ch < bk_next_channel s" using assms(1,2) by (force simp: bank_ok_def waits_on_def dest: map_of_SomeD)
  moreover have "set (bk_pending s') \<subseteq> insert (cx_step_id ctx, bk_next_channel s) (set (bk_pending s))"
    using set_alist_update [of "cx_step_id ctx" "bk_next_channel s" "bk_pending s"] set_alist_delete
    by (cases r) (fastforce simp: f)+
  moreover have "map_of (bk_pending s') step = map_of (bk_pending s) step"
    using assms(3) by (cases r) (simp_all add: f hash_lookup_update hash_lookup_delete)
  ultimately show ?thesis
    using assms(2) by (auto simp: e f waits_on_def list_all_iff)
qed

lemma waits_on_close: "waits_on step ch s \<Longrightarrow> sid \<noteq> step \<Longrightarrow> waits_on step ch (close_step sid s)"
  using set_alist_delete [of sid "bk_pending s"]
  by (auto simp: waits_on_def close_step_def hash_lookup_delete list_all_iff)

lemma waits_on_deliver:
  assumes "waits_on step ch s"
  shows "if result_step env rec = Some step
    then answered step ch (pending_result_of (result_json env rec)) (snd (deliver_result env rec s))
    else waits_on step ch (snd (deliver_result env rec s))"
proof (cases "result_step env rec")
  case None
  with assms show ?thesis by (simp add: deliver_result_def)
next
  case (Some sid)
  show ?thesis
  proof (cases "sid = step")
    case True
    have "map_of (bk_sent s) ch = None" "map_of (bk_pending s) step = Some ch"
      using assms by (simp_all add: waits_on_def map_of_eq_None_iff)
    with True Some show ?thesis
      by (simp add: deliver_result_def answered_def close_step_def hash_lookup_delete map_add_def)
  next
    case False
    have tx: "tx \<noteq> ch" if "map_of (bk_pending s) sid = Some tx" for tx
      using map_of_SomeD [OF that] assms False by (auto simp: waits_on_def list_all_iff)
    show ?thesis
      using waits_on_close [OF assms False] tx Some False
      by (auto simp: deliver_result_def waits_on_def Let_def close_step_def split: option.split)
  qed
qed

lemma waits_on_event:
  assumes "bank_ok s" "waits_on step ch s" "\<not> reuses_step step e"
  shows "case result_for env step e of
      None \<Rightarrow> waits_on step ch (bank_event_step env e s)
    | Some pr \<Rightarrow> answered step ch pr (bank_event_step env e s)"
proof (cases e)
  case (OtherOpens sb tool args ctx)
  with assms waits_on_open show ?thesis by (simp add: result_for_def)
next
  case (OtherEmits ns t et p)
  with assms(2) emit_task_end_fields [OF prod.collapse [symmetric], of env ns t et p s] show ?thesis
    by (auto simp: result_for_def waits_on_def)
next
  case (ResultArrives rec)
  with waits_on_deliver [OF assms(2), of env rec] show ?thesis by (auto simp: result_for_def)
next
  case (OtherGivesUp sid)
  with assms waits_on_close show ?thesis by (simp add: result_for_def)
qed (use assms(2) in \<open>simp_all add: result_for_def waits_on_def\<close>)

lemma answered_event:
  assumes "answered step ch pr s" "\<not> reuses_step step e"
  shows "answered step ch pr (bank_event_step env e s)"
proof (cases e)
  case (OtherOpens sb tool args ctx)
  obtain r s' where e: "sandbox_open env sb tool args ctx s = (r, s')" by fastforce
  with OtherOpens assms sandbox_open_fields(1-3) [OF e] show ?thesis
    by (cases r) (simp_all add: answered_def hash_lookup_update hash_lookup_delete)
next
  case (ResultArrives rec)
  with assms(1) show ?thesis
    by (auto simp: answered_def deliver_result_def close_step_def hash_lookup_delete Let_def map_add_Some_iff
        split: option.split)
qed (use assms in \<open>simp_all add: answered_def close_step_def hash_lookup_delete\<close>)

lemma answered_events:
  "answered step ch pr s \<Longrightarrow> list_all (\<lambda>e. \<not> reuses_step step e) es \<Longrightarrow>
     answered step ch pr (run_events env es s)"
  unfolding run_events_def by (induction es arbitrary: s) (simp_all add: answered_event)

lemma waits_on_events:
  "bank_ok s \<Longrightarrow> waits_on step ch s \<Longrightarrow> list_all (\<lambda>e. \<not> reuses_step step e) es \<Longrightarrow>
     case first_result env step es of
       None \<Rightarrow> waits_on step ch (run_events env es s)
     | Some pr \<Rightarrow> answered step ch pr (run_events env es s)"
proof (induction es arbitrary: s)
  case Nil
  then show ?case by (simp add: first_result_def run_events_def map_filter_simps)
next
  case (Cons e es)
  have run: "run_events env (e # es) s = run_events env es (bank_event_step env e s)"
    by (simp add: run_events_def)
  from Cons.prems have e: "\<not> reuses_step step e" "list_all (\<lambda>e. \<not> reuses_step step e) es" by auto
  note w = waits_on_event [OF Cons.prems(1,2) e(1), of env]
  show ?case
  proof (cases "result_for env step e")
    case None
    with w have "waits_on step ch (bank_event_step env e s)" by simp
    from Cons.IH [OF bank_ok_event [OF Cons.prems(1)] this e(2)] None show ?thesis
      by (simp only: run first_result_def map_filter_simps option.case)
  next
    case (Some pr)
    with w answered_events [OF _ e(2)] show ?thesis
      by (simp add: run first_result_def map_filter_simps split: list.split)
  qed
qed

text \<open>What a call on the sandbox answers: the refusal of the broker, the first result, or the time-out.\<close>

definition opening_error ::
  "bank_env \<Rightarrow> sandbox_adapter \<Rightarrow> string \<Rightarrow> json \<Rightarrow> call_ctx \<Rightarrow> bank \<Rightarrow> string option" where
  "opening_error env sb tool args ctx s =
     (case fst (sandbox_open env sb tool args ctx s) of Inl e \<Rightarrow> Some e | Inr _ \<Rightarrow> None)"

definition sandbox_answer ::
  "bank_env \<Rightarrow> sandbox_adapter \<Rightarrow> string \<Rightarrow> json \<Rightarrow> call_ctx \<Rightarrow> bank \<Rightarrow> string + tool_result" where
  "sandbox_answer env sb tool args ctx s =
     (let timeout = default_timeout tool (sandbox_specs sb) in
      case opening_error env sb tool args ctx s of
        Some e \<Rightarrow> Inl e
      | None \<Rightarrow>
          (case first_result env (cx_step_id ctx) (be_meanwhile env (bk_next_channel s) timeout) of
             Some pr \<Rightarrow> Inr pr
           | None \<Rightarrow> Inl (''sandbox timeout after '' @ show_nat timeout @ ''s'')))"

lemma waits_on_opened:
  assumes "bank_ok s" "sandbox_open env sb tool args ctx s = (Inr ch, s')"
  shows "waits_on (cx_step_id ctx) ch s'" "bank_ok s'"
proof -
  note f = sandbox_open_fields [OF assms(2)]
  have "set (bk_pending s') \<subseteq> insert (cx_step_id ctx, bk_next_channel s) (set (bk_pending s))"
    using set_alist_update [of "cx_step_id ctx" "bk_next_channel s" "bk_pending s"] by (simp add: f)
  then have "(k, c) \<in> set (bk_pending s') \<Longrightarrow> k = cx_step_id ctx \<or> c < bk_next_channel s" for k c
    using assms(1) by (fastforce simp: bank_ok_def)
  moreover have "c \<in> fst ` set (bk_sent s) \<Longrightarrow> c < bk_next_channel s" for c
    using assms(1) by (auto simp: bank_ok_def)
  moreover have "map_of (bk_pending s') (cx_step_id ctx) = Some ch"
    by (simp add: f(3) hash_lookup_update f(4) [OF refl])
  ultimately show "waits_on (cx_step_id ctx) ch s'"
    by (fastforce simp: waits_on_def f(1) f(4) [OF refl] list_all_iff)
  show "bank_ok s'" using bank_ok_open [OF assms(1), of env sb tool args ctx] assms(2) by simp
qed

lemma sandbox_wait_spec:
  assumes "bank_ok s" "waits_on step ch s" "list_all (\<lambda>e. \<not> reuses_step step e) (be_meanwhile env ch timeout)"
  shows "fst (sandbox_wait env step timeout ch s) =
      (case first_result env step (be_meanwhile env ch timeout) of
         Some pr \<Rightarrow> Inr pr | None \<Rightarrow> Inl (''sandbox timeout after '' @ show_nat timeout @ ''s''))"
    and "map_of (bk_pending (snd (sandbox_wait env step timeout ch s))) step = None"
    and "bank_ok (snd (sandbox_wait env step timeout ch s))"
proof -
  let ?es = "be_meanwhile env ch timeout"
  let ?s = "run_events env ?es s"
  note ok = bank_ok_events [OF assms(1), of env ?es]
  note w = waits_on_events [OF assms, of env]
  have "fst (sandbox_wait env step timeout ch s) =
      (case first_result env step ?es of
         Some pr \<Rightarrow> Inr pr | None \<Rightarrow> Inl (''sandbox timeout after '' @ show_nat timeout @ ''s'')) \<and>
      map_of (bk_pending (snd (sandbox_wait env step timeout ch s))) step = None"
  proof (cases "first_result env step ?es")
    case None
    with w have wt: "map_of (bk_pending ?s) step = Some ch" "map_of (bk_sent ?s) ch = None"
      by (simp_all add: waits_on_def map_of_eq_None_iff)
    then have "ch \<in> snd ` set (bk_pending ?s)" by (force dest: map_of_SomeD)
    with None wt show ?thesis by (simp add: sandbox_wait_def Let_def close_step_def hash_lookup_delete)
  next
    case (Some pr)
    with w show ?thesis by (simp add: sandbox_wait_def answered_def Let_def)
  qed
  then show "fst (sandbox_wait env step timeout ch s) =
      (case first_result env step ?es of
         Some pr \<Rightarrow> Inr pr | None \<Rightarrow> Inl (''sandbox timeout after '' @ show_nat timeout @ ''s''))"
    and "map_of (bk_pending (snd (sandbox_wait env step timeout ch s))) step = None"
    by simp_all
  show "bank_ok (snd (sandbox_wait env step timeout ch s))"
    using ok bank_ok_close [OF ok] by (simp add: sandbox_wait_def Let_def split: option.split)
qed

text \<open>
  C25. Whatever results and other calls come in while it waits, a call on the sandbox is answered by the
  first result that names its step, or by the time-out when none does, never by another call's result
  and never by a closed channel; and it leaves no entry behind in the table of waiting calls. Other
  calls do not reuse the step's fresh id.
\<close>

theorem sandbox_call_answered_by_own_result:
  assumes "bank_ok s"
    "list_all (\<lambda>e. \<not> reuses_step (cx_step_id ctx) e)
       (be_meanwhile env (bk_next_channel s) (default_timeout tool (sandbox_specs sb)))"
  shows "case sandbox_invoke env sb tool args ctx s of
      (answer, s') \<Rightarrow> answer = sandbox_answer env sb tool args ctx s \<and>
        map_of (bk_pending s') (cx_step_id ctx) = None \<and> bank_ok s'"
proof (cases "sandbox_open env sb tool args ctx s")
  case (Pair r s')
  show ?thesis
  proof (cases r)
    case (Inl e)
    with Pair sandbox_open_fields(3) [OF Pair] bank_ok_open [OF assms(1), of env sb tool args ctx] show ?thesis
      by (simp add: sandbox_invoke_def andThen_apply sandbox_answer_def opening_error_def hash_lookup_delete Let_def)
  next
    case (Inr ch)
    then have o: "sandbox_open env sb tool args ctx s = (Inr ch, s')" using Pair by simp
    have ch: "ch = bk_next_channel s" by (rule sandbox_open_fields(4) [OF o refl])
    note w = waits_on_opened [OF assms(1) o]
    from sandbox_wait_spec [OF w(2,1), of env "default_timeout tool (sandbox_specs sb)"] assms(2)
    show ?thesis
      by (simp add: sandbox_invoke_def andThen_apply sandbox_answer_def opening_error_def o ch Let_def
          split_beta)
  qed
qed

section \<open>Step events\<close>

definition step_of :: "json \<Rightarrow> string option" where
  "step_of j = Option.bind (jget ''step_id'' j) as_str"

definition request_step :: "bank_env \<Rightarrow> produce_request \<Rightarrow> string option" where
  "request_step env q = Option.bind (be_parse env (pq_content q)) step_of"

definition is_step_event :: "bank_env \<Rightarrow> string \<Rightarrow> produce_request \<Rightarrow> bool" where
  "is_step_event env step q \<longleftrightarrow> pq_stream q = ''task-end'' \<and> request_step env q = Some step"

definition step_events :: "bank_env \<Rightarrow> string \<Rightarrow> bank \<Rightarrow> produce_request list" where
  "step_events env step s = filter (is_step_event env step) (bk_produced s)"

text \<open>No other call emits events under the step's id.\<close>

fun emits_for :: "bank_env \<Rightarrow> string \<Rightarrow> bank_event \<Rightarrow> bool" where
  "emits_for env step (OtherEmits ns t et p) \<longleftrightarrow> Option.bind (be_parse env (be_print env p)) step_of = Some step"
| "emits_for env step _ \<longleftrightarrow> False"

definition quiet :: "bank_env \<Rightarrow> string \<Rightarrow> bool" where
  "quiet env step \<longleftrightarrow> (\<forall>ch t. list_all (\<lambda>e. \<not> emits_for env step e) (be_meanwhile env ch t))"

lemma step_events_same: "bk_produced s' = bk_produced s \<Longrightarrow> step_events env step s' = step_events env step s"
  by (simp add: step_events_def)

lemma step_events_produce:
  "step_events env step (snd (produce_full env q s)) =
     step_events env step s @
     (if be_broker env (bk_ticks s) q = None \<and> is_step_event env step q then [q] else [])"
  by (simp add: produce_full_def step_events_def Let_def split: option.split)

lemma produced_close [simp]: "bk_produced (close_step step s) = bk_produced s"
  by (simp add: close_step_def)

lemma produced_deliver [simp]: "bk_produced (snd (deliver_result env rec s)) = bk_produced s"
  by (simp add: deliver_result_def Let_def split: option.split)

lemma produced_seq [simp]: "bk_produced (snd (next_local_seq s)) = bk_produced s"
  by (simp add: next_local_seq_def)

lemma step_events_open: "step_events env step (snd (sandbox_open env sb tool args ctx s)) = step_events env step s"
proof -
  let ?s = "s\<lparr>bk_ticks := bk_ticks s + 1, bk_next_channel := bk_next_channel s + 1,
    bk_pending := AList.update (cx_step_id ctx) (bk_next_channel s) (bk_pending s)\<rparr>"
  let ?q = "bank_request env (sb_namespace sb) (''tool-invoke-'' @ sb_region sb) ''tool_invoked''
    (sandbox_payload (cx_task_id ctx) tool (be_uuid env (bk_ticks s)) args (cx_idempotency_key ctx)
       (default_timeout tool (sandbox_specs sb))) (cx_task_id ctx)
    (build_invoke_meta (be_print env) (cx_task_id ctx) (cx_step_id ctx) (cx_effective_policy ctx))"
  obtain r s' where p: "produce_full env ?q ?s = (r, s')" by fastforce
  have "\<not> is_step_event env step ?q" by (simp add: is_step_event_def bank_request_def)
  with step_events_produce [of env step ?q ?s] p have "step_events env step s' = step_events env step ?s" by simp
  also have "\<dots> = step_events env step s" by (rule step_events_same) simp
  moreover have "bk_produced (snd (sandbox_open env sb tool args ctx s)) = bk_produced s'"
    using p by (simp add: sandbox_open_def andThen_apply ask_def Let_def split: sum.split)
  ultimately show ?thesis by (simp add: step_events_def)
qed

lemma step_events_emit:
  assumes "emit_task_end env ns t et p s = (r, s')"
  shows "step_events env step s' =
     step_events env step s @
     (if r = Inr True \<and> Option.bind (be_parse env (be_print env p)) step_of = Some step
      then [bank_request env ns ''task-end'' et p t [(''task_id'', t), (''event_type'', et)]] else [])"
  using assms
  by (auto simp: emit_task_end_def produce_full_def Let_def step_events_def is_step_event_def request_step_def
      bank_request_def split: option.splits)

lemma step_events_event:
  "\<not> emits_for env step e \<Longrightarrow> step_events env step (bank_event_step env e s) = step_events env step s"
  by (cases e)
    (simp_all add: step_events_open step_events_emit [OF surjective_pairing], simp_all add: step_events_def)

lemma step_events_events:
  "list_all (\<lambda>e. \<not> emits_for env step e) es \<Longrightarrow>
     step_events env step (run_events env es s) = step_events env step s"
  unfolding run_events_def by (induction es arbitrary: s) (simp_all add: step_events_event)

section \<open>Adapters\<close>

lemma snd_invoke_tool:
  "find_adapter r tool = Some a \<Longrightarrow> snd (invoke_tool r tool args ctx s) = snd (aa_invoke a tool args ctx s)"
  by (cases "aa_invoke a tool args ctx s", cases "fst (aa_invoke a tool args ctx s)")
    (simp_all add: invoke_tool_def)

text \<open>
  What the server relies on in an adapter: it keeps the table of channels well-formed and produces no
  step event of its own for the call.
\<close>

locale bank_adapter =
  fixes mk :: "bank_env \<Rightarrow> 'cfg \<Rightarrow> bank action_adapter"
  assumes silent: "quiet env step \<Longrightarrow>
      step_events env step (snd (aa_invoke (mk env cfg) tool args ctx s)) = step_events env step s"
    and keeps_ok: "bank_ok s \<Longrightarrow> bank_ok (snd (aa_invoke (mk env cfg) tool args ctx s))"
begin

lemma invoke_silent:
  assumes "find_adapter r tool = Some (mk env cfg)" "quiet env step"
  shows "step_events env step (snd (invoke_tool r tool args ctx s)) = step_events env step s"
  unfolding snd_invoke_tool [OF assms(1)] by (rule silent [OF assms(2)])

lemma invoke_keeps_ok:
  assumes "find_adapter r tool = Some (mk env cfg)" "bank_ok s"
  shows "bank_ok (snd (invoke_tool r tool args ctx s))"
  unfolding snd_invoke_tool [OF assms(1)] by (rule keeps_ok [OF assms(2)])

end

lemma snd_wait_produced:
  "bk_produced (snd (sandbox_wait env step timeout ch s)) =
     bk_produced (run_events env (be_meanwhile env ch timeout) s)"
  by (simp add: sandbox_wait_def Let_def split: option.split)

lemma sandbox_invoke_cases:
  obtains (refused) "snd (sandbox_invoke env sb tool args ctx s) = snd (sandbox_open env sb tool args ctx s)"
  | (waited) ch where "snd (sandbox_invoke env sb tool args ctx s) =
      snd (sandbox_wait env (cx_step_id ctx) (default_timeout tool (sandbox_specs sb)) ch
             (snd (sandbox_open env sb tool args ctx s)))"
  by (cases "sandbox_open env sb tool args ctx s", cases "fst (sandbox_open env sb tool args ctx s)")
    (auto simp: sandbox_invoke_def andThen_apply)

interpretation sandbox: bank_adapter sandbox_as_adapter
proof
  fix env step cfg tool args ctx s
  show "step_events env step (snd (aa_invoke (sandbox_as_adapter env cfg) tool args ctx s)) = step_events env step s"
    if q: "quiet env step"
  proof (cases rule: sandbox_invoke_cases [of env cfg tool args ctx s])
    case refused
    then show ?thesis by (simp add: sandbox_as_adapter_def step_events_open)
  next
    case (waited ch)
    have "step_events env step (snd (sandbox_invoke env cfg tool args ctx s)) =
        step_events env step (snd (sandbox_open env cfg tool args ctx s))"
      unfolding waited step_events_def snd_wait_produced
      using step_events_events q unfolding step_events_def quiet_def by blast
    then show ?thesis by (simp add: sandbox_as_adapter_def step_events_open)
  qed
  show "bank_ok (snd (aa_invoke (sandbox_as_adapter env cfg) tool args ctx s))" if "bank_ok s"
  proof (cases rule: sandbox_invoke_cases [of env cfg tool args ctx s])
    case refused
    with that show ?thesis by (simp add: sandbox_as_adapter_def bank_ok_open)
  next
    case (waited ch)
    have "bank_ok (run_events env es (snd (sandbox_open env cfg tool args ctx s)))" for es
      by (rule bank_ok_events [OF bank_ok_open [OF that]])
    then show ?thesis
      by (simp add: sandbox_as_adapter_def waited sandbox_wait_def Let_def bank_ok_close split: option.split)
  qed
qed

interpretation http: bank_adapter http_as_adapter
  by unfold_locales
    (simp_all add: http_as_adapter_def http_invoke_def andThen_apply ask_def Let_def step_events_def bank_ok_def
      split: http_reply.split)

section \<open>The registry of a started server\<close>

lemma build_registry_eq:
  "build_registry env sb http_env =
     register_all (sandbox_as_adapter env sb #
       map (http_as_adapter env) (filter (be_client env) (parse_http_adapters http_env)))"
proof -
  have "foldl (\<lambda>r cfg. if be_client env cfg then snd (register_adapter (http_as_adapter env cfg) r) else r) r cfgs =
      foldl (\<lambda>r a. snd (register_adapter a r)) r (map (http_as_adapter env) (filter (be_client env) cfgs))"
    for r cfgs
    by (induction cfgs arbitrary: r) simp_all
  then show ?thesis by (simp add: build_registry_def register_all_def)
qed

lemma built_adapter:
  assumes "find_adapter (build_registry env sb http_env) tool = Some a"
  shows "a = sandbox_as_adapter env sb \<or> a \<in> range (http_as_adapter env)"
  using found_adapter_in [OF assms [unfolded build_registry_eq]] by auto

text \<open>
  However the external adapters are declared, every tool of the sandbox, built in or extra, is run
  by the sandbox: no declaration takes one over.
\<close>

theorem sandbox_keeps_its_tools:
  "ts_name ` set (sandbox_specs sb) \<subseteq>
     {tool. find_adapter (build_registry env sb http_env) tool = Some (sandbox_as_adapter env sb)}"
proof -
  have "adapter_names (sandbox_as_adapter env sb) = ts_name ` set (sandbox_specs sb)"
    by (simp add: adapter_names_def sandbox_as_adapter_def sandbox_tools_def sandbox_specs_def tool_def_of_def
        image_image image_Un)
  then show ?thesis using first_adapter_owns by (auto simp: build_registry_eq)
qed

lemma built_invoke_silent:
  assumes "quiet env step"
  shows "step_events env step (snd (invoke_tool (build_registry env sb http_env) tool args ctx s)) =
    step_events env step s"
proof (cases "find_adapter (build_registry env sb http_env) tool")
  case None
  then show ?thesis by (simp add: invoke_tool_def)
next
  case (Some a)
  with built_adapter [OF Some] sandbox.invoke_silent [OF _ assms] http.invoke_silent [OF _ assms]
  show ?thesis by (metis rangeE)
qed

section \<open>Every call is answered and reported once\<close>

definition step_readable :: "bank_env \<Rightarrow> bool" where
  "step_readable env \<longleftrightarrow> (\<forall>j. Option.bind (be_parse env (be_print env j)) step_of = step_of j)"

lemma step_of_payloads [simp]:
  "step_of (tool_invoked_payload t tn step tool call key input n) = Some step"
  "step_of (tool_completed_payload t tn step call out e n) = Some step"
  "step_of (tool_failed_payload t tn step call et em n) = Some step"
  by (cases tn; simp add: step_of_def tool_invoked_payload_def tool_completed_payload_def
      tool_failed_payload_def with_turn_def)+

lemma emit_task_end_ok: "\<exists>b s'. emit_task_end env ns t et p s = (Inr b, s')"
  by (auto simp: emit_task_end_def split: prod.split sum.split)

lemma step_events_seq [simp]: "step_events env step (snd (next_local_seq s)) = step_events env step s"
  by (simp add: step_events_def)

lemma emit_task_end_accepted:
  "be_broker env = (\<lambda>_ _. None) \<Longrightarrow> emit_task_end env ns t et p s = (r, s') \<Longrightarrow> r = Inr True"
  by (auto simp: emit_task_end_def produce_full_def Let_def)

text \<open>The closing event, when the opening one was produced: there or lost, and nothing else.\<close>

lemma emit_closing_events:
  assumes "emit_closing env ns t opening_ok et payload s = (r :: 'e + unit, s')" "step_readable env"
    "\<And>n. step_of (payload n) = Some step"
  obtains (there) q where "r = Inr ()" "opening_ok" "step_events env step s' = step_events env step s @ [q]"
      "pq_event_type q = et"
  | (lost) "r = Inr ()" "step_events env step s' = step_events env step s"
      "opening_ok \<Longrightarrow> be_broker env \<noteq> (\<lambda>_ _. None)"
proof (cases opening_ok)
  case True
  obtain n s1 where s1: "next_local_seq s = (Inr n :: 'e + int, s1)" by (simp add: next_local_seq_def)
  have e1: "step_events env step s1 = step_events env step s"
    using s1 by (auto simp: next_local_seq_def step_events_def)
  obtain b s2 where s2: "emit_task_end env ns t et (payload n) s1 = (Inr b :: 'e + bool, s2)"
    using emit_task_end_ok by blast
  from True assms(1) s1 s2 have r: "r = Inr ()" "s' = s2" by (simp_all add: emit_closing_def andThen_apply)
  have readable: "Option.bind (be_parse env (be_print env (payload n))) step_of = Some step"
    using assms(2,3) by (simp add: step_readable_def)
  show thesis
  proof (cases b)
    case True
    with r step_events_emit [OF s2, of step] readable e1 \<open>opening_ok\<close> show thesis
      by (intro there) (auto simp: bank_request_def)
  next
    case False
    with r step_events_emit [OF s2, of step] e1 emit_task_end_accepted [OF _ s2] show thesis
      by (intro lost) auto
  qed
next
  case False
  with assms(1) show thesis by (intro lost) (simp_all add: emit_closing_def)
qed

text \<open>The answer to a call and the type of the event that closes it.\<close>

definition answer_to :: "bank_env \<Rightarrow> string \<Rightarrow> int option \<Rightarrow> invoke_error + tool_result \<Rightarrow> mcp_response" where
  "answer_to env tool rid outcome =
     (case outcome of
        Inr r \<Rightarrow> call_response env rid r
      | Inl NotFound \<Rightarrow> mcp_err rid (- 32602) (''unknown tool: '' @ tool)
      | Inl (AdapterFailed msg) \<Rightarrow> mcp_err rid (- 32603) msg)"

definition closing_type :: "mcp_response \<Rightarrow> string" where
  "closing_type resp = (if mr_error resp = None then ''tool_completed'' else ''tool_failed'')"

definition closing_payload ::
  "string \<Rightarrow> int option \<Rightarrow> string \<Rightarrow> string \<Rightarrow> invoke_error + tool_result \<Rightarrow> int \<Rightarrow> json" where
  "closing_payload task_id turn_id step tool outcome =
     (case outcome of
        Inr r \<Rightarrow> tool_completed_payload task_id turn_id step step (rs_output r) (\<not> rs_success r)
      | Inl NotFound \<Rightarrow> tool_failed_payload task_id turn_id step step ''NotFound'' (''unknown tool: '' @ tool)
      | Inl (AdapterFailed msg) \<Rightarrow> tool_failed_payload task_id turn_id step step ''Adapter'' msg)"

lemma closing_payload_step: "step_of (closing_payload task_id turn_id step tool outcome n) = Some step"
  by (simp add: closing_payload_def split: sum.split invoke_error.split)

text \<open>The three ends of a call are one: the closing event, then the answer.\<close>

lemma close_and_answer:
  "(case outcome of
      Inr r \<Rightarrow>
        andThen (emit_closing env ns task_id b ''tool_completed''
          (tool_completed_payload task_id turn_id step step (rs_output r) (\<not> rs_success r))) (\<lambda>_.
        ok (call_response env rid r))
    | Inl NotFound \<Rightarrow>
        andThen (emit_closing env ns task_id b ''tool_failed''
          (tool_failed_payload task_id turn_id step step ''NotFound'' (''unknown tool: '' @ tool))) (\<lambda>_.
        ok (mcp_err rid (- 32602) (''unknown tool: '' @ tool)))
    | Inl (AdapterFailed msg) \<Rightarrow>
        andThen (emit_closing env ns task_id b ''tool_failed''
          (tool_failed_payload task_id turn_id step step ''Adapter'' msg)) (\<lambda>_.
        ok (mcp_err rid (- 32603) msg))) =
   andThen (emit_closing env ns task_id b (closing_type (answer_to env tool rid outcome))
     (closing_payload task_id turn_id step tool outcome)) (\<lambda>_. ok (answer_to env tool rid outcome))"
  by (simp add: closing_payload_def closing_type_def answer_to_def call_response_def mcp_ok_def mcp_err_def
      split: sum.split invoke_error.split)

lemma answer_to_fields:
  "mr_id (answer_to env tool rid outcome) = rid"
  "mr_result (answer_to env tool rid outcome) = None \<longleftrightarrow> mr_error (answer_to env tool rid outcome) \<noteq> None"
  by (simp_all add: answer_to_def call_response_def mcp_ok_def mcp_err_def split: sum.split invoke_error.split)

text \<open>
  C12. A call is always answered, under the request's id, with a result or an error and not both. It is
  reported under its own fresh step by an opening and a closing event at most: no closing event without
  an opening one, no second closing event, \<open>tool_completed\<close> exactly when the answer is a result, and both
  events when the broker accepts them. Calls made meanwhile do not report under the step.
\<close>

theorem tools_call_answered_and_reported_once:
  assumes "ap_registry app = build_registry env sb http_env"
    "step_readable env" "quiet env (be_uuid env (bk_ticks s))" "step_events env (be_uuid env (bk_ticks s)) s = []"
  shows "case tools_call env app task_id turn_id tool args policy rid s of (answer, s') \<Rightarrow>
     let events = map pq_event_type (step_events env (be_uuid env (bk_ticks s)) s') in
     \<exists>resp. answer = Inr resp \<and> mr_id resp = rid \<and> (mr_result resp = None \<longleftrightarrow> mr_error resp \<noteq> None) \<and>
       events \<in> {[], [''tool_invoked''], [''tool_invoked'', closing_type resp]} \<and>
       (be_broker env = (\<lambda>_ _. None) \<longrightarrow> events = [''tool_invoked'', closing_type resp])"
proof -
  let ?step = "be_uuid env (bk_ticks s)" and ?ns = "ap_lifecycle_namespace app"
  let ?key = "build_key (be_print env) (be_digest env) task_id tool args"
  let ?ctx = "\<lparr>cx_task_id = task_id, cx_idempotency_key = ?key, cx_effective_policy = policy,
    cx_step_id = ?step, cx_turn_id = turn_id\<rparr>"
  obtain s1 where s1: "ask (be_uuid env) s = (Inr ?step :: invoke_error + string, s1)" "step_events env ?step s1 = []"
    using assms(4) by (simp add: ask_def step_events_def)
  obtain n s2 where s2: "next_local_seq s1 = (Inr n :: invoke_error + int, s2)" "step_events env ?step s2 = []"
    using s1(2) by (simp add: next_local_seq_def step_events_def)
  let ?p = "tool_invoked_payload task_id turn_id ?step tool ?step ?key args n"
  obtain b s3 where s3: "emit_task_end env ?ns task_id ''tool_invoked'' ?p s2 = (Inr b :: invoke_error + bool, s3)"
    using emit_task_end_ok by blast
  have readable: "Option.bind (be_parse env (be_print env ?p)) step_of = Some ?step"
    using assms(2) by (simp add: step_readable_def)
  have opened: "map pq_event_type (step_events env ?step s3) = (if b then [''tool_invoked''] else [])"
    using step_events_emit [OF s3, of ?step] s2(2) readable by (simp add: bank_request_def)
  obtain outcome s4 where s4: "invoke_tool (ap_registry app) tool args ?ctx s3 = (outcome, s4)" by fastforce
  have silent: "step_events env ?step s4 = step_events env ?step s3"
    using built_invoke_silent [OF assms(3), of sb http_env tool args ?ctx s3] s4 assms(1) by simp
  let ?resp = "answer_to env tool rid outcome"
  obtain r5 s5 where s5: "emit_closing env ?ns task_id b (closing_type ?resp)
      (closing_payload task_id turn_id ?step tool outcome) s4 = (r5 :: invoke_error + unit, s5)" by fastforce
  have run: "tools_call env app task_id turn_id tool args policy rid s = (Inr ?resp, s5)" if "r5 = Inr ()"
    using that s5 unfolding tools_call_def Let_def close_and_answer
    by (simp add: andThen_apply attempt_apply s1 s2 s3 s4)
  have accepted: "be_broker env = (\<lambda>_ _. None) \<Longrightarrow> b" using emit_task_end_accepted [OF _ s3] by simp
  from s5 assms(2) closing_payload_step show ?thesis
  proof (cases rule: emit_closing_events)
    case (there q)
    with opened silent answer_to_fields show ?thesis by (simp add: run)
  next
    case lost
    with opened silent answer_to_fields accepted show ?thesis by (auto simp: run)
  qed
qed

definition sample_bank_env :: bank_env where
  "sample_bank_env =
     \<lparr>be_print = (\<lambda>j. case step_of j of Some x \<Rightarrow> CHR ''1'' # x | None \<Rightarrow> []),
      be_parse = (\<lambda>s. case s of [] \<Rightarrow> None | c # x \<Rightarrow> Some (JObj [(''step_id'', JStr x)])),
      be_digest = (\<lambda>_. replicate 64 CHR ''0''), be_uuid = show_nat, be_instant = int,
      be_broker = (\<lambda>_ _. None), be_http = (\<lambda>_ _. HttpResponse 200 None), be_client = (\<lambda>_. True),
      be_meanwhile = (\<lambda>_ _.
        [OtherTakesSeq, OtherGivesUp ''other'',
         ResultArrives \<lparr>gr_shard = 0, gr_seq = 1, gr_event_type = ''tool_result'', gr_content = ''1s''\<rparr>])\<rparr>"

definition sample_app :: app_state where
  "sample_app = start_bank sample_bank_env (\<lambda>_. Inr []) None ''ns'' ''eu'' ''slack|http://h|post''"

lemma sample_app_registry:
  "ap_registry sample_app = build_registry sample_bank_env
     \<lparr>sb_namespace = ''ns'', sb_region = ''eu'', sb_extras = load_extras (\<lambda>_. Inr []) None\<rparr> ''slack|http://h|post''"
  by (simp add: sample_app_def start_bank_def)

lemma sandbox_call_answered_by_own_result_witness:
  "map_of (bk_pending (snd (sandbox_invoke sample_bank_env \<lparr>sb_namespace = ''ns'', sb_region = ''eu'', sb_extras = []\<rparr>
      ''fixus_jq'' JNull
      \<lparr>cx_task_id = ''t'', cx_idempotency_key = ''k'', cx_effective_policy = None, cx_step_id = ''s'', cx_turn_id = None\<rparr>
      bank_new))) ''s'' = None"
  using sandbox_call_answered_by_own_result [of bank_new
      "\<lparr>cx_task_id = ''t'', cx_idempotency_key = ''k'', cx_effective_policy = None, cx_step_id = ''s'', cx_turn_id = None\<rparr>"
      sample_bank_env "''fixus_jq''" "\<lparr>sb_namespace = ''ns'', sb_region = ''eu'', sb_extras = []\<rparr>" JNull]
  by (simp add: bank_ok_def bank_new_def sample_bank_env_def split: prod.splits)

lemma tools_call_answered_and_reported_once_witness:
  "\<exists>resp s'. tools_call sample_bank_env sample_app ''t'' (Some 1) ''post'' JNull None (Some 7) bank_new = (Inr resp, s') \<and>
     map pq_event_type (step_events sample_bank_env (be_uuid sample_bank_env (bk_ticks bank_new)) s') =
       [''tool_invoked'', closing_type resp]"
proof -
  have readable: "step_readable sample_bank_env"
    by (auto simp: step_readable_def sample_bank_env_def step_of_def split: option.split)
  have quiet: "quiet sample_bank_env x" for x
    by (simp add: quiet_def sample_bank_env_def)
  have fresh: "step_events sample_bank_env x bank_new = []" for x
    by (simp add: step_events_def bank_new_def)
  have broker: "be_broker sample_bank_env = (\<lambda>_ _. None)" by (simp add: sample_bank_env_def)
  show ?thesis
    using tools_call_answered_and_reported_once [where s = bank_new and task_id = "''t''" and turn_id = "Some 1"
        and tool = "''post''" and args = JNull and policy = None and rid = "Some 7",
        OF sample_app_registry readable quiet fresh] broker
    by (auto simp: Let_def split: prod.splits)
qed

section \<open>The events reach the orchestrator\<close>

text \<open>What one step event reports, the payload that carries it and the handler it is for.\<close>

datatype tool_report =
    ReportInvoked string string string json      \<comment> \<open>tool, call, key, input\<close>
  | ReportCompleted string json bool      \<comment> \<open>call, output, is it an error\<close>
  | ReportFailed string string string      \<comment> \<open>call, error type, message\<close>

fun report_type :: "tool_report \<Rightarrow> string" where
  "report_type (ReportInvoked _ _ _ _) = ''tool_invoked''"
| "report_type (ReportCompleted _ _ _) = ''tool_completed''"
| "report_type (ReportFailed _ _ _) = ''tool_failed''"

fun report_payload :: "string \<Rightarrow> int option \<Rightarrow> string \<Rightarrow> int \<Rightarrow> tool_report \<Rightarrow> json" where
  "report_payload tid tn step n (ReportInvoked tool call key input) =
     tool_invoked_payload tid tn step tool call key input n"
| "report_payload tid tn step n (ReportCompleted call out e) = tool_completed_payload tid tn step call out e n"
| "report_payload tid tn step n (ReportFailed call et em) = tool_failed_payload tid tn step call et em n"

fun report_handler ::
  "'s orch_env \<Rightarrow> string \<Rightarrow> int option \<Rightarrow> string \<Rightarrow> int \<Rightarrow> tool_report \<Rightarrow> ('s, unit) oop" where
  "report_handler env tid tn step n (ReportInvoked tool call key input) =
     handle_tool_invoked env tid tn step tool call key input n"
| "report_handler env tid tn step n (ReportCompleted call out e) = handle_tool_completed env tid tn step call out e n"
| "report_handler env tid tn step n (ReportFailed call et em) = handle_tool_failed env tid tn step call et em n"

text \<open>
  C26. Across the two programs: a record that carries a step event of the tools bank, read by the
  orchestrator's consumer, is the call of the handler for that event with exactly the values the tools
  bank put in, and is committed, whatever handler and state. The JSON text reads back as a value with the
  same members.
\<close>

theorem tool_events_reach_handlers:
  assumes "tid \<noteq> []" "step \<noteq> []" "in_i64 n" "pred_option in_i64 tn"
    "from_slice (oe_codec env) content = Some j"
    "\<And>k. jget k j = jget k (report_payload tid tn step n report)"
  shows "lifecycle_record env
      \<lparr>gr_shard = shard, gr_seq = q, gr_event_type = report_type report, gr_content = content\<rparr> =
    andThen (discard (report_handler env tid tn step n report)) (\<lambda>_. ok True)"
  using assms
  by (cases report; cases tn)
    (simp_all add: lifecycle_record_def when_usable_def str_field_def i64_field_def jindex_def Let_def
      tool_invoked_payload_def tool_completed_payload_def tool_failed_payload_def with_turn_def)

lemma tool_events_reach_handlers_witness:
  "(\<lambda>env :: unit orch_env. lifecycle_record
       (env\<lparr>oe_codec := sample_codec (report_payload ''t'' (Some 2) ''s'' 1 (ReportCompleted ''s'' JNull True))\<rparr>)
       \<lparr>gr_shard = 0, gr_seq = 5, gr_event_type = ''tool_completed'', gr_content = []\<rparr>) =
   (\<lambda>env. andThen (discard (handle_tool_completed
       (env\<lparr>oe_codec := sample_codec (report_payload ''t'' (Some 2) ''s'' 1 (ReportCompleted ''s'' JNull True))\<rparr>)
       ''t'' (Some 2) ''s'' ''s'' JNull True 1)) (\<lambda>_. ok True))"
proof
  fix env :: "unit orch_env"
  let ?r = "ReportCompleted ''s'' JNull True"
  let ?env = "env\<lparr>oe_codec := sample_codec (report_payload ''t'' (Some 2) ''s'' 1 ?r)\<rparr>"
  have "lifecycle_record ?env
      \<lparr>gr_shard = 0, gr_seq = 5, gr_event_type = report_type ?r, gr_content = []\<rparr> =
    andThen (discard (report_handler ?env ''t'' (Some 2) ''s'' 1 ?r)) (\<lambda>_. ok True)"
    by (rule tool_events_reach_handlers) (simp_all add: sample_codec_def in_i64_def)
  then show "lifecycle_record ?env \<lparr>gr_shard = 0, gr_seq = 5, gr_event_type = ''tool_completed'', gr_content = []\<rparr> =
    andThen (discard (handle_tool_completed ?env ''t'' (Some 2) ''s'' ''s'' JNull True 1)) (\<lambda>_. ok True)"
    by (simp only: report_type.simps report_handler.simps)
qed

end
