(* ===== verification/Server.thy ===== *)
theory Server
  imports Orchestrator Policy
begin

text \<open>
  \<open>src/server.rs\<close> with the messages of \<open>src/protocol.rs\<close>: the HTTP gateway. A handler is an operation on
  the orchestrator's state; its error becomes a status and a message. The configuration read at start-up
  is a function of the environment variables. The HTTP library, the extraction of paths and bodies, the
  date format and the metrics' text format are not modelled or parameters.
\<close>

section \<open>Messages\<close>

record task_policy_request =
  tp_agent_role :: agent_role
  tp_policy :: "capability_policy option"

record create_session_request =
  cs_session_id :: "string option"
  cs_agent_type :: string
  cs_task_type :: "string option"
  cs_body :: "json option"
  cs_metadata :: "json option"
  cs_priority :: int
  cs_policy :: "task_policy_request option"

record create_session_response =
  sr_session_id :: string
  sr_seq :: int

record start_turn_request =
  st_user_input :: string
  st_redo_group :: "string option"

record agent_event_report =
  ev_request_id :: string
  ev_session_id :: string
  ev_turn_id :: int
  ev_step_id :: string
  ev_local_seq :: int
  ev_event_type :: string
  ev_payload :: json

record record_event_request =
  rv_session_id :: string
  rv_turn_id :: "int option"
  rv_step_id :: string
  rv_local_seq :: int
  rv_event_type :: string
  rv_payload :: json

record redo_info =
  ri_turn_id :: int
  ri_redo_group :: string
  ri_redo_count :: int
  ri_user_input :: string

record recovery_status_response =
  rs_session_id :: string
  rs_incomplete_turns :: "incomplete_turn list"
  rs_redo_queue :: "redo_info list"

record context_response =
  cr_summary :: string
  cr_summarized_up_to_seq :: int
  cr_summarized_up_to_turn_id :: "int option"
  cr_messages :: "message list"

record session_info =
  si_task_id :: string
  si_tenant_id :: string
  si_user_id :: string
  si_agent_type :: string
  si_state :: string
  si_created_at :: string
  si_metadata :: "json option"
  si_is_ended :: bool
  si_turn_count :: int
  si_event_count :: int

record turn_info =
  ti_turn_id :: int
  ti_event_count :: int
  ti_terminal_event :: "string option"
  ti_steps :: "step_execution list"

record 'a api_response =
  ar_success :: bool
  ar_data :: "'a option"
  ar_error :: "string option"

definition api_ok :: "'a \<Rightarrow> 'a api_response" where
  "api_ok data = \<lparr>ar_success = True, ar_data = Some data, ar_error = None\<rparr>"

definition api_err :: "string \<Rightarrow> 'a api_response" where
  "api_err e = \<lparr>ar_success = False, ar_data = None, ar_error = Some e\<rparr>"

section \<open>Errors as responses\<close>

definition error_status :: "app_error \<Rightarrow> nat" where
  "error_status e =
     (case e of
        TaskNotFound _ \<Rightarrow> 404
      | TaskAlreadyExists _ \<Rightarrow> 409
      | TaskAlreadyEnded _ \<Rightarrow> 410
      | TurnNotFound _ _ \<Rightarrow> 404
      | TurnAlreadyTerminal _ _ \<Rightarrow> 409
      | StepAlreadyTerminal _ \<Rightarrow> 409
      | LifecycleInvariant _ \<Rightarrow> 409
      | InvalidTaskStateTransition _ _ _ \<Rightarrow> 409
      | Validation _ \<Rightarrow> 400
      | PayloadValidation _ _ \<Rightarrow> 400
      | InvalidEventType _ \<Rightarrow> 400
      | InvalidPayload _ \<Rightarrow> 400
      | PolicyViolation _ _ _ \<Rightarrow> 400
      | _ \<Rightarrow> 500)"

definition into_response :: "'s orch_env \<Rightarrow> app_error + 'a \<Rightarrow> nat \<times> 'a api_response" where
  "into_response env r =
     (case r of Inl e \<Rightarrow> (error_status e, api_err (error_text env e)) | Inr x \<Rightarrow> (200, api_ok x))"

section \<open>Start-up\<close>

text \<open>
  The operator's policy: the variable that names the file, the file's text or the error of reading it,
  and the TOML decoder.
\<close>

definition load_operator_policy ::
  "(string \<Rightarrow> string + capability_policy) \<Rightarrow> (string \<Rightarrow> string + string) \<Rightarrow> string option
    \<Rightarrow> app_error + capability_policy" where
  "load_operator_policy toml read_file var =
     (let path = unwrap_or [] var
      in if path = [] then Inr capability_policy_default
         else (case read_file path of
                 Inl e \<Rightarrow> Inl (Config (''read operator policy '' @ path @ '': '' @ e))
               | Inr content \<Rightarrow>
                   (case parse_operator_toml toml content of
                      Inl e \<Rightarrow> Inl (Config (''parse operator policy: '' @ e))
                    | Inr policy \<Rightarrow> Inr policy)))"

text \<open>
  The tuning knobs. A value that is absent, malformed or out of its range is replaced by the default.
  The extension factor is a float: \<open>factor_of\<close> reads its text, \<open>above_one\<close> compares it.
\<close>

record 'f server_config =
  sc_broker_addr :: string
  sc_namespace :: string
  sc_max_attempts :: int
  sc_max_concurrent :: nat
  sc_turn_timeout_secs :: nat
  sc_max_extensions :: nat
  sc_extension_factor :: 'f
  sc_region :: string
  sc_watchdog_interval_secs :: nat
  sc_port :: int

definition filtered :: "('a \<Rightarrow> bool) \<Rightarrow> 'a option \<Rightarrow> 'a option" where
  "filtered P x = (case x of Some v \<Rightarrow> if P v then Some v else None | None \<Rightarrow> None)"

definition read_config ::
  "(string \<Rightarrow> 'f option) \<Rightarrow> ('f \<Rightarrow> bool) \<Rightarrow> 'f \<Rightarrow> (string \<rightharpoonup> string) \<Rightarrow> 'f server_config" where
  "read_config factor_of above_one default_factor var =
     \<lparr>sc_broker_addr = unwrap_or ''127.0.0.1:5100'' (var ''BROKER_ADDR''),
      sc_namespace = unwrap_or ''default'' (var ''LOGDBD_NAMESPACE''),
      sc_max_attempts =
        unwrap_or 2 (filtered (\<lambda>n. n \<ge> 0) (Option.bind (var ''FIXUS_MAX_RETRY_ATTEMPTS'') parse_i32)),
      sc_max_concurrent =
        unwrap_or 6 (filtered (\<lambda>n. n \<ge> 1) (Option.bind (var ''FIXUS_MAX_CONCURRENT_PER_TYPE'') (parse_uint 64))),
      sc_turn_timeout_secs =
        unwrap_or 600 (filtered (\<lambda>n. n \<ge> 1) (Option.bind (var ''FIXUS_TURN_TIMEOUT_SECS'') (parse_uint 64))),
      sc_max_extensions = unwrap_or 3 (Option.bind (var ''FIXUS_TURN_MAX_EXTENSIONS'') (parse_uint 32)),
      sc_extension_factor =
        unwrap_or default_factor
          (filtered above_one (Option.bind (var ''FIXUS_TURN_EXTENSION_FACTOR'') factor_of)),
      sc_region = unwrap_or ''default'' (var ''SANDBOX_REGION''),
      sc_watchdog_interval_secs =
        unwrap_or 60 (filtered (\<lambda>n. n \<ge> 1) (Option.bind (var ''FIXUS_WATCHDOG_INTERVAL_SECS'') (parse_uint 64))),
      sc_port = unwrap_or 3000 (Option.bind (var ''FIXUS_PORT'') parse_i32)\<rparr>"

text \<open>
  The orchestrator a configuration gives: its parameters, \<open>scale\<close> being one multiplication of a duration
  by the factor, which may panic, and its first state.
\<close>

definition configured_env :: "('f \<Rightarrow> nat \<Rightarrow> nat option) \<Rightarrow> 'f server_config \<Rightarrow> 's orch_env \<Rightarrow> 's orch_env" where
  "configured_env scale cfg env =
     env\<lparr>oe_retry_policy := \<lparr>max_attempts = sc_max_attempts cfg\<rparr>,
         oe_turn_timeout := sc_turn_timeout_secs cfg * 1000000000,
         oe_max_extensions := sc_max_extensions cfg,
         oe_scale := scale (sc_extension_factor cfg)\<rparr>"

definition configured_state :: "'f server_config \<Rightarrow> 's \<Rightarrow> 's orch" where
  "configured_state cfg s = orchestrator_new s (sc_max_concurrent cfg)"

section \<open>Tasks\<close>

record 's server_env =
  sv_orch :: "'s orch_env"
  sv_operator_policy :: capability_policy
  sv_stream_url :: "string option"      \<comment> \<open>the variable \<open>FIXUS_STREAM_URL\<close>\<close>
  sv_rfc3339 :: "int \<Rightarrow> string"
  sv_render :: "metrics \<Rightarrow> string"

definition sv_store :: "'s server_env \<Rightarrow> 's event_store" where
  "sv_store sv = oe_store (sv_orch sv)"

definition read_store :: "'s server_env \<Rightarrow> ('s event_store \<Rightarrow> ('s, 'a) svc) \<Rightarrow> ('s, 'a) oop" where
  "read_store sv f = on_store (f (sv_store sv))"

definition write_store :: "'s server_env \<Rightarrow> ('s event_store \<Rightarrow> int \<Rightarrow> ('s, 'a) svc) \<Rightarrow> ('s, 'a) oop" where
  "write_store sv f = serve (sv_orch sv) (\<lambda>now. f (sv_store sv) now)"

definition violation_error :: "subset_violation \<Rightarrow> app_error" where
  "violation_error v =
     PolicyViolation (length (fs_read_violations v)) (length (fs_write_violations v)) (length (net_violations v))"

text \<open>The policy part of a creation: the tenant's policy, the task's own, and what they leave.\<close>

definition admit_policy ::
  "'s server_env \<Rightarrow> string \<Rightarrow> create_session_request \<Rightarrow> ('s, effective_policy) oop" where
  "admit_policy sv tenant_id req =
     andThen (read_store sv (\<lambda>es. es_get_tenant_policy es tenant_id)) (\<lambda>tenant.
       let task_req = unwrap_or \<lparr>tp_agent_role = Reader, tp_policy = None\<rparr> (cs_policy req);
           task_policy = unwrap_or capability_policy_default (tp_policy task_req)
       in case resolve_and_validate (sv_operator_policy sv) (unwrap_or capability_policy_default tenant)
                 task_policy (tp_agent_role task_req) of
            Inr effective \<Rightarrow> ok effective
          | Inl v \<Rightarrow> err (violation_error v))"

definition create_session_handler ::
  "'s server_env \<Rightarrow> (string \<rightharpoonup> string) \<Rightarrow> create_session_request \<Rightarrow> ('s, create_session_response) oop" where
  "create_session_handler sv headers req =
     (let tenant_id = unwrap_or ''default'' (headers ''X-Fixus-Tenant-Id'');
          user_id = unwrap_or [] (headers ''X-Fixus-User-Id'');
          task_type = unwrap_or (cs_agent_type req) (cs_task_type req)
      in andThen (tick (oe_wall (sv_orch sv))) (\<lambda>now.
         let prov = \<lparr>pv_source_channel = ''api'', pv_source_session_id = None, pv_source_user_id = Some user_id,
                     pv_source_tenant_id = Some tenant_id, pv_source_message_id = None,
                     pv_created_at = now, pv_created_by = ''api''\<rparr>
         in andThen (admit_policy sv tenant_id req) (\<lambda>effective.
            andThen (read_store sv (\<lambda>es. create_task es task_type prov (cs_body req) (cs_priority req)
                       (Some effective))) (\<lambda>(task_id, event).
            andThen (metric (record_task_created task_type)) (\<lambda>_.
            ok \<lparr>sr_session_id = task_id, sr_seq = ae_seq event\<rparr>)))))"

definition get_session_handler :: "'s server_env \<Rightarrow> string \<Rightarrow> ('s, session_info) oop" where
  "get_session_handler sv tid =
     andThen (read_store sv (\<lambda>es. es_get_task es tid)) (\<lambda>found.
       case found of
         None \<Rightarrow> err (TaskNotFound tid)
       | Some session \<Rightarrow>
           andThen (read_store sv (\<lambda>es. es_is_task_ended es tid)) (\<lambda>is_ended.
           andThen (read_store sv (\<lambda>es. es_get_max_turn_id es tid)) (\<lambda>max_turn.
           andThen (read_store sv (\<lambda>es. es_get_max_seq es tid)) (\<lambda>max_seq.
           ok \<lparr>si_task_id = tk_task_id session, si_tenant_id = tk_tenant_id session,
               si_user_id = tk_user_id session, si_agent_type = tk_task_type session,
               si_state = task_state_as_str (tk_state session), si_created_at = sv_rfc3339 sv (tk_created_at session),
               si_metadata = tk_metadata session, si_is_ended = is_ended, si_turn_count = max_turn,
               si_event_count = max_seq\<rparr>))))"

definition end_session_handler :: "'s server_env \<Rightarrow> string \<Rightarrow> json \<Rightarrow> ('s, json) oop" where
  "end_session_handler sv tid body =
     (let reason = str_field ''reason'' ''client_requested'' body
      in andThen (write_store sv (\<lambda>es now. cancel_task es now tid reason)) (\<lambda>event.
         ok (JObj [(''task_id'', JStr (ae_task_id event)), (''seq'', JInt (ae_seq event)),
                   (''reason'', JStr reason)])))"

definition mark_ready_handler :: "'s server_env \<Rightarrow> string \<Rightarrow> ('s, json) oop" where
  "mark_ready_handler sv tid =
     andThen (write_store sv (\<lambda>es now. mark_task_ready es now tid)) (\<lambda>event.
     ok (JObj [(''task_id'', JStr (ae_task_id event)), (''seq'', JInt (ae_seq event)),
               (''state'', JStr ''ready'')]))"

definition get_task_state_handler :: "'s server_env \<Rightarrow> string \<Rightarrow> ('s, json) oop" where
  "get_task_state_handler sv tid =
     andThen (read_store sv (\<lambda>es. es_get_task_state es tid)) (\<lambda>found.
       case found of
         None \<Rightarrow> err (TaskNotFound tid)
       | Some st \<Rightarrow> ok (JObj [(''task_id'', JStr tid), (''state'', JStr (task_state_as_str st))]))"

section \<open>Turns\<close>

definition stream_url_for :: "'s server_env \<Rightarrow> string \<Rightarrow> int \<Rightarrow> string option" where
  "stream_url_for sv tid turn_id =
     map_option (\<lambda>base. trim_end_slashes base @ ''/sessions/'' @ tid @ ''/turns/'' @ show_int turn_id @ ''/stream'')
       (sv_stream_url sv)"

definition start_turn_handler :: "'s server_env \<Rightarrow> string \<Rightarrow> start_turn_request \<Rightarrow> ('s, json) oop" where
  "start_turn_handler sv tid req =
     andThen (start_turn_async (sv_orch sv) tid (st_user_input req) (st_redo_group req)) (\<lambda>started.
       case started of
         Started turn_id \<Rightarrow>
           ok (JObj [(''turn_id'', JInt turn_id),
                     (''stream_url'', case stream_url_for sv tid turn_id of Some u \<Rightarrow> JStr u | None \<Rightarrow> JNull)])
       | RecoveryTriggered n \<Rightarrow>
           ok (JObj [(''turn_id'', JInt 0), (''stream_url'', JNull),
                     (''recovery'', JStr (show_nat n @ '' incomplete turn(s) detected; retry after recovery''))]))"

definition get_turn_handler :: "'s server_env \<Rightarrow> string \<Rightarrow> int \<Rightarrow> ('s, turn_info) oop" where
  "get_turn_handler sv tid turn_id =
     andThen (read_store sv (\<lambda>es. es_get_turn_events es tid turn_id)) (\<lambda>events.
       if events = [] then err (TurnNotFound tid turn_id)
       else andThen (read_store sv (\<lambda>es. es_get_turn_steps es tid turn_id)) (\<lambda>steps.
            ok \<lparr>ti_turn_id = turn_id, ti_event_count = int (length events),
                ti_terminal_event =
                  map_option (\<lambda>e. event_type_as_str (ae_event_type e))
                    (find (\<lambda>e. is_turn_terminal (ae_event_type e)) events),
                ti_steps = steps\<rparr>))"

definition complete_turn_handler :: "'s server_env \<Rightarrow> string \<Rightarrow> int \<Rightarrow> string \<Rightarrow> ('s, json) oop" where
  "complete_turn_handler sv tid turn_id final_output =
     andThen (write_store sv (\<lambda>es now. complete_turn es now tid turn_id final_output)) (\<lambda>event.
     ok (JObj [(''turn_id'', JInt turn_id), (''seq'', JInt (ae_seq event))]))"

definition cancel_turn_handler :: "'s server_env \<Rightarrow> string \<Rightarrow> int \<Rightarrow> json \<Rightarrow> ('s, json) oop" where
  "cancel_turn_handler sv tid turn_id body =
     andThen (write_store sv (\<lambda>es now. cancel_turn es now tid turn_id (str_field ''reason'' ''user_canceled'' body)))
       (\<lambda>event. ok (JObj [(''turn_id'', JInt turn_id), (''seq'', JInt (ae_seq event)),
                          (''state'', JStr ''canceled'')]))"

definition fail_turn_handler :: "'s server_env \<Rightarrow> string \<Rightarrow> int \<Rightarrow> json \<Rightarrow> ('s, json) oop" where
  "fail_turn_handler sv tid turn_id body =
     (let error_type = str_field ''error_type'' ''unknown'' body;
          error_message = str_field ''error_message'' ''No error message'' body;
          stack_trace = Option.bind (jget ''stack_trace'' body) as_str
      in andThen (write_store sv (\<lambda>es now. fail_turn es now tid turn_id error_type error_message stack_trace
                    (Some (classify_failure error_type error_message)))) (\<lambda>event.
         ok (JObj [(''turn_id'', JInt turn_id), (''seq'', JInt (ae_seq event))])))"

section \<open>Events\<close>

definition record_event_handler :: "'s server_env \<Rightarrow> string \<Rightarrow> record_event_request \<Rightarrow> ('s, int) oop" where
  "record_event_handler sv tid req =
     (case event_type_from_str (rv_event_type req) of
        None \<Rightarrow> err (InvalidEventType (rv_event_type req))
      | Some et \<Rightarrow>
          write_store sv (\<lambda>es now. record_event es now tid (rv_turn_id req) (Some (rv_step_id req)) et (rv_payload req)))"

fun batch_events :: "'s server_env \<Rightarrow> string \<Rightarrow> agent_event_report list \<Rightarrow> ('s, agent_event list) oop" where
  "batch_events sv tid [] = ok []"
| "batch_events sv tid (r # rs) =
     (case event_type_from_str (ev_event_type r) of
        None \<Rightarrow> err (InvalidEventType (ev_event_type r))
      | Some et \<Rightarrow>
          andThen (tick (oe_wall (sv_orch sv))) (\<lambda>now.
          andThen (batch_events sv tid rs) (\<lambda>events.
          ok (agent_event_new now tid (Some (ev_turn_id r)) (Some (ev_step_id r)) et (ev_payload r) # events))))"

definition record_events_batch_handler ::
  "'s server_env \<Rightarrow> string \<Rightarrow> agent_event_report list \<Rightarrow> ('s, int list) oop" where
  "record_events_batch_handler sv tid reports =
     andThen (batch_events sv tid reports) (\<lambda>events.
       read_store sv (\<lambda>es. es_write_events_batch es events))"

section \<open>Context, recovery, summaries, usage\<close>

definition get_context_handler :: "'s server_env \<Rightarrow> string \<Rightarrow> ('s, context_response) oop" where
  "get_context_handler sv tid =
     andThen (read_store sv (\<lambda>es. build_llm_context (oe_codec (sv_orch sv)) es tid)) (\<lambda>ctx.
     ok \<lparr>cr_summary = lc_summary ctx, cr_summarized_up_to_seq = lc_summarized_up_to_seq ctx,
         cr_summarized_up_to_turn_id = lc_summarized_up_to_turn_id ctx, cr_messages = lc_messages ctx\<rparr>)"

definition get_turn_context_handler :: "'s server_env \<Rightarrow> string \<Rightarrow> int \<Rightarrow> ('s, message list) oop" where
  "get_turn_context_handler sv tid turn_id =
     read_store sv (\<lambda>es. build_turn_context (oe_codec (sv_orch sv)) es tid turn_id)"

definition redo_info_of :: "redo_context \<Rightarrow> redo_info" where
  "redo_info_of ctx =
     \<lparr>ri_turn_id = rc_turn_id ctx, ri_redo_group = rc_redo_group ctx, ri_redo_count = rc_redo_count ctx,
      ri_user_input = rc_user_input ctx\<rparr>"

fun preview_turns :: "'s server_env \<Rightarrow> string \<Rightarrow> incomplete_turn list \<Rightarrow> ('s, redo_info list) oop" where
  "preview_turns sv tid [] = ok []"
| "preview_turns sv tid (turn # turns) =
     andThen (read_store sv (\<lambda>es. decide_turn_recovery es tid turn)) (\<lambda>decision.
     andThen (case decision of
                SafeToRedo turn_id redo_group _ _ \<Rightarrow>
                  andThen (read_store sv (\<lambda>es. build_redo_context es tid turn)) (\<lambda>ctx.
                  ok (case ctx of
                        None \<Rightarrow> []
                      | Some c \<Rightarrow> [\<lparr>ri_turn_id = turn_id, ri_redo_group = redo_group,
                                   ri_redo_count = rc_redo_count c, ri_user_input = rc_user_input c\<rparr>]))
              | _ \<Rightarrow> ok []) (\<lambda>infos.
     andThen (preview_turns sv tid turns) (\<lambda>rest. ok (infos @ rest))))"

definition get_recovery_handler :: "'s server_env \<Rightarrow> string \<Rightarrow> ('s, recovery_status_response) oop" where
  "get_recovery_handler sv tid =
     andThen (read_store sv (\<lambda>es. es_get_incomplete_turns es tid)) (\<lambda>turns.
     andThen (preview_turns sv tid turns) (\<lambda>redo_queue.
     ok \<lparr>rs_session_id = tid, rs_incomplete_turns = turns, rs_redo_queue = redo_queue\<rparr>))"

definition apply_recovery_handler :: "'s server_env \<Rightarrow> string \<Rightarrow> ('s, redo_info list) oop" where
  "apply_recovery_handler sv tid =
     andThen (write_store sv (\<lambda>es now. recover_task es now tid)) (\<lambda>redo_queue.
     ok (map redo_info_of redo_queue))"

definition required_field :: "string \<Rightarrow> (json \<Rightarrow> 'a option) \<Rightarrow> json \<Rightarrow> app_error + 'a" where
  "required_field k conv body =
     (case Option.bind (jget k body) conv of Some x \<Rightarrow> Inr x | None \<Rightarrow> Inl (Validation (k @ '' is required'')))"

definition write_summary_handler :: "'s server_env \<Rightarrow> string \<Rightarrow> json \<Rightarrow> ('s, json) oop" where
  "write_summary_handler sv tid body =
     andThen (lift_res (required_field ''summarized_up_to_turn_id'' as_i64 body)) (\<lambda>up_to_turn_id.
     andThen (lift_res (required_field ''summarized_up_to_seq'' as_i64 body)) (\<lambda>up_to_seq.
     andThen (lift_res (required_field ''summary'' as_str body)) (\<lambda>summary.
     andThen (write_store sv (\<lambda>es now. write_summary_marker es now tid up_to_turn_id up_to_seq summary
                (i64_field ''covered_event_count'' 0 body))) (\<lambda>event.
     ok (JObj [(''seq'', JInt (ae_seq event)), (''summarized_up_to_turn_id'', JInt up_to_turn_id),
               (''summarized_up_to_seq'', JInt up_to_seq)])))))"

definition get_token_usage_handler :: "'s server_env \<Rightarrow> string \<Rightarrow> ('s, token_usage_response) oop" where
  "get_token_usage_handler sv tid =
     andThen (read_store sv (\<lambda>es. es_get_token_usage_stats es tid)) (\<lambda>by_model. ok (from_by_model by_model))"

section \<open>Tenant policies\<close>

text \<open>The status of success is 204.\<close>

definition set_tenant_policy_handler :: "'s server_env \<Rightarrow> string \<Rightarrow> capability_policy \<Rightarrow> ('s, nat) oop" where
  "set_tenant_policy_handler sv tenant_id policy =
     (case validate_subset policy (sv_operator_policy sv) of
        Inl v \<Rightarrow> err (violation_error v)
      | Inr _ \<Rightarrow>
          andThen (read_store sv (\<lambda>es. es_set_tenant_policy es tenant_id policy)) (\<lambda>_. ok 204))"

section \<open>Health and metrics\<close>

definition health_handler :: "'s server_env \<Rightarrow> ('s, health_status) oop" where
  "health_handler sv = health (sv_orch sv)"

definition set_load_gauges :: "(string \<times> nat \<times> nat) list \<Rightarrow> metrics \<Rightarrow> metrics" where
  "set_load_gauges counts m =
     fold (\<lambda>(tt, pending, running) m.
         set_in_flight tt (wrap_i64 (int running)) (set_pending tt (wrap_i64 (int pending)) m)) counts m"

definition metrics_handler :: "'s server_env \<Rightarrow> ('s, string) oop" where
  "metrics_handler sv =
     andThen (upd (\<lambda>ob. ob\<lparr>oc_metrics := set_load_gauges (snapshot (oc_dispatcher ob)) (oc_metrics ob)\<rparr>)) (\<lambda>_.
     andThen (health (sv_orch sv)) (\<lambda>h.
     andThen (metric (set_dependency_up ''broker'' (dh_status (hs_broker h) = ''ok''))) (\<lambda>_.
     andThen (metric (set_dependency_up ''sandbox'' (dh_status (hs_sandbox h) = ''ok''))) (\<lambda>_ ob.
     (Inr (sv_render sv (oc_metrics ob)), ob)))))"

end
