(* ===== verification/Server_Properties.thy ===== *)
theory Server_Properties
  imports Server Orchestrator_Properties
begin

text \<open>
  The gateway with the orchestrator behind it: the configuration it starts with, the states requests,
  agents and background work reach together, what a request that is refused leaves, and what the
  metrics page shows.
\<close>

section \<open>Requests\<close>

datatype api_request =
    CreateSession "string \<rightharpoonup> string" create_session_request
  | GetSession string
  | EndSession string json
  | MarkReady string
  | GetTaskState string
  | StartTurn string start_turn_request
  | GetTurn string int
  | CompleteTurn string int string
  | FailTurn string int json
  | CancelTurn string int json
  | RecordEvent string record_event_request
  | RecordEventsBatch string "agent_event_report list"
  | GetContext string
  | GetTurnContext string int
  | GetRecovery string
  | ApplyRecovery string
  | WriteSummary string json
  | GetTokenUsage string
  | SetTenantPolicy string capability_policy
  | Health
  | ShowMetrics

fun handle_request :: "'s server_env \<Rightarrow> api_request \<Rightarrow> 's orch \<Rightarrow> 's orch" where
  "handle_request sv (CreateSession headers req) ob = snd (create_session_handler sv headers req ob)"
| "handle_request sv (GetSession tid) ob = snd (get_session_handler sv tid ob)"
| "handle_request sv (EndSession tid body) ob = snd (end_session_handler sv tid body ob)"
| "handle_request sv (MarkReady tid) ob = snd (mark_ready_handler sv tid ob)"
| "handle_request sv (GetTaskState tid) ob = snd (get_task_state_handler sv tid ob)"
| "handle_request sv (StartTurn tid req) ob = snd (start_turn_handler sv tid req ob)"
| "handle_request sv (GetTurn tid n) ob = snd (get_turn_handler sv tid n ob)"
| "handle_request sv (CompleteTurn tid n out) ob = snd (complete_turn_handler sv tid n out ob)"
| "handle_request sv (FailTurn tid n body) ob = snd (fail_turn_handler sv tid n body ob)"
| "handle_request sv (CancelTurn tid n body) ob = snd (cancel_turn_handler sv tid n body ob)"
| "handle_request sv (RecordEvent tid req) ob = snd (record_event_handler sv tid req ob)"
| "handle_request sv (RecordEventsBatch tid reports) ob = snd (record_events_batch_handler sv tid reports ob)"
| "handle_request sv (GetContext tid) ob = snd (get_context_handler sv tid ob)"
| "handle_request sv (GetTurnContext tid n) ob = snd (get_turn_context_handler sv tid n ob)"
| "handle_request sv (GetRecovery tid) ob = snd (get_recovery_handler sv tid ob)"
| "handle_request sv (ApplyRecovery tid) ob = snd (apply_recovery_handler sv tid ob)"
| "handle_request sv (WriteSummary tid body) ob = snd (write_summary_handler sv tid body ob)"
| "handle_request sv (GetTokenUsage tid) ob = snd (get_token_usage_handler sv tid ob)"
| "handle_request sv (SetTenantPolicy tenant policy) ob = snd (set_tenant_policy_handler sv tenant policy ob)"
| "handle_request sv Health ob = snd (health_handler sv ob)"
| "handle_request sv ShowMetrics ob = snd (metrics_handler sv ob)"

lemma recording_more [pres_intros]:
  "recording (record_task_created t)" "recording (set_dependency_up dep up)"
  by (simp_all add: recording_def metrics_ok_ops)

lemma recording_gauges: "recording (set_load_gauges counts)"
proof -
  have "metrics_ok m \<Longrightarrow> metrics_ok (set_load_gauges counts m)" for m
    unfolding set_load_gauges_def by (induction counts arbitrary: m) (auto simp: metrics_ok_ops)
  then show ?thesis by (simp add: recording_def)
qed

lemma pres_lift [pres_intros]: "preserves P (lift_res r)"
  by (simp add: preserves_def)

lemma pres_pure [pres_intros]: "preserves P (\<lambda>ob. (r ob, ob))"
  by (simp add: preserves_def)

lemma pres_case_started [pres_intros]:
  "(\<And>n. preserves P (f n)) \<Longrightarrow> (\<And>n. preserves P (g n)) \<Longrightarrow> preserves P (case_async_turn_start f g x)"
  by (simp split: async_turn_start.split)

lemma pres_case_decision [pres_intros]:
  "(\<And>n rg c st. preserves P (f n rg c st)) \<Longrightarrow> (\<And>n rg st. preserves P (g n rg st)) \<Longrightarrow> preserves P h \<Longrightarrow>
     preserves P (case_recovery_decision f g h d)"
  by (simp split: recovery_decision.split)

context orch_invariant
begin

lemma pres_gateway_store [pres_intros]:
  "preserves P (read_store sv f)"
  "sv_orch sv = env \<Longrightarrow> preserves P (write_store sv g)"
  unfolding read_store_def write_store_def by (intro pres_intros | simp add: pres_reads)+

lemma pres_batch_events [pres_intros]: "preserves P (batch_events sv tid reports)"
proof (induction reports)
  case Nil
  show ?case unfolding batch_events.simps by (rule pres_basic)
next
  case (Cons r rs)
  show ?case unfolding batch_events.simps by (intro pres_intros Cons)
qed

lemma pres_preview [pres_intros]: "preserves P (preview_turns sv tid turns)"
proof (induction turns)
  case Nil
  show ?case unfolding preview_turns.simps by (rule pres_basic)
next
  case (Cons turn turns)
  show ?case unfolding preview_turns.simps by (intro pres_intros Cons)
qed

lemma pres_gauges:
  "preserves P (upd (\<lambda>ob. ob\<lparr>oc_metrics := set_load_gauges (snapshot (oc_dispatcher ob)) (oc_metrics ob)\<rparr>))"
  by (simp add: preserves_def upd_def keep_metrics recording_gauges)

lemma pres_gateway_reads:
  "preserves P (create_session_handler sv headers req)"
  "preserves P (get_session_handler sv tid)"
  "preserves P (get_task_state_handler sv tid)"
  "preserves P (get_turn_handler sv tid n)"
  "preserves P (record_events_batch_handler sv tid reports)"
  "preserves P (get_context_handler sv tid)"
  "preserves P (get_turn_context_handler sv tid n)"
  "preserves P (get_recovery_handler sv tid)"
  "preserves P (get_token_usage_handler sv tid)"
  "preserves P (set_tenant_policy_handler sv tenant policy)"
  unfolding create_session_handler_def admit_policy_def get_session_handler_def get_task_state_handler_def
    get_turn_handler_def record_events_batch_handler_def get_context_handler_def get_turn_context_handler_def
    get_recovery_handler_def get_token_usage_handler_def set_tenant_policy_handler_def
  by (intro pres_intros)+

lemma pres_gateway_writes:
  assumes "sv_orch sv = env"
  shows "preserves P (end_session_handler sv tid body)"
    "preserves P (mark_ready_handler sv tid)"
    "preserves P (complete_turn_handler sv tid n out)"
    "preserves P (cancel_turn_handler sv tid n body)"
    "preserves P (fail_turn_handler sv tid n body)"
    "preserves P (record_event_handler sv tid ev)"
    "preserves P (apply_recovery_handler sv tid)"
    "preserves P (write_summary_handler sv tid body)"
  unfolding end_session_handler_def mark_ready_handler_def complete_turn_handler_def cancel_turn_handler_def
    fail_turn_handler_def record_event_handler_def apply_recovery_handler_def write_summary_handler_def
  by (intro pres_intros assms)+

lemma pres_gateway_orch:
  assumes "sv_orch sv = env"
  shows "preserves P (start_turn_handler sv tid req)" "preserves P (health_handler sv)"
    "preserves P (metrics_handler sv)"
  unfolding start_turn_handler_def health_handler_def metrics_handler_def assms
  by (intro pres_intros pres_health pres_gauges)+

lemma request_keeps_gateway: "sv_orch sv = env \<Longrightarrow> P ob \<Longrightarrow> P (handle_request sv r ob)"
  by (cases r)
     (simp_all only: handle_request.simps preservesD [OF pres_gateway_reads(1)]
        preservesD [OF pres_gateway_reads(2)] preservesD [OF pres_gateway_reads(3)]
        preservesD [OF pres_gateway_reads(4)] preservesD [OF pres_gateway_reads(5)]
        preservesD [OF pres_gateway_reads(6)] preservesD [OF pres_gateway_reads(7)]
        preservesD [OF pres_gateway_reads(8)] preservesD [OF pres_gateway_reads(9)]
        preservesD [OF pres_gateway_reads(10)] preservesD [OF pres_gateway_writes(1)]
        preservesD [OF pres_gateway_writes(2)] preservesD [OF pres_gateway_writes(3)]
        preservesD [OF pres_gateway_writes(4)] preservesD [OF pres_gateway_writes(5)]
        preservesD [OF pres_gateway_writes(6)] preservesD [OF pres_gateway_writes(7)]
        preservesD [OF pres_gateway_writes(8)] preservesD [OF pres_gateway_orch(1)]
        preservesD [OF pres_gateway_orch(2)] preservesD [OF pres_gateway_orch(3)])

end

section \<open>The whole server\<close>

text \<open>
  Everything that happens to the server: an agent's record, the watchdog and the other events of the
  orchestrator, or a request; and, as steps of their own, the jobs it spawned. While a job waits, a
  schedule says which events come in.
\<close>

datatype server_event = Inside orch_event | Api api_request

fun server_event_step :: "'s server_env \<Rightarrow> server_event \<Rightarrow> 's orch \<Rightarrow> 's orch" where
  "server_event_step sv (Inside ev) ob = handle_event (sv_orch sv) ev ob"
| "server_event_step sv (Api r) ob = handle_request sv r ob"

definition server_runtime :: "'s server_env \<Rightarrow> (nat \<Rightarrow> nat \<Rightarrow> server_event list) \<Rightarrow> 's orch_env" where
  "server_runtime sv sched =
     (sv_orch sv)\<lparr>oe_others := (\<lambda>ch d ob. fold (server_event_step sv) (sched ch d) ob)\<rparr>"

inductive server_step :: "'s server_env \<Rightarrow> (nat \<Rightarrow> nat \<Rightarrow> server_event list) \<Rightarrow> 's orch \<Rightarrow> 's orch \<Rightarrow> bool"
  for sv sched where
  server_event: "server_step sv sched ob (server_event_step sv ev ob)"
| server_job: "j \<in> set (oc_jobs ob) \<Longrightarrow>
    server_step sv sched ob
      (snd (run_job (server_runtime sv sched) j (ob\<lparr>oc_jobs := remove1 j (oc_jobs ob)\<rparr>)))"

inductive_cases server_stepE: "server_step sv sched ob ob'"

lemma server_event_ok:
  "orch_ok (oe_retry_policy (sv_orch sv)) cap lo ob \<Longrightarrow>
     orch_ok (oe_retry_policy (sv_orch sv)) cap lo (server_event_step sv ev ob)"
  by (cases ev) (simp_all only: server_event_step.simps ok.handle_event_keeps ok.request_keeps_gateway)

lemma server_events_ok:
  "orch_ok (oe_retry_policy (sv_orch sv)) cap lo ob \<Longrightarrow>
     orch_ok (oe_retry_policy (sv_orch sv)) cap lo (fold (server_event_step sv) evs ob)"
  by (induction evs arbitrary: ob) (simp_all add: server_event_ok)

lemma server_runtime_policy [simp]: "oe_retry_policy (server_runtime sv sched) = oe_retry_policy (sv_orch sv)"
  by (simp add: server_runtime_def)

interpretation server_rt: orch_runtime
  "orch_ok (oe_retry_policy (sv_orch sv)) cap lo :: 's orch \<Rightarrow> bool" "server_runtime sv sched"
  for cap lo sv sched
  using ok.orch_invariant_axioms [where env = "server_runtime sv sched"]
  by (auto simp: orch_runtime_def orch_runtime_axioms_def server_runtime_def server_events_ok)

lemma server_step_ok:
  "server_step sv sched ob ob' \<Longrightarrow> orch_ok (oe_retry_policy (sv_orch sv)) cap lo ob \<Longrightarrow>
     orch_ok (oe_retry_policy (sv_orch sv)) cap lo ob'"
  by (erule server_stepE) (simp_all only: server_event_ok server_rt.job_keeps)

lemma server_reaches_ok:
  "(server_step sv sched)\<^sup>*\<^sup>* ob ob' \<Longrightarrow> orch_ok (oe_retry_policy (sv_orch sv)) cap lo ob \<Longrightarrow>
     orch_ok (oe_retry_policy (sv_orch sv)) cap lo ob'"
  by (induction rule: rtranclp_induct) (auto intro: server_step_ok)

section \<open>Properties\<close>

lemma filtered_bind: "unwrap_or d (filtered Q x) = d \<or> Q (unwrap_or d (filtered Q x))"
  by (auto simp: filtered_def split: option.split)

lemma parse_i32_range: "parse_i32 s = Some n \<Longrightarrow> in_i32 n"
  by (auto simp: parse_i32_def split: option.splits if_splits)

lemma read_config_ranges:
  "1 \<le> sc_max_concurrent (read_config fo ao df var)" "1 \<le> sc_turn_timeout_secs (read_config fo ao df var)"
  "1 \<le> sc_watchdog_interval_secs (read_config fo ao df var)" "0 \<le> sc_max_attempts (read_config fo ao df var)"
  "sc_extension_factor (read_config fo ao df var) = df \<or> ao (sc_extension_factor (read_config fo ao df var))"
  "in_i32 (sc_max_attempts (read_config fo ao df var))"
proof -
  show "1 \<le> sc_max_concurrent (read_config fo ao df var)" "1 \<le> sc_turn_timeout_secs (read_config fo ao df var)"
    "1 \<le> sc_watchdog_interval_secs (read_config fo ao df var)" "0 \<le> sc_max_attempts (read_config fo ao df var)"
    using filtered_bind [of 6 "\<lambda>n::nat. n \<ge> 1"] filtered_bind [of 600 "\<lambda>n::nat. n \<ge> 1"]
      filtered_bind [of 60 "\<lambda>n::nat. n \<ge> 1"] filtered_bind [of 2 "\<lambda>n::int. n \<ge> 0"]
    by (auto simp: read_config_def filtered_def split: option.split)
  show "sc_extension_factor (read_config fo ao df var) = df \<or> ao (sc_extension_factor (read_config fo ao df var))"
    using filtered_bind [of df ao] by (simp add: read_config_def)
  show "in_i32 (sc_max_attempts (read_config fo ao df var))"
    using parse_i32_range
    by (auto simp: read_config_def filtered_def in_i32_def bind_eq_Some_conv split: option.split)
qed

text \<open>
  C5. Whatever the environment variables hold, the server starts with usable limits; and whatever
  requests, agents' records, watchdog passes and background jobs follow, in whatever order and however
  interleaved with waiting jobs, no task type has more turns in flight than the configured limit, each
  waiter is registered or was told exactly once, the counters agree with their histograms, every series
  has one value per label of its metric, and the retry counters stay between 1 and the configured budget.
\<close>

theorem configured_server_safe:
  "let cfg = read_config factor_of above_one default_factor var;
       sv' = sv\<lparr>sv_orch := configured_env scale cfg (sv_orch sv)\<rparr>
   in 1 \<le> sc_max_concurrent cfg \<and> 0 \<le> sc_max_attempts cfg \<and> 1 \<le> sc_turn_timeout_secs cfg \<and>
      {ob. (server_step sv' sched)\<^sup>*\<^sup>* (configured_state cfg s) ob} \<subseteq>
      {ob. (\<forall>tt. in_flight tt (oc_dispatcher ob) \<le> sc_max_concurrent cfg) \<and> registry_ok (oc_registry ob) \<and>
           metrics_ok (oc_metrics ob) \<and> snd ` set (oc_retry_attempts ob) \<subseteq> {1..sc_max_attempts cfg}}"
proof -
  let ?cfg = "read_config factor_of above_one default_factor var"
  let ?sv = "sv\<lparr>sv_orch := configured_env scale ?cfg (sv_orch sv)\<rparr>"
  have pol: "oe_retry_policy (sv_orch ?sv) = \<lparr>max_attempts = sc_max_attempts ?cfg\<rparr>"
    by (simp add: configured_env_def)
  have "max (sc_max_concurrent ?cfg) 1 = sc_max_concurrent ?cfg"
    using read_config_ranges(1) [of factor_of above_one default_factor var] by simp
  then have start: "orch_ok (oe_retry_policy (sv_orch ?sv)) (sc_max_concurrent ?cfg) 0 (configured_state ?cfg s)"
    using orch_ok_new [of "oe_retry_policy (sv_orch ?sv)" "sc_max_concurrent ?cfg" s]
    by (simp add: configured_state_def)
  have "(\<forall>tt. in_flight tt (oc_dispatcher ob) \<le> sc_max_concurrent ?cfg) \<and> registry_ok (oc_registry ob) \<and>
      metrics_ok (oc_metrics ob) \<and> snd ` set (oc_retry_attempts ob) \<subseteq> {1..sc_max_attempts ?cfg}"
    if "(server_step ?sv sched)\<^sup>*\<^sup>* (configured_state ?cfg s) ob" for ob
    using server_reaches_ok [OF that start] read_config_ranges(6) [of factor_of above_one default_factor var]
    by (simp add: orch_ok_def within_capacity_def budget_ok_def pol [simplified])
  then show ?thesis
    using read_config_ranges [of factor_of above_one default_factor var] by (auto simp: Let_def)
qed

text \<open>
  A refusal is the client's error: whatever the write guard refuses is answered with 400 or 409,
  never as an internal error, and no error is answered with a status outside 400, 404, 409, 410, 500.
\<close>

theorem refused_write_is_client_error:
  "{error_status e | e current ev. validate_write current ev = Inl e} \<subseteq> {400, 409} \<and>
   range error_status = {400, 404, 409, 410, 500}"
proof
  have fields: "\<exists>a b. e = PayloadValidation a b \<or> (\<exists>x. e = Validation x)"
    if "check_fields et d p fs = Inl e" for et d p fs e
    using that by (induction et d p fs rule: check_fields.induct) (auto split: if_splits option.splits)
  have "error_status e \<in> {400, 409}" if "validate_write current ev = Inl e" for e current ev
    using that
    by (auto simp: validate_write_def validate_payload_required_fields_def validate_task_event_transition_def
        error_status_def dest!: fields split: sum.splits option.splits if_splits)
  then show "{error_status e | e current ev. validate_write current ev = Inl e} \<subseteq> {400, 409}" by blast
  have "error_status e \<in> {400, 404, 409, 410, 500}" for e by (cases e) (simp_all add: error_status_def)
  moreover have "error_status (Validation x) = 400" "error_status (TaskNotFound x) = 404"
    "error_status (TaskAlreadyExists x) = 409" "error_status (TaskAlreadyEnded x) = 410"
    "error_status (Internal x) = 500" for x
    by (simp_all add: error_status_def)
  ultimately show "range error_status = {400, 404, 409, 410, 500}"
    by (intro equalityI subsetI) (auto, (metis rangeI)+)
qed

text \<open>The store with a guard before the creation of tasks.\<close>

definition guarded_store :: "(effective_policy \<Rightarrow> bool) \<Rightarrow> 's event_store \<Rightarrow> 's event_store" where
  "guarded_store P es = es\<lparr>es_create_task := (\<lambda>task_type tenant user prov body priority eff.
     if pred_option P eff then es_create_task es task_type tenant user prov body priority eff
     else err (Internal ''policy''))\<rparr>"

definition within_policy :: "capability_policy \<Rightarrow> effective_policy \<Rightarrow> bool" where
  "within_policy op eff \<longleftrightarrow>
     {p. grants (read_paths (ep_fs eff)) p} \<subseteq> {p. grants (read_paths (cp_fs op)) p} \<and>
     {p. grants (write_paths (ep_fs eff)) p} \<subseteq> {p. grants (write_paths (cp_fs op)) p} \<and>
     set (egress (ep_net eff)) \<subseteq> set (egress (cp_net op))"

definition with_store :: "'s event_store \<Rightarrow> 's server_env \<Rightarrow> 's server_env" where
  "with_store es sv = sv\<lparr>sv_orch := (sv_orch sv)\<lparr>oe_store := es\<rparr>\<rparr>"

lemma resolved_within: "within_policy op (resolve_effective op te ta role)"
  using resolve_reads resolve_writes resolve_egress by (fastforce simp: within_policy_def)

text \<open>
  C27. No request to create a session (\<open>POST /api/v1/sessions\<close>) creates a task whose policy exceeds the
  operator's: putting a guard in front of the store that refuses every such creation changes nothing,
  whatever the request asks for and whatever the tenant's policy holds. The events of a batch
  (\<open>POST .../events/batch\<close>) do not come this way, and are not checked (\<open>batch_write_replaces_policy\<close>).
\<close>

theorem created_task_within_operator_policy:
  "create_session_handler (with_store (guarded_store (within_policy (sv_operator_policy sv)) (sv_store sv)) sv) headers req =
   create_session_handler sv headers req"
proof -
  let ?P = "within_policy (sv_operator_policy sv)"
  let ?sv = "with_store (guarded_store ?P (sv_store sv)) sv"
  have tenant: "es_get_tenant_policy (sv_store ?sv) = es_get_tenant_policy (sv_store sv)"
    by (simp add: with_store_def guarded_store_def sv_store_def)
  have admit: "admit_policy ?sv tid req = admit_policy sv tid req" for tid
    unfolding admit_policy_def read_store_def tenant by (simp add: with_store_def)
  have within: "pred_option ?P (Some eff)" if "admit_policy sv tid req ob = (Inr eff, ob')" for tid eff ob ob'
    using that resolved_within
    by (auto simp: admit_policy_def andThen_Inr_iff Let_def resolve_and_validate_def split: sum.splits)
  have create: "read_store ?sv (\<lambda>es. create_task es tt prov body pri (Some eff)) =
      read_store sv (\<lambda>es. create_task es tt prov body pri (Some eff))"
    if "pred_option ?P (Some eff)" for eff tt prov body pri
    using that by (simp add: read_store_def create_task_def with_store_def guarded_store_def sv_store_def Let_def)
  have bind: "andThen (admit_policy sv tid req) f = andThen (admit_policy sv tid req) f'"
    if "\<And>eff. pred_option ?P (Some eff) \<Longrightarrow> f eff = f' eff" for tid f f'
    using that within [of tid] by (intro ext) (auto simp: andThen_apply split: prod.split sum.split)
  have wall: "oe_wall (sv_orch ?sv) = oe_wall (sv_orch sv)" by (simp add: with_store_def)
  show ?thesis
    unfolding create_session_handler_def admit wall Let_def
    by (intro arg_cong [where f = "andThen (tick (oe_wall (sv_orch sv)))"] ext bind) (simp only: create)
qed

text \<open>What a call of the store leaves of the rest.\<close>

definition beside_store :: "'s orch \<Rightarrow> task_registry \<times> dispatcher \<times> (string \<times> int) list \<times>
    (string \<times> int) list \<times> metrics \<times> (string \<times> string) list \<times> job list" where
  "beside_store ob = (oc_registry ob, oc_dispatcher ob, oc_retry_attempts ob, oc_dispatch_times ob,
     oc_metrics ob, oc_tokens ob, oc_jobs ob)"

lemma beside_serve: "beside_store (snd (serve env f ob)) = beside_store ob"
  by (auto simp: serve_def andThen_apply tick_def on_store_def beside_store_def split: prod.split sum.split)

text \<open>The event by which a request ends a turn: the task, the turn, the type and the payload.\<close>

fun turn_end :: "api_request \<Rightarrow> (string \<times> int \<times> event_type \<times> json) option" where
  "turn_end (CompleteTurn tid n out) = Some (tid, n, TurnCompleted, turn_completed_payload out)"
| "turn_end (FailTurn tid n body) =
     (let error_type = str_field ''error_type'' ''unknown'' body;
          error_message = str_field ''error_message'' ''No error message'' body
      in Some (tid, n, TurnFailed, turn_failed_payload error_type error_message
           (Some (classify_failure error_type error_message)) (Option.bind (jget ''stack_trace'' body) as_str)))"
| "turn_end (CancelTurn tid n body) =
     Some (tid, n, TurnCanceled, reason_payload (str_field ''reason'' ''user_canceled'' body))"
| "turn_end _ = None"

text \<open>How such a request is answered.\<close>

fun turn_end_response :: "'s server_env \<Rightarrow> api_request \<Rightarrow> 's orch \<Rightarrow> app_error + json" where
  "turn_end_response sv (CompleteTurn tid n out) ob = fst (complete_turn_handler sv tid n out ob)"
| "turn_end_response sv (FailTurn tid n body) ob = fst (fail_turn_handler sv tid n body ob)"
| "turn_end_response sv (CancelTurn tid n body) ob = fst (cancel_turn_handler sv tid n body ob)"
| "turn_end_response sv _ ob = Inr JNull"

text \<open>A terminal event given to the store: refused and nothing changed, or in the projection.\<close>

lemma write_store_terminal:
  assumes "sv_store sv = broker_event_store env" "bs_inv (oc_store ob)" "in_i64 n" "is_turn_terminal et"
    and w: "write_store sv (\<lambda>es now. write_new es (agent_event_new now tid (Some n) None et payload)) ob = (r, ob')"
  shows "case r of
      Inl x \<Rightarrow> bs_proj (oc_store ob') = bs_proj (oc_store ob)
    | Inr event \<Rightarrow> \<exists>t now. bs_proj (oc_store ob') = (bs_proj (oc_store ob))(tid :=
          map_option (apply_ae (se_codec env) (stored_event (se_codec env)
            (agent_event_new t tid (Some n) None et payload) (ae_seq event) now)) (bs_proj (oc_store ob) tid)) \<and>
        pred_option (\<lambda>p. n \<notin> set (tp_active_turns p)) (bs_proj (oc_store ob') tid)"
proof -
  obtain t where t: "write_new (broker_event_store env) (agent_event_new t tid (Some n) None et payload)
      (oc_store ob) = (r, oc_store ob')"
    using w assms(1)
    by (auto simp: write_store_def serve_def andThen_apply tick_def on_store_def split: prod.splits)
  show ?thesis
  proof (cases r)
    case (Inl x)
    with t have "es_write_event (broker_event_store env) (agent_event_new t tid (Some n) None et payload)
      (oc_store ob) = (Inl x, oc_store ob')" by (simp add: write_new_err_iff)
    from bs.write_error [OF assms(2) this] Inl show ?thesis by simp
  next
    case (Inr event)
    with t obtain q where q: "es_write_event (broker_event_store env)
        (agent_event_new t tid (Some n) None et payload) (oc_store ob) = (Inr q, oc_store ob')" "ae_seq event = q"
      by (auto simp: write_new_ok_iff)
    let ?e = "agent_event_new t tid (Some n) None et payload"
    from bs.write_ok [OF assms(2) q(1)] obtain now where
      p: "bs_proj (oc_store ob') = (bs_proj (oc_store ob))(tid :=
        map_option (apply_ae (se_codec env) (stored_event (se_codec env) ?e q now)) (bs_proj (oc_store ob) tid))"
      by (auto simp: agent_event_new_def)
    have "ae_turn_id (stored_event (se_codec env) ?e q now) = Some n"
      using assms(3) by (simp add: turn_id_ok_def agent_event_new_def)
    then have "n \<notin> set (tp_active_turns (apply_ae (se_codec env) (stored_event (se_codec env) ?e q now) p'))" for p'
      using assms(4) by (auto simp: apply_ae_active_turns agent_event_new_def event_class_defs)
    then have "pred_option (\<lambda>p. n \<notin> set (tp_active_turns p)) (bs_proj (oc_store ob') tid)"
      by (auto simp: p pred_option_def elim: option.set_cases)
    with p q(2) Inr show ?thesis by auto
  qed
qed

text \<open>
  C28. The API's own end of a turn goes past the orchestrator. Completing, failing or cancelling a turn over
  HTTP gives the store exactly the terminal event of the request: when the store takes it, the answer has
  its sequence number, the projection is the old one with that event applied, and the turn is no longer
  active in it; when the store refuses it, no projection changes. In both cases the queue with its slots,
  the callers that wait, the retry counters, the dispatch times the watchdog looks at, the metrics and the
  spawned jobs are what they were: the turn is over in the store and still running in the orchestrator.
\<close>

theorem api_turn_end_is_store_only:
  assumes "sv_store sv = broker_event_store env" "bs_inv (oc_store ob)"
    and "turn_end req = Some (tid, n, et, payload)" "in_i64 n" "ob' = handle_request sv req ob"
  shows "beside_store ob' = beside_store ob \<and>
    (case turn_end_response sv req ob of
       Inl x \<Rightarrow> bs_proj (oc_store ob') = bs_proj (oc_store ob)
     | Inr body \<Rightarrow> \<exists>q t now. jget ''seq'' body = Some (JInt q) \<and>
         bs_proj (oc_store ob') = (bs_proj (oc_store ob))(tid :=
           map_option (apply_ae (se_codec env) (stored_event (se_codec env)
             (agent_event_new t tid (Some n) None et payload) q now)) (bs_proj (oc_store ob) tid)) \<and>
         pred_option (\<lambda>p. n \<notin> set (tp_active_turns p)) (bs_proj (oc_store ob') tid))"
proof -
  let ?w = "write_store sv (\<lambda>es now. write_new es (agent_event_new now tid (Some n) None et payload))"
  obtain f where shape: "is_turn_terminal et"
    "ob' = snd (andThen ?w (\<lambda>event. ok (f event)) ob)"
    "turn_end_response sv req ob = fst (andThen ?w (\<lambda>event. ok (f event)) ob)"
    "\<And>event. jget ''seq'' (f event) = Some (JInt (ae_seq event))"
    using assms(3,5)
    by (cases req) (auto simp: complete_turn_handler_def fail_turn_handler_def cancel_turn_handler_def
        complete_turn_def fail_turn_def cancel_turn_def Let_def event_class_defs)
  obtain r ob1 where w: "?w ob = (r, ob1)" by fastforce
  have "ob' = ob1" "turn_end_response sv req ob = map_sum id f r"
    using shape(2,3) w by (auto simp: andThen_apply ok_def split: sum.split)
  moreover from w have "beside_store ob1 = beside_store ob"
    by (metis beside_serve snd_conv write_store_def)
  ultimately show ?thesis
    using write_store_terminal [OF assms(1,2,4) shape(1) w] shape(4) by (cases r) auto
qed

definition sample_server :: "int store server_env" where
  "sample_server =
     \<lparr>sv_orch = sample_orch_env, sv_operator_policy = capability_policy_default, sv_stream_url = None,
      sv_rfc3339 = show_int, sv_render = (\<lambda>m. [])\<rparr>"

text \<open>The caller of turn 1 still waits after the turn has been cancelled.\<close>

theorem api_turn_end_is_store_only_witness:
  "turn_end_response sample_server (CancelTurn ''t'' 1 (JObj [])) sample_orch =
     Inr (JObj [(''turn_id'', JInt 1), (''seq'', JInt 11), (''state'', JStr ''canceled'')]) \<and>
   beside_store (handle_request sample_server (CancelTurn ''t'' 1 (JObj [])) sample_orch) = beside_store sample_orch \<and>
   map_of (tg_active_turns (oc_registry sample_orch)) ''t'' \<noteq> None \<and>
   (\<exists>q t now. q = 11 \<and>
      bs_proj (oc_store (handle_request sample_server (CancelTurn ''t'' 1 (JObj [])) sample_orch)) =
        (bs_proj (sample_store Executing))(''t'' := map_option (apply_ae (sample_codec (JObj []))
          (stored_event (sample_codec (JObj [])) (agent_event_new t ''t'' (Some 1) None TurnCanceled
            (reason_payload ''user_canceled'')) q now)) (bs_proj (sample_store Executing) ''t'')))"
proof -
  have st: "oc_store sample_orch = sample_store Executing"
    and reg: "map_of (tg_active_turns (oc_registry sample_orch)) ''t'' \<noteq> None"
    by (simp_all add: sample_orch_def open_turn_def pending_turn_new_def orchestrator_new_def
        registry_new_def register_pending_turn_def)
  have sv: "sv_store sample_server = broker_event_store sample_env"
    by (simp add: sv_store_def sample_server_def sample_orch_env_def)
  have written: "fst (es_write_event (broker_event_store sample_env)
       (agent_event_new t ''t'' (Some 1) None TurnCanceled payload) (sample_store Executing)) = Inr 11" for t payload
    by (simp add: broker_event_store_def write_event_unfold well_formed_turn event_class_defs
        validate_task_event_transition_def andThen_apply now_op_def produce_op_def counting_broker_def
        sample_env_def Let_def apply_written_def event_request_def get_op_result put_op_def cache_get_def
        bs_proj_def wrap_i64_def)
  have resp: "turn_end_response sample_server (CancelTurn ''t'' 1 (JObj [])) sample_orch =
      Inr (JObj [(''turn_id'', JInt 1), (''seq'', JInt 11), (''state'', JStr ''canceled'')])"
    by (auto simp: cancel_turn_handler_def write_store_def serve_def on_store_def cancel_turn_def write_new_def
        sv andThen_apply tick_def st ok_def split: prod.split sum.split dest!: arg_cong [where f = fst] simp: written)
  have "bs_inv (oc_store sample_orch)" by (simp add: st)
  from api_turn_end_is_store_only [OF sv this _ _ refl, of "CancelTurn ''t'' 1 (JObj [])"] resp reg
  show ?thesis by (auto simp: in_i64_def st str_field_def sample_env_def)
qed

text \<open>The reports of a batch whose type is known.\<close>

lemma batch_events_ok:
  "\<forall>r \<in> set reports. event_type_from_str (ev_event_type r) \<noteq> None \<Longrightarrow>
     \<exists>events. batch_events sv tid reports ob = (Inr events, ob\<lparr>oc_ticks := oc_ticks ob + length reports\<rparr>) \<and>
       list_all2 (\<lambda>r e. ae_task_id e = tid \<and> ae_turn_id e = Some (ev_turn_id r) \<and>
          ae_step_id e = Some (ev_step_id r) \<and> event_type_from_str (ev_event_type r) = Some (ae_event_type e) \<and>
          ae_payload e = ev_payload r) reports events"
proof (induction reports arbitrary: ob)
  case (Cons r rs)
  then obtain et where et: "event_type_from_str (ev_event_type r) = Some et" by auto
  obtain events where "batch_events sv tid rs (ob\<lparr>oc_ticks := oc_ticks ob + 1\<rparr>) =
      (Inr events, ob\<lparr>oc_ticks := oc_ticks ob + 1 + length rs\<rparr>)"
    and "list_all2 (\<lambda>r e. ae_task_id e = tid \<and> ae_turn_id e = Some (ev_turn_id r) \<and>
          ae_step_id e = Some (ev_step_id r) \<and> event_type_from_str (ev_event_type r) = Some (ae_event_type e) \<and>
          ae_payload e = ev_payload r) rs events"
    using Cons.IH [of "ob\<lparr>oc_ticks := oc_ticks ob + 1\<rparr>"] Cons.prems by auto
  then show ?case
    by (simp add: et andThen_apply tick_def ok_def agent_event_new_def)
qed (simp add: ok_def)

lemma batch_events_unknown:
  "find (\<lambda>r. event_type_from_str (ev_event_type r) = None) reports = Some r \<Longrightarrow>
     \<exists>ob'. batch_events sv tid reports ob = (Inl (InvalidEventType (ev_event_type r)), ob') \<and>
       oc_store ob' = oc_store ob"
proof (induction reports arbitrary: ob)
  case (Cons x xs)
  show ?case
  proof (cases "event_type_from_str (ev_event_type x)")
    case None
    with Cons.prems show ?thesis by (simp add: err_def)
  next
    case (Some et)
    with Cons.IH [of "ob\<lparr>oc_ticks := oc_ticks ob + 1\<rparr>"] Cons.prems show ?thesis
      by (auto simp: andThen_apply tick_def)
  qed
qed simp

text \<open>
  A batch of reports is taken whole or not at all: when a type is unknown the first such type is
  named in the refusal and the store is not touched; otherwise the store gets, in one call, one event
  for each report, in their order, for the task the path names, whatever session the report names.
\<close>

theorem batch_taken_whole_or_refused:
  "case find (\<lambda>r. event_type_from_str (ev_event_type r) = None) reports of
     Some r \<Rightarrow> fst (record_events_batch_handler sv tid reports ob) = Inl (InvalidEventType (ev_event_type r)) \<and>
       oc_store (snd (record_events_batch_handler sv tid reports ob)) = oc_store ob
   | None \<Rightarrow> \<exists>events. list_all2 (\<lambda>r e. ae_task_id e = tid \<and> ae_turn_id e = Some (ev_turn_id r) \<and>
          ae_step_id e = Some (ev_step_id r) \<and> event_type_from_str (ev_event_type r) = Some (ae_event_type e) \<and>
          ae_payload e = ev_payload r) reports events \<and>
       (fst (record_events_batch_handler sv tid reports ob),
        oc_store (snd (record_events_batch_handler sv tid reports ob))) =
       es_write_events_batch (sv_store sv) events (oc_store ob)"
proof (cases "find (\<lambda>r. event_type_from_str (ev_event_type r) = None) reports")
  case None
  then have "\<forall>r \<in> set reports. event_type_from_str (ev_event_type r) \<noteq> None"
    by (auto simp: find_None_iff)
  from batch_events_ok [OF this, of sv tid ob] None show ?thesis
    by (fastforce simp: record_events_batch_handler_def andThen_apply read_store_def on_store_def split: prod.split)
next
  case (Some r)
  from batch_events_unknown [OF this, of sv tid ob] Some show ?thesis
    by (auto simp: record_events_batch_handler_def andThen_apply)
qed

end
