(* ===== verification/Acp.thy ===== *)
theory Acp
  imports Models
begin

text \<open>
  How the fixlet speaks to an agent: the messages of the agent client protocol and their
  classification (\<open>src/bin/fixlet/acp.rs\<close>), and the two backends with the parameters of a new session
  (\<open>src/bin/fixlet/backend.rs\<close>). The JSON reader and printer are parameters.
\<close>

section \<open>Requests\<close>

record acp_request =
  aq_jsonrpc :: string
  aq_id :: "int option"
  aq_method :: string
  aq_params :: json

definition acp_request_new :: "int \<Rightarrow> string \<Rightarrow> json \<Rightarrow> acp_request" where
  "acp_request_new rid method params =
     \<lparr>aq_jsonrpc = ''2.0'', aq_id = Some rid, aq_method = method, aq_params = params\<rparr>"

definition acp_request_notification :: "string \<Rightarrow> json \<Rightarrow> acp_request" where
  "acp_request_notification method params =
     \<lparr>aq_jsonrpc = ''2.0'', aq_id = None, aq_method = method, aq_params = params\<rparr>"

text \<open>The value \<open>to_json\<close> prints: an absent id is left out.\<close>

definition acp_request_json :: "acp_request \<Rightarrow> json" where
  "acp_request_json r =
     JObj ([(''jsonrpc'', JStr (aq_jsonrpc r))] @
           (case aq_id r of Some n \<Rightarrow> [(''id'', JInt n)] | None \<Rightarrow> []) @
           [(''method'', JStr (aq_method r)), (''params'', aq_params r)])"

datatype prompt_block = PromptText string | PromptResource json

definition prompt_user :: "string \<Rightarrow> prompt_block" where
  "prompt_user txt = PromptText (''user: '' @ txt)"

definition prompt_system :: "string \<Rightarrow> prompt_block" where
  "prompt_system txt = PromptText (''system: '' @ txt)"

definition prompt_assistant :: "string \<Rightarrow> prompt_block" where
  "prompt_assistant txt = PromptText (''assistant: '' @ txt)"

fun prompt_json :: "prompt_block \<Rightarrow> json" where
  "prompt_json (PromptText txt) = JObj [(''type'', JStr ''text''), (''text'', JStr txt)]"
| "prompt_json (PromptResource r) = JObj [(''type'', JStr ''resource''), (''resource'', r)]"

record acp_tool_definition =
  ad_name :: string
  ad_description :: string
  ad_input_schema :: json

definition acp_tool_json :: "acp_tool_definition \<Rightarrow> json" where
  "acp_tool_json t = JObj [(''name'', JStr (ad_name t)), (''description'', JStr (ad_description t)),
     (''inputSchema'', ad_input_schema t)]"

text \<open>\<open>protocol::ToolDefinition\<close>, the tools of a dispatch record.\<close>

record tool_definition =
  tdn_name :: string
  tdn_description :: string
  tdn_parameters :: json

definition build_acp_tools :: "tool_definition list \<Rightarrow> acp_tool_definition list" where
  "build_acp_tools tools =
     map (\<lambda>t. \<lparr>ad_name = tdn_name t, ad_description = tdn_description t, ad_input_schema = tdn_parameters t\<rparr>) tools"

fun history_block :: "message \<Rightarrow> prompt_block list" where
  "history_block m =
     (if msg_role m = ''user'' then [prompt_user (msg_content m)]
      else if msg_role m = ''assistant'' then [prompt_assistant (msg_content m)]
      else if msg_role m = ''tool'' then [prompt_system (''[tool result] '' @ msg_content m)]
      else [])"

definition build_acp_prompt :: "string \<Rightarrow> message list \<Rightarrow> string \<Rightarrow> prompt_block list" where
  "build_acp_prompt summary messages user_input =
     (if summary \<noteq> [] then [prompt_system (''Previous conversation summary:'' @ [CHR 0x0A] @ summary)] else []) @
     concat (map history_block messages) @ [prompt_user user_input]"

section \<open>The client\<close>

text \<open>
  A client numbers its requests and writes them to the agent's input, when it has one. An operation
  gives the client with the requests it writes; every request is one line.
\<close>

record acp_client =
  ac_next_id :: int
  ac_session_id :: string
  ac_stdin :: "nat option"      \<comment> \<open>the agent whose input it is\<close>

definition acp_client_new :: "string \<Rightarrow> acp_client" where
  "acp_client_new session_id = \<lparr>ac_next_id = 1, ac_session_id = session_id, ac_stdin = None\<rparr>"

definition set_stdin_tx :: "nat \<Rightarrow> acp_client \<Rightarrow> acp_client" where
  "set_stdin_tx tx c = c\<lparr>ac_stdin := Some tx\<rparr>"

definition next_req_id :: "acp_client \<Rightarrow> int \<times> acp_client" where
  "next_req_id c = (ac_next_id c, c\<lparr>ac_next_id := add_i64 (ac_next_id c) 1\<rparr>)"

definition client_send :: "json \<Rightarrow> acp_client \<Rightarrow> (nat \<times> json) list" where
  "client_send msg c = (case ac_stdin c of Some tx \<Rightarrow> [(tx, msg)] | None \<Rightarrow> [])"

definition client_request :: "string \<Rightarrow> json \<Rightarrow> acp_client \<Rightarrow> acp_client \<times> (nat \<times> json) list" where
  "client_request method params c =
     (case next_req_id c of
        (rid, c') \<Rightarrow> (c', client_send (acp_request_json (acp_request_new rid method params)) c'))"

definition client_initialize :: "acp_client \<Rightarrow> acp_client \<times> (nat \<times> json) list" where
  "client_initialize = client_request ''initialize'' (JObj
     [(''protocolVersion'', JInt 1),
      (''clientInfo'', JObj [(''name'', JStr ''fixlet''), (''version'', JStr ''0.1.0'')]),
      (''capabilities'', JObj [(''tools'', JBool True), (''terminal'', JBool True), (''fileSystem'', JBool True)])])"

definition opt_str :: "string option \<Rightarrow> json" where
  "opt_str x = (case x of Some s \<Rightarrow> JStr s | None \<Rightarrow> JNull)"

text \<open>\<open>model\<close> is the variable \<open>ANTHROPIC_MODEL\<close>.\<close>

definition client_session_new :: "string option \<Rightarrow> string option \<Rightarrow> acp_client \<Rightarrow> acp_client \<times> (nat \<times> json) list" where
  "client_session_new model cwd = client_request ''session/new'' (JObj
     [(''cwd'', opt_str cwd), (''env'', JNull), (''model'', opt_str model)])"

definition client_session_prompt ::
  "string \<Rightarrow> prompt_block list \<Rightarrow> acp_tool_definition list \<Rightarrow> acp_client \<Rightarrow> acp_client \<times> (nat \<times> json) list" where
  "client_session_prompt session_id prompt tools = client_request ''session/prompt'' (JObj
     [(''sessionId'', JStr session_id), (''prompt'', JArr (map prompt_json prompt)),
      (''tools'', JArr (map acp_tool_json tools))])"

definition client_session_cancel :: "string \<Rightarrow> acp_client \<Rightarrow> acp_client \<times> (nat \<times> json) list" where
  "client_session_cancel session_id = client_request ''session/cancel'' (JObj [(''sessionId'', JStr session_id)])"

definition client_send_ping :: "acp_client \<Rightarrow> acp_client \<times> (nat \<times> json) list" where
  "client_send_ping = client_request ''ping'' JNull"

section \<open>What the agent says\<close>

record tool_call_event =
  te_session_id :: "string option"
  te_tool_call_id :: string
  te_name :: string
  te_arguments :: json

record llm_usage =
  lu_input_tokens :: int
  lu_output_tokens :: int
  lu_total_tokens :: int
  lu_cached_read_tokens :: int
  lu_cached_write_tokens :: int

datatype parsed_acp_event =
    ToolCallRequest tool_call_event
  | MessageChunk string
  | ThoughtChunk string
  | FinalMessage "llm_usage option"
  | AgentError string
  | OtherMessage json

text \<open>
  Reading a tool call: an absent or null session id is none; a struct may be written as an array of its
  fields.
\<close>

fun optional_str :: "json option \<Rightarrow> string option option" where
  "optional_str None = Some None"
| "optional_str (Some JNull) = Some None"
| "optional_str (Some (JStr s)) = Some (Some s)"
| "optional_str (Some _) = None"

fun tool_call_of_json :: "json \<Rightarrow> tool_call_event option" where
  "tool_call_of_json (JArr [sid, JStr cid, JStr name, args]) =
     map_option (\<lambda>s. \<lparr>te_session_id = s, te_tool_call_id = cid, te_name = name, te_arguments = args\<rparr>)
       (optional_str (Some sid))"
| "tool_call_of_json j =
     (case (optional_str (jget ''sessionId'' j), Option.bind (jget ''toolCallId'' j) as_str,
            Option.bind (jget ''name'' j) as_str, jget ''arguments'' j) of
        (Some s, Some cid, Some name, Some args) \<Rightarrow>
          Some \<lparr>te_session_id = s, te_tool_call_id = cid, te_name = name, te_arguments = args\<rparr>
      | _ \<Rightarrow> None)"

definition content_text :: "json \<Rightarrow> string" where
  "content_text update = unwrap_or [] (Option.bind (Option.bind (jget ''content'' update) (jget ''text'')) as_str)"

text \<open>
  The part on \<open>method\<close>: \<open>Some r\<close> when the function returns \<open>r\<close> there, \<open>None\<close> when it goes on to look for a
  response.
\<close>

definition parse_notification :: "json \<Rightarrow> parsed_acp_event option option" where
  "parse_notification v =
     (let method = Option.bind (jget ''method'' v) as_str
      in if method = Some ''session/update'' then
           (case Option.bind (jget ''params'' v) (jget ''update'') of
              None \<Rightarrow> Some None
            | Some update \<Rightarrow>
                (case Option.bind (jget ''sessionUpdate'' update) as_str of
                   None \<Rightarrow> Some None
                 | Some ty \<Rightarrow>
                     if ty = ''agent_message_chunk'' then Some (Some (MessageChunk (content_text update)))
                     else if ty = ''agent_thought_chunk'' then Some (Some (ThoughtChunk (content_text update)))
                     else if ty = ''tool_call'' \<or> ty = ''tool_call_update'' then
                       map_option (\<lambda>tc. Some (ToolCallRequest tc)) (tool_call_of_json update)
                     else if ty = ''available_commands_update'' \<or> ty = ''usage_update'' then
                       Some (Some (OtherMessage v))
                     else None))
         else if method = Some ''tool_call'' then
           map_option (\<lambda>tc. Some (ToolCallRequest tc))
             (tool_call_of_json (unwrap_or JNull (jget ''params'' v)))
         else None)"

definition usage_of :: "json \<Rightarrow> llm_usage" where
  "usage_of u =
     \<lparr>lu_input_tokens = i64_field ''inputTokens'' 0 u, lu_output_tokens = i64_field ''outputTokens'' 0 u,
      lu_total_tokens = i64_field ''totalTokens'' 0 u, lu_cached_read_tokens = i64_field ''cachedReadTokens'' 0 u,
      lu_cached_write_tokens = i64_field ''cachedWriteTokens'' 0 u\<rparr>"

definition parse_response :: "json \<Rightarrow> parsed_acp_event" where
  "parse_response v =
     (case jget ''result'' v of
        Some result \<Rightarrow>
          if Option.bind (jget ''stopReason'' result) as_str = Some ''end_turn''
          then FinalMessage (map_option usage_of (jget ''usage'' result))
          else OtherMessage v
      | None \<Rightarrow>
          (case jget ''error'' v of
             Some e \<Rightarrow> AgentError (str_field ''message'' ''Unknown ACP error'' e)
           | None \<Rightarrow> OtherMessage v))"

definition parse_acp_message :: "(string \<Rightarrow> json option) \<Rightarrow> string \<Rightarrow> parsed_acp_event option" where
  "parse_acp_message parse msg =
     (case parse msg of
        None \<Rightarrow> None
      | Some v \<Rightarrow> (case parse_notification v of Some r \<Rightarrow> r | None \<Rightarrow> Some (parse_response v)))"

section \<open>Backends\<close>

record spawn_spec =
  sn_command :: string
  sn_env :: "(string \<times> string) list"

datatype agent_backend =
    ClaudeCodeBackend string
  | GenericAcpBackend string string      \<comment> \<open>command, path of the model in the answer\<close>

definition native_claude_tools :: "string list" where
  "native_claude_tools =
     [''Bash'', ''Read'', ''Write'', ''Edit'', ''MultiEdit'', ''Glob'', ''Grep'', ''NotebookEdit'', ''TodoWrite'',
      ''WebSearch'', ''WebFetch'', ''Task'', ''Agent'', ''BashOutput'', ''KillShell'', ''ExitPlanMode'']"

fun json_path_segs :: "json \<Rightarrow> string list \<Rightarrow> json option" where
  "json_path_segs v [] = Some v"
| "json_path_segs v (seg # segs) = Option.bind (jget seg v) (\<lambda>w. json_path_segs w segs)"

definition json_path_str :: "json \<Rightarrow> string \<Rightarrow> string option" where
  "json_path_str v path = Option.bind (json_path_segs v (split_on CHR ''.'' path)) as_str"

fun backend_name :: "agent_backend \<Rightarrow> string" where
  "backend_name (ClaudeCodeBackend _) = ''claude-code''"
| "backend_name (GenericAcpBackend _ _) = ''generic''"

fun backend_spawn_spec :: "agent_backend \<Rightarrow> spawn_spec" where
  "backend_spawn_spec (ClaudeCodeBackend cmd) = \<lparr>sn_command = cmd, sn_env = []\<rparr>"
| "backend_spawn_spec (GenericAcpBackend cmd _) = \<lparr>sn_command = cmd, sn_env = []\<rparr>"

fun session_new_extra :: "agent_backend \<Rightarrow> json" where
  "session_new_extra (ClaudeCodeBackend _) =
     JObj [(''_meta'', JObj [(''claudeCode'', JObj [(''options'', JObj
       [(''disallowedTools'', JArr (map JStr native_claude_tools))])])])]"
| "session_new_extra (GenericAcpBackend _ _) = JNull"

fun extract_model :: "agent_backend \<Rightarrow> json \<Rightarrow> string option" where
  "extract_model (ClaudeCodeBackend _) r =
     Option.bind (Option.bind (jget ''models'' r) (jget ''currentModelId'')) as_str"
| "extract_model (GenericAcpBackend _ path) r = json_path_str r path"

definition select_backend :: "(string \<rightharpoonup> string) \<Rightarrow> string \<Rightarrow> agent_backend" where
  "select_backend var name =
     (let cmd = unwrap_or ''claude-agent-acp'' (var ''AGENT_COMMAND'')
      in if name = ''generic''
         then GenericAcpBackend cmd (unwrap_or ''models.currentModelId'' (var ''MODEL_JSON_PATH''))
         else ClaudeCodeBackend cmd)"

definition backend_from_env :: "(string \<rightharpoonup> string) \<Rightarrow> agent_backend" where
  "backend_from_env var = select_backend var (unwrap_or ''claude-code'' (var ''FIXLET_BACKEND''))"

definition header_json :: "string \<times> string \<Rightarrow> json" where
  "header_json h = JObj [(''name'', JStr (fst h)), (''value'', JStr (snd h))]"

definition session_headers :: "string \<Rightarrow> int \<Rightarrow> string option \<Rightarrow> (string \<times> string) list" where
  "session_headers task_id turn_id effective_policy =
     [(''X-Fixus-Session-Id'', task_id), (''X-Fixus-Turn-Id'', show_int turn_id)] @
     (case effective_policy of Some p \<Rightarrow> [(''X-Fixus-Policy'', p)] | None \<Rightarrow> [])"

definition build_session_new_params ::
  "agent_backend \<Rightarrow> string \<Rightarrow> string \<Rightarrow> string \<Rightarrow> int \<Rightarrow> string option \<Rightarrow> json" where
  "build_session_new_params backend task_id cwd tools_bank_url turn_id effective_policy =
     (let params = JObj
            [(''cwd'', JStr cwd),
             (''mcpServers'', JArr [JObj
               [(''type'', JStr ''http''), (''name'', JStr ''fixus''), (''url'', JStr tools_bank_url),
                (''headers'', JArr (map header_json (session_headers task_id turn_id effective_policy)))]])]
      in case session_new_extra backend of
           JObj obj \<Rightarrow> fold (\<lambda>(k, v) p. jset k v p) obj params
         | _ \<Rightarrow> params)"

definition build_session_new_request :: "int \<Rightarrow> json \<Rightarrow> json" where
  "build_session_new_request req_id params =
     JObj [(''jsonrpc'', JStr ''2.0''), (''id'', JInt req_id), (''method'', JStr ''session/new''),
           (''params'', params)]"

end
