(* ===== verification/Fixlet.thy ===== *)
theory Fixlet
  imports Acp Broker_Store Consumer_Group
begin

text \<open>
  The fixlet (\<open>src/bin/fixlet/router.rs\<close>, \<open>idempotency.rs\<close> and \<open>main.rs\<close>): it claims turns from the broker,
  has an agent process work on them one prompt at a time, and reports what happens as records of the
  stream \<open>task-end\<close>. The broker, the spawning of processes, the JSON library and the identifiers are
  parameters; what the agent writes comes in as events.
\<close>

section \<open>The turn in work\<close>

record local_seq_counter =
  ls_current :: int

definition local_seq_new :: local_seq_counter where
  "local_seq_new = \<lparr>ls_current = 0\<rparr>"

definition local_seq_next :: "local_seq_counter \<Rightarrow> int \<times> local_seq_counter" where
  "local_seq_next c = (let n = add_i64 (ls_current c) 1 in (n, c\<lparr>ls_current := n\<rparr>))"

definition local_seq_reset :: "local_seq_counter \<Rightarrow> local_seq_counter" where
  "local_seq_reset c = c\<lparr>ls_current := 0\<rparr>"

record turn_context =
  tc_task_id :: string
  tc_turn_id :: int
  tc_redo_group :: string
  tc_redo_count :: int
  tc_local_seq :: local_seq_counter
  tc_model :: string
  tc_step_id :: "string option"

definition turn_context_new :: "string \<Rightarrow> int \<Rightarrow> string \<Rightarrow> int \<Rightarrow> turn_context" where
  "turn_context_new task_id turn_id redo_group redo_count =
     \<lparr>tc_task_id = task_id, tc_turn_id = turn_id, tc_redo_group = redo_group, tc_redo_count = redo_count,
      tc_local_seq = local_seq_new, tc_model = [], tc_step_id = None\<rparr>"

text \<open>The pieces of the answer.\<close>

record message_accumulator =
  ma_chunks :: "string list"

definition accumulator_new :: message_accumulator where
  "accumulator_new = \<lparr>ma_chunks = []\<rparr>"

definition accumulator_append :: "string \<Rightarrow> message_accumulator \<Rightarrow> message_accumulator" where
  "accumulator_append chunk m = m\<lparr>ma_chunks := ma_chunks m @ [chunk]\<rparr>"

definition accumulator_finalize :: "message_accumulator \<Rightarrow> string" where
  "accumulator_finalize m = concat (ma_chunks m)"

definition accumulator_reset :: "message_accumulator \<Rightarrow> message_accumulator" where
  "accumulator_reset m = m\<lparr>ma_chunks := []\<rparr>"

text \<open>The stream turns are claimed from, and the consumer group.\<close>

definition stream_and_group_for :: "string \<Rightarrow> string \<times> string" where
  "stream_and_group_for task_type =
     (let sanitized = map (\<lambda>c. if c = CHR ''.'' then CHR ''-'' else c) task_type
      in (''task-begin-'' @ sanitized, ''fixlets-'' @ sanitized))"

record fixlet_config =
  fg_task_type :: string
  fg_backend :: agent_backend
  fg_agent_cwd :: "string option"

definition fixlet_config_from_env :: "(string \<rightharpoonup> string) \<Rightarrow> fixlet_config" where
  "fixlet_config_from_env var =
     \<lparr>fg_task_type = unwrap_or ''default'' (var ''FIXUS_AGENT_TYPE''), fg_backend = backend_from_env var,
      fg_agent_cwd = var ''AGENT_CWD''\<rparr>"

section \<open>Claiming turns\<close>

text \<open>
  Handling one record of the claim stream on the list of payloads handed to the main loop: anything but
  a dispatch is passed over and not committed. The commit and the hand-over ignore their errors.
\<close>

definition claim_record :: "(string \<Rightarrow> json option) \<Rightarrow> group_record \<Rightarrow> ('e, json list, bool) opn" where
  "claim_record parse rec handed =
     (if gr_event_type rec \<noteq> ''execute_turn'' then (Inr False, handed)
      else (Inr True, handed @ [unwrap_or JNull (parse (gr_content rec))]))"

definition claim_turns ::
  "(string \<Rightarrow> json option) \<Rightarrow> group_frame list \<Rightarrow> ('e, json list, bool \<times> (nat \<times> int) list) opn" where
  "claim_turns parse fs = consume (claim_record parse) 0 [] fs"

text \<open>The task around it, for the life of the process: joining again after every session.\<close>

definition turn_claim_subscriber ::
  "(string \<Rightarrow> json option) \<Rightarrow> group_session list
    \<Rightarrow> ('e, json list, (bool \<times> (nat \<times> int) list) list) opn" where
  "turn_claim_subscriber parse granted = rejoin (claim_record parse) granted"

section \<open>The dispatch record\<close>

record parsed_execute_turn =
  pe_task_id :: string
  pe_turn_id :: int
  pe_user_input :: string
  pe_redo_group :: string
  pe_redo_count :: int
  pe_summary :: string
  pe_messages :: "message list"
  pe_effective_policy :: "json option"

definition parse_execute_turn_payload :: "json \<Rightarrow> string + parsed_execute_turn" where
  "parse_execute_turn_payload payload =
     (let task_id = str_field ''session_id'' [] payload;
          turn_id = i64_field ''turn_id'' 0 payload
      in if task_id = [] \<or> turn_id = 0 then Inl ''missing session_id or turn_id''
         else Inr
           \<lparr>pe_task_id = task_id, pe_turn_id = turn_id,
            pe_user_input = unwrap_or [] (Option.bind (Option.bind (jget ''input'' payload) (jget ''user_input'')) as_str),
            pe_redo_group = str_field ''redo_group'' [] payload,
            pe_redo_count = wrap_i32 (i64_field ''redo_count'' 0 payload),
            pe_summary = unwrap_or [] (Option.bind (Option.bind (jget ''context'' payload) (jget ''summary'')) as_str),
            pe_messages = unwrap_or []
              (messages_of_json (unwrap_or JNull (Option.bind (jget ''context'' payload) (jget ''messages'')))),
            pe_effective_policy = jget ''effective_policy'' payload\<rparr>)"

section \<open>Reports\<close>

definition fixlet_llm_invoked_payload ::
  "string \<Rightarrow> int \<Rightarrow> string \<Rightarrow> string \<Rightarrow> message list \<Rightarrow> int \<Rightarrow> json" where
  "fixlet_llm_invoked_payload task_id turn_id step_id model messages local_seq =
     JObj [(''task_id'', JStr task_id), (''turn_id'', JInt turn_id), (''step_id'', JStr step_id),
           (''model'', JStr model), (''messages'', JArr (map message_json messages)),
           (''local_seq'', JInt local_seq), (''event_type'', JStr ''llm_invoked'')]"

definition fixlet_llm_completed_payload ::
  "string \<Rightarrow> int \<Rightarrow> string \<Rightarrow> string \<Rightarrow> (int \<times> int \<times> int) option \<Rightarrow> int \<Rightarrow> json" where
  "fixlet_llm_completed_payload task_id turn_id step_id model usage local_seq =
     (case unwrap_or (0, 0, 0) usage of
        (input_tokens, output_tokens, total_tokens) \<Rightarrow>
          JObj [(''task_id'', JStr task_id), (''turn_id'', JInt turn_id), (''step_id'', JStr step_id),
                (''model'', JStr model), (''input_tokens'', JInt input_tokens),
                (''output_tokens'', JInt output_tokens), (''total_tokens'', JInt total_tokens),
                (''local_seq'', JInt local_seq), (''event_type'', JStr ''llm_completed'')])"

definition fixlet_llm_failed_payload :: "string \<Rightarrow> int \<Rightarrow> string \<Rightarrow> string \<Rightarrow> string \<Rightarrow> int \<Rightarrow> json" where
  "fixlet_llm_failed_payload task_id turn_id step_id error_type error_message local_seq =
     JObj [(''task_id'', JStr task_id), (''turn_id'', JInt turn_id), (''step_id'', JStr step_id),
           (''error_type'', JStr error_type), (''error_message'', JStr error_message),
           (''local_seq'', JInt local_seq), (''event_type'', JStr ''llm_failed'')]"

definition turn_done_payload :: "string \<Rightarrow> int \<Rightarrow> int \<Rightarrow> string \<Rightarrow> json" where
  "turn_done_payload task_id turn_id max_local_seq final_output =
     JObj [(''task_id'', JStr task_id), (''turn_id'', JInt turn_id), (''max_local_seq'', JInt max_local_seq),
           (''final_output'', JStr final_output), (''event_type'', JStr ''turn_execution_done'')]"

definition turn_error_payload :: "string \<Rightarrow> int \<Rightarrow> string \<Rightarrow> string \<Rightarrow> json" where
  "turn_error_payload task_id turn_id error_type error_message =
     JObj [(''task_id'', JStr task_id), (''turn_id'', JInt turn_id), (''error_type'', JStr error_type),
           (''error_message'', JStr error_message), (''event_type'', JStr ''turn_execution_error'')]"

section \<open>State and environment\<close>

text \<open>
  Agents are numbered. The handles of the running agent are kept one by one, as in the code. The lines
  written to an agent, the records the broker took and the messages published are kept in order.
\<close>

record fixlet =
  fx_active_turn :: "turn_context option"
  fx_agent_stdin :: "nat option"
  fx_agent_stdout :: "nat option"
  fx_agent_child :: "nat option"
  fx_msg_accumulator :: message_accumulator
  fx_next_agent :: nat
  fx_written :: "(nat \<times> string) list"
  fx_produced :: "produce_request list"
  fx_published :: "(string \<times> string) list"
  fx_ticks :: nat

definition fixlet_new :: fixlet where
  "fixlet_new = \<lparr>fx_active_turn = None, fx_agent_stdin = None, fx_agent_stdout = None, fx_agent_child = None,
     fx_msg_accumulator = accumulator_new, fx_next_agent = 0, fx_written = [], fx_produced = [],
     fx_published = [], fx_ticks = 0\<rparr>"

record fixlet_env =
  fe_config :: fixlet_config
  fe_namespace :: string
  fe_print :: "json \<Rightarrow> string"
  fe_parse :: "string \<Rightarrow> json option"
  fe_uuid :: "nat \<Rightarrow> string"
  fe_broker :: "nat \<Rightarrow> produce_request \<Rightarrow> string option"      \<comment> \<open>the error, if any\<close>
  fe_spawn :: "nat \<Rightarrow> spawn_spec \<Rightarrow> string option \<Rightarrow> bool"      \<comment> \<open>command and directory\<close>
  fe_redis :: bool
  fe_tools_bank_url :: "string option"      \<comment> \<open>the variable \<open>TOOLS_BANK_URL\<close>\<close>

definition task_end_request :: "fixlet_env \<Rightarrow> string \<Rightarrow> string \<Rightarrow> json \<Rightarrow> produce_request" where
  "task_end_request env task_id event_type payload =
     \<lparr>pq_namespace = fe_namespace env, pq_stream = ''task-end'', pq_event_type = event_type,
      pq_timestamp_ns = 0, pq_content_type = ''application/json'',
      pq_metadata = [(''task_id'', task_id), (''event_type'', event_type)],
      pq_content = fe_print env payload, pq_shard_key = Some task_id\<rparr>"

text \<open>A record for \<open>task-end\<close>; that the broker refused it is only logged.\<close>

definition emit_lifecycle :: "fixlet_env \<Rightarrow> string \<Rightarrow> string \<Rightarrow> json \<Rightarrow> fixlet \<Rightarrow> fixlet" where
  "emit_lifecycle env task_id event_type payload s =
     (let req = task_end_request env task_id event_type payload;
          s' = s\<lparr>fx_ticks := fx_ticks s + 1\<rparr>
      in case fe_broker env (fx_ticks s) req of
           Some _ \<Rightarrow> s' | None \<Rightarrow> s'\<lparr>fx_produced := fx_produced s' @ [req]\<rparr>)"

definition emit_turn_error :: "fixlet_env \<Rightarrow> string \<Rightarrow> int \<Rightarrow> string \<Rightarrow> string \<Rightarrow> fixlet \<Rightarrow> fixlet" where
  "emit_turn_error env task_id turn_id error_type error_message =
     emit_lifecycle env task_id ''turn_execution_error'' (turn_error_payload task_id turn_id error_type error_message)"

definition write_lines :: "fixlet_env \<Rightarrow> (nat \<times> json) list \<Rightarrow> fixlet \<Rightarrow> fixlet" where
  "write_lines env msgs s = s\<lparr>fx_written := fx_written s @ map (\<lambda>(a, m). (a, fe_print env m)) msgs\<rparr>"

section \<open>A turn begins\<close>

text \<open>Spawning, and the first request to the new agent.\<close>

definition spawn_agent :: "fixlet_env \<Rightarrow> fixlet \<Rightarrow> nat option \<times> fixlet" where
  "spawn_agent env s =
     (let s' = s\<lparr>fx_ticks := fx_ticks s + 1\<rparr>
      in if fe_spawn env (fx_ticks s) (backend_spawn_spec (fg_backend (fe_config env))) (fg_agent_cwd (fe_config env))
         then (Some (fx_next_agent s), s'\<lparr>fx_next_agent := fx_next_agent s + 1\<rparr>)
         else (None, s'))"

definition ensure_agent :: "fixlet_env \<Rightarrow> string \<Rightarrow> fixlet \<Rightarrow> bool \<times> fixlet" where
  "ensure_agent env task_id s =
     (case fx_agent_child s of
        Some _ \<Rightarrow> (True, s)
      | None \<Rightarrow>
          (case spawn_agent env s of
             (None, s') \<Rightarrow> (False, s')
           | (Some a, s') \<Rightarrow>
               (True, write_lines env (snd (client_initialize (set_stdin_tx a (acp_client_new task_id))))
                        (s'\<lparr>fx_agent_stdin := Some a, fx_agent_stdout := Some a, fx_agent_child := Some a\<rparr>))))"

text \<open>
  The wait for the answer to \<open>session/new\<close>, over the lines the agent writes; then its output is closed,
  or it says nothing more.
\<close>

datatype session_reply = SessionCreated string json | StdoutClosed | NoReply

fun await_session :: "(string \<Rightarrow> json option) \<Rightarrow> int \<Rightarrow> string list \<Rightarrow> bool \<Rightarrow> session_reply" where
  "await_session parse req_id [] closed = (if closed then StdoutClosed else NoReply)"
| "await_session parse req_id (line # lines) closed =
     (case parse line of
        Some v \<Rightarrow>
          if Option.bind (jget ''id'' v) as_i64 = Some req_id then
            (case Option.bind (Option.bind (jget ''result'' v) (jget ''sessionId'')) as_str of
               Some sid \<Rightarrow> SessionCreated sid (unwrap_or JNull (jget ''result'' v))
             | None \<Rightarrow> await_session parse req_id lines closed)
          else await_session parse req_id lines closed
      | None \<Rightarrow> await_session parse req_id lines closed)"

definition full_input :: "parsed_execute_turn \<Rightarrow> string" where
  "full_input p =
     pe_user_input p @
     (if pe_redo_count p > 0
      then [CHR 0x0A] @ ''[fixus] This is a retry (redo_count='' @ show_int (pe_redo_count p) @
           '', redo_group='' @ pe_redo_group p @ '').''
      else [])"

text \<open>The session exists: the turn gets its step, which is reported before the prompt is written.\<close>

definition send_prompt ::
  "fixlet_env \<Rightarrow> parsed_execute_turn \<Rightarrow> acp_client \<Rightarrow> string \<Rightarrow> json \<Rightarrow> fixlet \<Rightarrow> fixlet" where
  "send_prompt env p acp sid result s =
     (let model = unwrap_or [] (extract_model (fg_backend (fe_config env)) result);
          ctx = turn_context_new (pe_task_id p) (pe_turn_id p) (pe_redo_group p) (pe_redo_count p);
          step_id = fe_uuid env (fx_ticks s);
          (invoked_seq, counter) = local_seq_next (tc_local_seq ctx);
          ctx = ctx\<lparr>tc_model := model, tc_step_id := Some step_id, tc_local_seq := counter\<rparr>;
          s = s\<lparr>fx_ticks := fx_ticks s + 1, fx_active_turn := Some ctx\<rparr>;
          s = emit_lifecycle env (pe_task_id p) ''llm_invoked''
                (fixlet_llm_invoked_payload (pe_task_id p) (pe_turn_id p) step_id model (pe_messages p) invoked_seq) s
      in write_lines env
           (snd (client_session_prompt sid (build_acp_prompt (pe_summary p) (pe_messages p) (full_input p)) [] acp)) s)"

text \<open>\<open>UnwrapOnNone\<close> is a panic, \<open>AgentSilent\<close> a wait that does not end.\<close>

datatype fixlet_error = BadPayload string | UnwrapOnNone | AgentSilent

definition open_session ::
  "fixlet_env \<Rightarrow> parsed_execute_turn \<Rightarrow> string list \<Rightarrow> bool \<Rightarrow> (fixlet_error, fixlet, unit) opn" where
  "open_session env p lines closed s =
     (case fx_agent_stdin s of
        None \<Rightarrow> (Inl UnwrapOnNone, s)
      | Some tx \<Rightarrow>
          (let (session_new_id, acp) = next_req_id (set_stdin_tx tx (acp_client_new (pe_task_id p)));
               params = build_session_new_params (fg_backend (fe_config env)) (pe_task_id p)
                          (unwrap_or ''/tmp'' (fg_agent_cwd (fe_config env)))
                          (unwrap_or ''http://127.0.0.1:3001/mcp'' (fe_tools_bank_url env))
                          (pe_turn_id p) (map_option (fe_print env) (pe_effective_policy p));
               s = write_lines env (client_send (build_session_new_request session_new_id params) acp) s
           in case fx_agent_stdout s of
                None \<Rightarrow> (Inl UnwrapOnNone, s)
              | Some _ \<Rightarrow>
                  (case await_session (fe_parse env) session_new_id lines closed of
                     NoReply \<Rightarrow> (Inl AgentSilent, s)
                   | StdoutClosed \<Rightarrow>
                       (Inr (), emit_turn_error env (pe_task_id p) (pe_turn_id p) ''session_create_failed''
                                  ''Agent closed stdout during session/new''
                                  (s\<lparr>fx_agent_stdin := None, fx_agent_stdout := None, fx_agent_child := None\<rparr>))
                   | SessionCreated sid result \<Rightarrow> (Inr (), send_prompt env p acp sid result s))))"

definition handle_execute_turn ::
  "fixlet_env \<Rightarrow> json \<Rightarrow> string list \<Rightarrow> bool \<Rightarrow> (fixlet_error, fixlet, unit) opn" where
  "handle_execute_turn env payload lines closed s =
     (case parse_execute_turn_payload payload of
        Inl e \<Rightarrow> (Inl (BadPayload e), s)
      | Inr p \<Rightarrow>
          (let s = s\<lparr>fx_msg_accumulator := accumulator_reset (fx_msg_accumulator s),
                     fx_active_turn := Some (turn_context_new (pe_task_id p) (pe_turn_id p) (pe_redo_group p)
                                               (pe_redo_count p))\<rparr>
           in case ensure_agent env (pe_task_id p) s of
                (False, s) \<Rightarrow>
                  (Inr (), emit_turn_error env (pe_task_id p) (pe_turn_id p) ''agent_spawn_failed''
                             ''Failed to spawn agent process'' s)
              | (True, s) \<Rightarrow> open_session env p lines closed s))"

section \<open>The agent writes a line\<close>

definition publish_chunk :: "fixlet_env \<Rightarrow> turn_context \<Rightarrow> string \<Rightarrow> fixlet \<Rightarrow> fixlet" where
  "publish_chunk env ctx chunk s =
     (if fe_redis env
      then s\<lparr>fx_published := fx_published s @
               [(''fixus:token:'' @ tc_task_id ctx,
                 fe_print env (JObj [(''task_id'', JStr (tc_task_id ctx)), (''turn_id'', JInt (tc_turn_id ctx)),
                                     (''text'', JStr chunk)]))]\<rparr>
      else s)"

text \<open>A step event of the turn, numbered, when the turn has a step.\<close>

definition emit_step ::
  "fixlet_env \<Rightarrow> string \<Rightarrow> (turn_context \<Rightarrow> string \<Rightarrow> int \<Rightarrow> json) \<Rightarrow> turn_context \<Rightarrow> fixlet \<Rightarrow> turn_context \<times> fixlet" where
  "emit_step env event_type payload ctx s =
     (case tc_step_id ctx of
        None \<Rightarrow> (ctx, s)
      | Some step_id \<Rightarrow>
          (let (n, counter) = local_seq_next (tc_local_seq ctx); ctx = ctx\<lparr>tc_local_seq := counter\<rparr>
           in (ctx, emit_lifecycle env (tc_task_id ctx) event_type (payload ctx step_id n)
                      (s\<lparr>fx_active_turn := Some ctx\<rparr>))))"

definition usage_tuple :: "llm_usage \<Rightarrow> int \<times> int \<times> int" where
  "usage_tuple u = (lu_input_tokens u, lu_output_tokens u, lu_total_tokens u)"

definition handle_agent_message :: "fixlet_env \<Rightarrow> string \<Rightarrow> turn_context \<Rightarrow> fixlet \<Rightarrow> fixlet" where
  "handle_agent_message env txt ctx s =
     (case parse_acp_message (fe_parse env) txt of
        Some (MessageChunk chunk) \<Rightarrow>
          publish_chunk env ctx chunk
            (s\<lparr>fx_msg_accumulator := accumulator_append chunk (fx_msg_accumulator s)\<rparr>)
      | Some (FinalMessage usage) \<Rightarrow>
          (let final_text = accumulator_finalize (fx_msg_accumulator s);
               (ctx, s) = emit_step env ''llm_completed''
                  (\<lambda>ctx step_id n. fixlet_llm_completed_payload (tc_task_id ctx) (tc_turn_id ctx) step_id (tc_model ctx)
                     (map_option usage_tuple usage) n) ctx s
           in emit_lifecycle env (tc_task_id ctx) ''turn_execution_done''
                (turn_done_payload (tc_task_id ctx) (tc_turn_id ctx) (ls_current (tc_local_seq ctx)) final_text) s)
      | Some (AgentError e) \<Rightarrow>
          snd (emit_step env ''llm_failed''
            (\<lambda>ctx step_id n. fixlet_llm_failed_payload (tc_task_id ctx) (tc_turn_id ctx) step_id ''agent_error'' e n) ctx s)
      | _ \<Rightarrow> s)"

section \<open>The main loop\<close>

definition on_agent_line :: "fixlet_env \<Rightarrow> string \<Rightarrow> fixlet \<Rightarrow> fixlet" where
  "on_agent_line env txt s =
     (case fx_active_turn s of Some ctx \<Rightarrow> handle_agent_message env txt ctx s | None \<Rightarrow> s)"

definition on_agent_exit :: "fixlet_env \<Rightarrow> fixlet \<Rightarrow> fixlet" where
  "on_agent_exit env s =
     (let s = (case fx_active_turn s of
                 None \<Rightarrow> s
               | Some ctx \<Rightarrow>
                   emit_turn_error env (tc_task_id ctx) (tc_turn_id ctx) ''agent_process_exited''
                     ''Agent process exited unexpectedly''
                     (case tc_step_id ctx of
                        None \<Rightarrow> s
                      | Some step_id \<Rightarrow>
                          emit_lifecycle env (tc_task_id ctx) ''llm_failed''
                            (fixlet_llm_failed_payload (tc_task_id ctx) (tc_turn_id ctx) step_id ''agent_process_exited''
                               ''Agent process exited unexpectedly'' (add_i64 (ls_current (tc_local_seq ctx)) 1)) s))
      in s\<lparr>fx_agent_stdin := None, fx_agent_stdout := None, fx_agent_child := None, fx_active_turn := None\<rparr>)"

text \<open>
  One round of the loop: a turn is handed over, with what the agent writes while the session is set up;
  the agent writes a line; the agent's process ends. The error of a hand-over is logged; a wait that does
  not end stops the loop.
\<close>

datatype fixlet_event = TurnBegins json "string list" bool | AgentSays string | AgentExits

fun fixlet_round :: "fixlet_env \<Rightarrow> fixlet_event \<Rightarrow> fixlet \<Rightarrow> fixlet option" where
  "fixlet_round env (TurnBegins payload lines closed) s =
     (case handle_execute_turn env payload lines closed s of
        (Inl UnwrapOnNone, _) \<Rightarrow> None
      | (Inl AgentSilent, _) \<Rightarrow> None
      | (_, s') \<Rightarrow> Some s')"
| "fixlet_round env (AgentSays txt) s = (if fx_agent_stdout s = None then None else Some (on_agent_line env txt s))"
| "fixlet_round env AgentExits s = (if fx_agent_child s = None then None else Some (on_agent_exit env s))"

fun fixlet_run :: "fixlet_env \<Rightarrow> fixlet_event list \<Rightarrow> fixlet \<Rightarrow> fixlet option" where
  "fixlet_run env [] s = Some s"
| "fixlet_run env (ev # evs) s = Option.bind (fixlet_round env ev s) (fixlet_run env evs)"

end
