(* ===== verification/Fixlet_Properties.thy ===== *)
theory Fixlet_Properties
  imports Fixlet
begin

text \<open>
  What the fixlet does with a turn: which turns it claims, what it reports when the agent answers, fails
  or is lost, that its handles of the agent always agree, and that its side of the messages exchanged
  with the orchestrator and with the tools bank fits theirs.
\<close>

section \<open>Claims\<close>

definition dispatches :: "group_frame list \<Rightarrow> group_record list" where
  "dispatches fs = List.map_filter
     (\<lambda>f. case f of GfRecord r \<Rightarrow> if gr_event_type r = ''execute_turn'' then Some r else None | _ \<Rightarrow> None) fs"

lemma dispatches_simps [simp]:
  "dispatches [] = []" "dispatches (GfError # fs) = dispatches fs" "dispatches (GfOther # fs) = dispatches fs"
  "dispatches (GfRecord r # fs) =
     (if gr_event_type r = ''execute_turn'' then r # dispatches fs else dispatches fs)"
  by (simp_all add: dispatches_def map_filter_simps)

definition claim_position :: "group_record \<Rightarrow> nat \<times> int" where
  "claim_position r = (gr_shard r, gr_seq r)"

definition claim_payload :: "(string \<Rightarrow> json option) \<Rightarrow> group_record \<Rightarrow> json" where
  "claim_payload parse r = unwrap_or JNull (parse (gr_content r))"

text \<open>The frames read before the consumer gives up, after \<open>e\<close> errors in a row.\<close>

fun frames_read :: "nat \<Rightarrow> group_frame list \<Rightarrow> group_frame list" where
  "frames_read e [] = []"
| "frames_read e (GfError # fs) = (if e + 1 \<ge> 3 then [GfError] else GfError # frames_read (e + 1) fs)"
| "frames_read e (f # fs) = f # frames_read 0 fs"

lemma frames_read_prefix:
  "e < 3 \<Longrightarrow> prefix (frames_read e fs) fs \<and>
     (frames_read e fs = fs \<or> sublist (replicate 3 GfError) (replicate e GfError @ fs))"
proof (induction e fs rule: frames_read.induct)
  case (2 e fs)
  have shift: "replicate e GfError @ GfError # fs = replicate (Suc e) GfError @ fs"
    by (simp add: replicate_app_Cons_same)
  show ?case
  proof (cases "e + 1 \<ge> 3")
    case True
    with 2 have "Suc e = 3" by simp
    then have "sublist (replicate 3 GfError) (replicate e GfError @ GfError # fs)"
      unfolding shift by (metis sublist_append_rightI)
    with True show ?thesis by simp
  next
    case False
    with 2 show ?thesis unfolding shift by auto
  qed
qed (auto simp: three_errors)

lemma consume_claims:
  "e < 3 \<Longrightarrow> consume (claim_record parse) e commits fs handed =
     (Inr (\<not> sublist (replicate 3 GfError) (replicate e GfError @ fs),
           commits @ map claim_position (dispatches (frames_read e fs))),
      handed @ map (claim_payload parse) (dispatches (frames_read e fs)))"
proof (induction e fs arbitrary: commits handed rule: frames_read.induct)
  case (1 e)
  then have "\<not> sublist (replicate 3 GfError) (replicate e GfError)"
    using sublist_length_le [of "replicate 3 GfError" "replicate e GfError"] by auto
  then show ?case by simp
next
  case (2 e fs)
  have shift: "replicate e GfError @ GfError # fs = replicate (Suc e) GfError @ fs"
    by (simp add: replicate_app_Cons_same)
  show ?case
  proof (cases "e + 1 \<ge> 3")
    case True
    with 2 have "Suc e = 3" by simp
    then have "sublist (replicate 3 GfError) (replicate e GfError @ GfError # fs)"
      unfolding shift by (metis sublist_append_rightI)
    with True show ?thesis by simp
  next
    case False
    with 2 show ?thesis unfolding shift by simp
  qed
qed (simp_all add: three_errors andThen_apply claim_record_def claim_payload_def claim_position_def)

text \<open>
  Claiming turns: over any frames of the claim stream, the dispatch records read before the consumer
  gives up are handed to the main loop in order and once each, exactly their positions are committed, and
  the consumer gives up, leaving frames unread, only after three errors in a row.
\<close>

theorem claimed_turns_handed_over:
  "\<exists>seen rest. fs = seen @ rest \<and> (rest = [] \<or> sublist (replicate 3 GfError) fs) \<and>
     claim_turns parse fs handed =
       (Inr (\<not> sublist (replicate 3 GfError) fs, map claim_position (dispatches seen)),
        handed @ map (claim_payload parse) (dispatches seen))"
proof -
  obtain rest where "fs = frames_read 0 fs @ rest" "rest = [] \<or> sublist (replicate 3 GfError) fs"
    using frames_read_prefix [of 0 fs] by (auto simp: prefix_def)
  then show ?thesis
    using consume_claims [of 0 parse "[]" fs handed] by (intro exI conjI) (auto simp: claim_turns_def)
qed










section \<open>Effects of the operations\<close>

lemma emit_frame [simp]:
  "fx_active_turn (emit_lifecycle env t et p s) = fx_active_turn s"
  "fx_agent_stdin (emit_lifecycle env t et p s) = fx_agent_stdin s"
  "fx_agent_stdout (emit_lifecycle env t et p s) = fx_agent_stdout s"
  "fx_agent_child (emit_lifecycle env t et p s) = fx_agent_child s"
  "fx_msg_accumulator (emit_lifecycle env t et p s) = fx_msg_accumulator s"
  by (simp_all add: emit_lifecycle_def Let_def split: option.split)

lemma emit_accepted:
  "fe_broker env = (\<lambda>_ _. None) \<Longrightarrow>
     fx_produced (emit_lifecycle env t et p s) = fx_produced s @ [task_end_request env t et p]"
  by (simp add: emit_lifecycle_def Let_def)

lemma emit_produced:
  "\<exists>new. fx_produced (emit_lifecycle env t et p s) = fx_produced s @ new \<and>
     pq_shard_key ` set new \<subseteq> {Some t} \<and> pq_event_type ` set new \<subseteq> {et}"
  by (simp add: emit_lifecycle_def Let_def task_end_request_def split: option.split)

lemma write_frame [simp]:
  "fx_active_turn (write_lines env ms s) = fx_active_turn s"
  "fx_agent_stdin (write_lines env ms s) = fx_agent_stdin s"
  "fx_agent_stdout (write_lines env ms s) = fx_agent_stdout s"
  "fx_agent_child (write_lines env ms s) = fx_agent_child s"
  "fx_msg_accumulator (write_lines env ms s) = fx_msg_accumulator s"
  "fx_produced (write_lines env ms s) = fx_produced s"
  "fx_ticks (write_lines env ms s) = fx_ticks s"
  by (simp_all add: write_lines_def)

lemma publish_frame [simp]:
  "fx_active_turn (publish_chunk env ctx c s) = fx_active_turn s"
  "fx_agent_stdin (publish_chunk env ctx c s) = fx_agent_stdin s"
  "fx_agent_stdout (publish_chunk env ctx c s) = fx_agent_stdout s"
  "fx_agent_child (publish_chunk env ctx c s) = fx_agent_child s"
  "fx_msg_accumulator (publish_chunk env ctx c s) = fx_msg_accumulator s"
  "fx_produced (publish_chunk env ctx c s) = fx_produced s"
  by (simp_all add: publish_chunk_def)

section \<open>The handles of the agent\<close>

text \<open>
  The three handles agree, and the turn in work has a task and a number, so that its reports are not
  passed over by the orchestrator.
\<close>

definition turn_named :: "turn_context \<Rightarrow> bool" where
  "turn_named ctx \<longleftrightarrow> tc_task_id ctx \<noteq> [] \<and> tc_turn_id ctx \<noteq> 0 \<and> in_i64 (tc_turn_id ctx)"

definition fixlet_ok :: "fixlet \<Rightarrow> bool" where
  "fixlet_ok s \<longleftrightarrow> fx_agent_stdin s = fx_agent_child s \<and> fx_agent_stdout s = fx_agent_child s \<and>
     pred_option turn_named (fx_active_turn s)"

lemma fixlet_ok_frame [inv_intros]:
  "fixlet_ok s \<Longrightarrow> fixlet_ok (emit_lifecycle env t et p s)"
  "fixlet_ok s \<Longrightarrow> fixlet_ok (write_lines env ms s)"
  "fixlet_ok s \<Longrightarrow> fixlet_ok (publish_chunk env ctx c s)"
  "fixlet_ok s \<Longrightarrow> fixlet_ok (s\<lparr>fx_msg_accumulator := m\<rparr>)"
  "fixlet_ok s \<Longrightarrow> fixlet_ok (emit_turn_error env t n et em s)"
  by (simp_all add: fixlet_ok_def emit_turn_error_def)

lemma i64_field_range: "d = 0 \<Longrightarrow> in_i64 (i64_field k d j)"
proof -
  have "as_i64 x = Some n \<Longrightarrow> in_i64 n" for x n by (cases x) (auto split: if_splits)
  then show "d = 0 \<Longrightarrow> in_i64 (i64_field k d j)"
    by (auto simp: i64_field_def unwrap_or_def in_i64_def [of 0] bind_eq_Some_conv split: option.split)
qed

lemma parsed_named:
  "parse_execute_turn_payload payload = Inr p \<Longrightarrow> turn_named (turn_context_new (pe_task_id p) (pe_turn_id p) rg rc)"
  by (auto simp: parse_execute_turn_payload_def turn_named_def turn_context_new_def Let_def i64_field_range
      split: if_splits)

lemma emit_step_ok:
  "emit_step env et f ctx s = (ctx', s') \<Longrightarrow> fixlet_ok s \<Longrightarrow> turn_named ctx \<Longrightarrow> fixlet_ok s'"
  by (auto simp: emit_step_def fixlet_ok_def turn_named_def Let_def split: option.splits prod.splits)

lemma handle_agent_message_ok:
  assumes "fixlet_ok s" "turn_named ctx"
  shows "fixlet_ok (handle_agent_message env txt ctx s)"
proof (cases "parse_acp_message (fe_parse env) txt")
  case None
  with assms show ?thesis by (simp add: handle_agent_message_def)
next
  case (Some ev)
  with assms show ?thesis
    by (cases ev)
      (auto simp: handle_agent_message_def Let_def snd_def intro!: inv_intros
        intro: emit_step_ok split: prod.split)
qed

lemma on_agent_line_ok: "fixlet_ok s \<Longrightarrow> fixlet_ok (on_agent_line env txt s)"
  by (cases "fx_active_turn s") (simp_all add: on_agent_line_def handle_agent_message_ok fixlet_ok_def [of s])

lemma on_agent_exit_ok: "fixlet_ok (on_agent_exit env s)"
  by (simp add: on_agent_exit_def fixlet_ok_def Let_def)

lemma ensure_agent_ok:
  assumes "fixlet_ok s"
  shows "fixlet_ok (snd (ensure_agent env t s))"
    "fst (ensure_agent env t s) \<Longrightarrow> fx_agent_child (snd (ensure_agent env t s)) \<noteq> None"
    "fx_active_turn (snd (ensure_agent env t s)) = fx_active_turn s"
    "fx_produced (snd (ensure_agent env t s)) = fx_produced s"
    "fx_msg_accumulator (snd (ensure_agent env t s)) = fx_msg_accumulator s"
  using assms
  by (auto simp: ensure_agent_def spawn_agent_def fixlet_ok_def Let_def split: option.splits if_splits)

lemma send_prompt_ok:
  "fixlet_ok s \<Longrightarrow> turn_named (turn_context_new (pe_task_id p) (pe_turn_id p) (pe_redo_group p) (pe_redo_count p)) \<Longrightarrow>
     fixlet_ok (send_prompt env p acp sid result s)"
  by (auto simp: send_prompt_def Let_def local_seq_next_def fixlet_ok_def turn_named_def turn_context_new_def)

lemma open_session_ok:
  assumes "fixlet_ok s" "fx_agent_child s \<noteq> None"
    "turn_named (turn_context_new (pe_task_id p) (pe_turn_id p) (pe_redo_group p) (pe_redo_count p))"
  shows "fixlet_ok (snd (open_session env p lines closed s))"
    "fst (open_session env p lines closed s) \<noteq> Inl UnwrapOnNone"
proof -
  have lost: "fixlet_ok (emit_turn_error env t n et em
      ((write_lines env ms s)\<lparr>fx_agent_stdin := None, fx_agent_stdout := None, fx_agent_child := None\<rparr>))" for ms t n et em
    using assms(1) by (intro inv_intros) (simp add: fixlet_ok_def)
  obtain a where a: "fx_agent_stdin s = Some a" "fx_agent_stdout s = Some a"
    using assms(1,2) by (auto simp: fixlet_ok_def)
  have "fixlet_ok (snd (open_session env p lines closed s)) \<and>
      fst (open_session env p lines closed s) \<noteq> Inl UnwrapOnNone"
    by (cases "await_session (fe_parse env) 1 lines closed")
      (simp_all add: open_session_def a next_req_id_def set_stdin_tx_def acp_client_new_def Let_def lost
        send_prompt_ok assms(3) fixlet_ok_frame(2) [OF assms(1)])
  then show "fixlet_ok (snd (open_session env p lines closed s))"
    "fst (open_session env p lines closed s) \<noteq> Inl UnwrapOnNone" by simp_all
qed

lemma handle_execute_turn_ok:
  assumes "fixlet_ok s"
  shows "fixlet_ok (snd (handle_execute_turn env payload lines closed s))"
    "fst (handle_execute_turn env payload lines closed s) \<noteq> Inl UnwrapOnNone"
proof -
  let ?t = "\<lambda>p. s\<lparr>fx_msg_accumulator := accumulator_reset (fx_msg_accumulator s),
    fx_active_turn := Some (turn_context_new (pe_task_id p) (pe_turn_id p) (pe_redo_group p) (pe_redo_count p))\<rparr>"
  have t: "fixlet_ok (?t p)" if "parse_execute_turn_payload payload = Inr p" for p
    using assms parsed_named [OF that] by (simp add: fixlet_ok_def)
  have step: "fixlet_ok (snd (handle_execute_turn env payload lines closed s)) \<and>
      fst (handle_execute_turn env payload lines closed s) \<noteq> Inl UnwrapOnNone"
    if p: "parse_execute_turn_payload payload = Inr p" for p
  proof (cases "ensure_agent env (pe_task_id p) (?t p)")
    case (Pair b s')
    with ensure_agent_ok(1,2) [OF t [OF p], of env "pe_task_id p"] parsed_named [OF p] p show ?thesis
      by (cases b) (simp_all add: handle_execute_turn_def open_session_ok inv_intros)
  qed
  have "fixlet_ok (snd (handle_execute_turn env payload lines closed s)) \<and>
      fst (handle_execute_turn env payload lines closed s) \<noteq> Inl UnwrapOnNone"
  proof (cases "parse_execute_turn_payload payload")
    case (Inl e)
    with assms show ?thesis by (simp add: handle_execute_turn_def)
  qed (rule step)
  then show "fixlet_ok (snd (handle_execute_turn env payload lines closed s))"
    "fst (handle_execute_turn env payload lines closed s) \<noteq> Inl UnwrapOnNone" by simp_all
qed

lemma fixlet_round_TurnBegins:
  "fixlet_round env (TurnBegins payload lines closed) s = Some s' \<Longrightarrow>
     s' = snd (handle_execute_turn env payload lines closed s)"
  by (auto split: prod.splits sum.splits fixlet_error.splits)

lemma fixlet_round_ok: "fixlet_round env ev s = Some s' \<Longrightarrow> fixlet_ok s \<Longrightarrow> fixlet_ok s'"
  by (cases ev)
    (auto dest!: fixlet_round_TurnBegins simp del: fixlet_round.simps(1)
      simp: on_agent_line_ok on_agent_exit_ok handle_execute_turn_ok split: if_splits)

lemma fixlet_run_ok: "fixlet_run env evs s = Some s' \<Longrightarrow> fixlet_ok s \<Longrightarrow> fixlet_ok s'"
  by (induction evs arbitrary: s) (auto simp: bind_eq_Some_conv dest: fixlet_round_ok)

text \<open>
  C21. In every state the fixlet reaches, whatever turns come in, whatever the agent writes and whenever its
  process ends, the agent's input, output and process are all there or all gone, the turn in work has a
  task and a number, and beginning another turn does not panic.
\<close>

theorem fixlet_handles_agree:
  "{s. \<exists>evs. fixlet_run env evs fixlet_new = Some s} \<subseteq>
   {s. fx_agent_stdin s = fx_agent_child s \<and> fx_agent_stdout s = fx_agent_child s \<and>
       pred_option turn_named (fx_active_turn s) \<and>
       (\<forall>payload lines closed. fst (handle_execute_turn env payload lines closed s) \<noteq> Inl UnwrapOnNone)}"
proof -
  have "fixlet_ok fixlet_new" by (simp add: fixlet_ok_def fixlet_new_def)
  then have reached: "fixlet_ok s" if "fixlet_run env evs fixlet_new = Some s" for evs s
    using fixlet_run_ok [OF that] by blast
  show ?thesis
  proof (rule subsetI)
    fix s assume "s \<in> {s. \<exists>evs. fixlet_run env evs fixlet_new = Some s}"
    then have "fixlet_ok s" using reached by blast
    then show "s \<in> {s. fx_agent_stdin s = fx_agent_child s \<and> fx_agent_stdout s = fx_agent_child s \<and>
       pred_option turn_named (fx_active_turn s) \<and>
       (\<forall>payload lines closed. fst (handle_execute_turn env payload lines closed s) \<noteq> Inl UnwrapOnNone)}"
      using handle_execute_turn_ok(2) by (simp add: fixlet_ok_def)
  qed
qed

section \<open>A turn from its dispatch to its end\<close>

text \<open>Lines that neither end nor fail the answer, and the piece of the answer a line holds.\<close>

definition keeps_talking :: "fixlet_env \<Rightarrow> string \<Rightarrow> bool" where
  "keeps_talking env txt \<longleftrightarrow>
     (case parse_acp_message (fe_parse env) txt of
        Some (FinalMessage _) \<Rightarrow> False | Some (AgentError _) \<Rightarrow> False | _ \<Rightarrow> True)"

definition piece :: "fixlet_env \<Rightarrow> string \<Rightarrow> string list" where
  "piece env txt = (case parse_acp_message (fe_parse env) txt of Some (MessageChunk c) \<Rightarrow> [c] | _ \<Rightarrow> [])"

lemma on_agent_line_talking:
  assumes "keeps_talking env txt" "fx_active_turn s = Some ctx"
  shows "fx_active_turn (on_agent_line env txt s) = Some ctx"
    "fx_agent_stdout (on_agent_line env txt s) = fx_agent_stdout s"
    "fx_agent_child (on_agent_line env txt s) = fx_agent_child s"
    "fx_produced (on_agent_line env txt s) = fx_produced s"
    "ma_chunks (fx_msg_accumulator (on_agent_line env txt s)) = ma_chunks (fx_msg_accumulator s) @ piece env txt"
  using assms
  by (auto simp: keeps_talking_def on_agent_line_def handle_agent_message_def piece_def accumulator_append_def
      split: option.splits parsed_acp_event.splits)

lemma fixlet_run_append:
  "fixlet_run env (xs @ ys) s = Option.bind (fixlet_run env xs s) (fixlet_run env ys)"
  by (induction xs arbitrary: s) (simp, simp del: fixlet_round.simps split: Option.bind_split)

lemma fixlet_run_talking:
  "\<forall>t \<in> set txts. keeps_talking env t \<Longrightarrow> fx_active_turn s = Some ctx \<Longrightarrow> fx_agent_stdout s \<noteq> None \<Longrightarrow>
     \<exists>s'. fixlet_run env (map AgentSays txts) s = Some s' \<and> fx_active_turn s' = Some ctx \<and>
       fx_agent_stdout s' = fx_agent_stdout s \<and> fx_agent_child s' = fx_agent_child s \<and>
       fx_produced s' = fx_produced s \<and>
       ma_chunks (fx_msg_accumulator s') = ma_chunks (fx_msg_accumulator s) @ concat (map (piece env) txts)"
proof (induction txts arbitrary: s)
  case (Cons t ts)
  from Cons.prems Cons.IH [of "on_agent_line env t s"] show ?case
    by (simp add: on_agent_line_talking)
qed simp

text \<open>What a hand-over reports when the session is created.\<close>

definition begun_context :: "fixlet_env \<Rightarrow> parsed_execute_turn \<Rightarrow> string \<Rightarrow> json \<Rightarrow> turn_context" where
  "begun_context env p step_id result =
     (turn_context_new (pe_task_id p) (pe_turn_id p) (pe_redo_group p) (pe_redo_count p))
       \<lparr>tc_model := unwrap_or [] (extract_model (fg_backend (fe_config env)) result),
        tc_step_id := Some step_id, tc_local_seq := \<lparr>ls_current = 1\<rparr>\<rparr>"

lemma add_one [simp]: "add_i64 0 1 = 1" "add_i64 1 1 = 2" "add_i64 2 1 = 3"
  by (simp_all add: add_i64_exact in_i64_def)

lemma send_prompt_effect:
  assumes "fe_broker env = (\<lambda>_ _. None)"
  shows "fx_produced (send_prompt env p acp sid result s) = fx_produced s @
      [task_end_request env (pe_task_id p) ''llm_invoked''
        (fixlet_llm_invoked_payload (pe_task_id p) (pe_turn_id p) (fe_uuid env (fx_ticks s))
          (unwrap_or [] (extract_model (fg_backend (fe_config env)) result)) (pe_messages p) 1)]"
    "fx_active_turn (send_prompt env p acp sid result s) =
      Some (begun_context env p (fe_uuid env (fx_ticks s)) result)"
    "fx_agent_stdout (send_prompt env p acp sid result s) = fx_agent_stdout s"
    "fx_agent_child (send_prompt env p acp sid result s) = fx_agent_child s"
    "fx_msg_accumulator (send_prompt env p acp sid result s) = fx_msg_accumulator s"
  using assms
  by (simp_all add: send_prompt_def local_seq_next_def turn_context_new_def local_seq_new_def Let_def
      emit_accepted begun_context_def)

lemma hand_over_effect:
  assumes p: "parse_execute_turn_payload payload = Inr p"
    and s: "fixlet_ok s" "fx_agent_child s \<noteq> None \<or> (\<forall>n spec dir. fe_spawn env n spec dir)"
    and reply: "await_session (fe_parse env) 1 lines closed = SessionCreated sid result"
    and broker: "fe_broker env = (\<lambda>_ _. None)"
  shows "\<exists>s' step_id. fixlet_round env (TurnBegins payload lines closed) s = Some s' \<and>
     fx_agent_stdout s' \<noteq> None \<and> ma_chunks (fx_msg_accumulator s') = [] \<and>
     fx_active_turn s' = Some (begun_context env p step_id result) \<and>
     fx_produced s' = fx_produced s @
      [task_end_request env (pe_task_id p) ''llm_invoked''
        (fixlet_llm_invoked_payload (pe_task_id p) (pe_turn_id p) step_id
          (unwrap_or [] (extract_model (fg_backend (fe_config env)) result)) (pe_messages p) 1)]"
proof -
  let ?t = "s\<lparr>fx_msg_accumulator := accumulator_reset (fx_msg_accumulator s),
    fx_active_turn := Some (turn_context_new (pe_task_id p) (pe_turn_id p) (pe_redo_group p) (pe_redo_count p))\<rparr>"
  have t: "fixlet_ok ?t" using s(1) parsed_named [OF p] by (simp add: fixlet_ok_def)
  obtain b s1 where e: "ensure_agent env (pe_task_id p) ?t = (b, s1)" by fastforce
  have b: "b" using s(2) e by (auto simp: ensure_agent_def spawn_agent_def Let_def split: option.splits)
  note ens = ensure_agent_ok [OF t, of env "pe_task_id p", unfolded e, simplified]
  obtain a where a: "fx_agent_stdin s1 = Some a" "fx_agent_stdout s1 = Some a"
    using ens(1,2) b by (auto simp: fixlet_ok_def)
  show ?thesis
    using p e b a reply ens
    by (simp add: handle_execute_turn_def open_session_def next_req_id_def set_stdin_tx_def acp_client_new_def
        send_prompt_effect [OF broker] accumulator_reset_def) blast
qed

text \<open>The three reports of an answered turn.\<close>

definition answer_reports ::
  "fixlet_env \<Rightarrow> parsed_execute_turn \<Rightarrow> string \<Rightarrow> string \<Rightarrow> llm_usage option \<Rightarrow> string \<Rightarrow> produce_request list" where
  "answer_reports env p step_id model usage output =
     map (\<lambda>(et, j). task_end_request env (pe_task_id p) et j)
      [(''llm_invoked'', fixlet_llm_invoked_payload (pe_task_id p) (pe_turn_id p) step_id model (pe_messages p) 1),
       (''llm_completed'', fixlet_llm_completed_payload (pe_task_id p) (pe_turn_id p) step_id model
          (map_option usage_tuple usage) 2),
       (''turn_execution_done'', turn_done_payload (pe_task_id p) (pe_turn_id p) 2 output)]"

lemma answered_turn:
  assumes "parse_execute_turn_payload payload = Inr p"
    and "fixlet_ok s" "fx_agent_child s \<noteq> None \<or> (\<forall>n spec dir. fe_spawn env n spec dir)"
    and "await_session (fe_parse env) 1 lines closed = SessionCreated sid result"
    and "fe_broker env = (\<lambda>_ _. None)" "\<forall>t \<in> set txts. keeps_talking env t"
    and "parse_acp_message (fe_parse env) final = Some (FinalMessage usage)"
  shows "\<exists>s' step_id model.
     fixlet_run env (TurnBegins payload lines closed # map AgentSays txts @ [AgentSays final]) s = Some s' \<and>
     fixlet_ok s' \<and> fx_agent_child s' \<noteq> None \<and>
     (\<exists>ctx. fx_active_turn s' = Some ctx \<and> tc_task_id ctx = pe_task_id p \<and> tc_turn_id ctx = pe_turn_id p \<and>
        tc_step_id ctx = Some step_id \<and> ls_current (tc_local_seq ctx) = 2) \<and>
     fx_produced s' = fx_produced s @ answer_reports env p step_id model usage (concat (concat (map (piece env) txts)))"
proof -
  let ?model = "unwrap_or [] (extract_model (fg_backend (fe_config env)) result)"
  obtain s1 step_id where s1: "fixlet_round env (TurnBegins payload lines closed) s = Some s1"
    "fx_agent_stdout s1 \<noteq> None" "ma_chunks (fx_msg_accumulator s1) = []"
    "fx_active_turn s1 = Some (begun_context env p step_id result)"
    "fx_produced s1 = fx_produced s @
      [task_end_request env (pe_task_id p) ''llm_invoked''
        (fixlet_llm_invoked_payload (pe_task_id p) (pe_turn_id p) step_id ?model (pe_messages p) 1)]"
    using hand_over_effect [OF assms(1-5)] by blast
  obtain s2 where s2: "fixlet_run env (map AgentSays txts) s1 = Some s2"
    "fx_active_turn s2 = Some (begun_context env p step_id result)" "fx_agent_stdout s2 \<noteq> None"
    "fx_produced s2 = fx_produced s1" "ma_chunks (fx_msg_accumulator s2) = concat (map (piece env) txts)"
    using fixlet_run_talking [OF assms(6) s1(4,2)] s1(2,3) by auto
  let ?s' = "on_agent_line env final s2"
  have final: "fx_produced ?s' = fx_produced s2 @
      map (\<lambda>(et, j). task_end_request env (pe_task_id p) et j)
       [(''llm_completed'', fixlet_llm_completed_payload (pe_task_id p) (pe_turn_id p) step_id ?model
           (map_option usage_tuple usage) 2),
        (''turn_execution_done'', turn_done_payload (pe_task_id p) (pe_turn_id p) 2
           (concat (concat (map (piece env) txts))))]"
    "fx_active_turn ?s' = Some ((begun_context env p step_id result)\<lparr>tc_local_seq := \<lparr>ls_current = 2\<rparr>\<rparr>)"
    "fx_agent_stdout ?s' = fx_agent_stdout s2"
    using assms(7) s2
    by (simp_all add: on_agent_line_def handle_agent_message_def emit_step_def begun_context_def local_seq_next_def
        turn_context_new_def emit_accepted [OF assms(5)] accumulator_finalize_def Let_def)
  have run: "fixlet_run env (TurnBegins payload lines closed # map AgentSays txts @ [AgentSays final]) s = Some ?s'"
    using s1(1) s2(1,3) by (auto simp: fixlet_run_append simp del: fixlet_round.simps(1))
  have inv: "fixlet_ok ?s'" by (rule fixlet_run_ok [OF run assms(2)])
  moreover have "fx_agent_child ?s' \<noteq> None" using inv final(3) s2(3) by (simp add: fixlet_ok_def)
  moreover have "fx_produced ?s' =
      fx_produced s @ answer_reports env p step_id ?model usage (concat (concat (map (piece env) txts)))"
    using final(1) s1(5) s2(4) by (simp add: answer_reports_def)
  ultimately show ?thesis
    using run final(2) by (intro exI conjI) (auto simp: begun_context_def turn_context_new_def)
qed

text \<open>
  C10. A turn whose agent answers is reported whole and in order: the call of the model with the messages it
  got, its completion with the usage, and the end of the turn with the pieces of the answer joined; the
  reports carry the turn's task and number, share one step, and are numbered 1 and 2, the last number being
  reported with the end. Thoughts, tool calls and unknown lines change nothing.
\<close>

theorem answered_turn_reported_whole:
  assumes "parse_execute_turn_payload payload = Inr p"
    and "fixlet_ok s" "fx_agent_child s \<noteq> None \<or> (\<forall>n spec dir. fe_spawn env n spec dir)"
    and "await_session (fe_parse env) 1 lines closed = SessionCreated sid result"
    and "fe_broker env = (\<lambda>_ _. None)" "\<forall>t \<in> set txts. keeps_talking env t"
    and "parse_acp_message (fe_parse env) final = Some (FinalMessage usage)"
  shows "\<exists>s' step_id model.
     fixlet_run env (TurnBegins payload lines closed # map AgentSays txts @ [AgentSays final]) s = Some s' \<and>
     fx_produced s' = fx_produced s @ answer_reports env p step_id model usage (concat (concat (map (piece env) txts)))"
  using answered_turn [OF assms] by blast

lemma exit_reports:
  assumes "fe_broker env = (\<lambda>_ _. None)" "fx_active_turn s = Some ctx"
  shows "fx_produced (on_agent_exit env s) = fx_produced s @
     (case tc_step_id ctx of None \<Rightarrow> []
      | Some step_id \<Rightarrow> [task_end_request env (tc_task_id ctx) ''llm_failed''
          (fixlet_llm_failed_payload (tc_task_id ctx) (tc_turn_id ctx) step_id ''agent_process_exited''
             ''Agent process exited unexpectedly'' (add_i64 (ls_current (tc_local_seq ctx)) 1))]) @
     [task_end_request env (tc_task_id ctx) ''turn_execution_error''
        (turn_error_payload (tc_task_id ctx) (tc_turn_id ctx) ''agent_process_exited''
           ''Agent process exited unexpectedly'')]"
  using assms by (simp add: on_agent_exit_def emit_turn_error_def emit_accepted Let_def split: option.split)

text \<open>
  C23. A turn stays in work after it was reported done: when the agent's process then ends, the same turn is
  reported a second time, its completed call as failed and the turn itself as lost.
\<close>

theorem answered_turn_reported_lost_on_exit:
  assumes "parse_execute_turn_payload payload = Inr p"
    and "fixlet_ok s" "fx_agent_child s \<noteq> None \<or> (\<forall>n spec dir. fe_spawn env n spec dir)"
    and "await_session (fe_parse env) 1 lines closed = SessionCreated sid result"
    and "fe_broker env = (\<lambda>_ _. None)" "\<forall>t \<in> set txts. keeps_talking env t"
    and "parse_acp_message (fe_parse env) final = Some (FinalMessage usage)"
  shows "\<exists>s' step_id model.
     fixlet_run env (TurnBegins payload lines closed # map AgentSays txts @ [AgentSays final, AgentExits]) s = Some s' \<and>
     fx_produced s' = fx_produced s @
       answer_reports env p step_id model usage (concat (concat (map (piece env) txts))) @
       map (\<lambda>(et, j). task_end_request env (pe_task_id p) et j)
        [(''llm_failed'', fixlet_llm_failed_payload (pe_task_id p) (pe_turn_id p) step_id ''agent_process_exited''
            ''Agent process exited unexpectedly'' 3),
         (''turn_execution_error'', turn_error_payload (pe_task_id p) (pe_turn_id p) ''agent_process_exited''
            ''Agent process exited unexpectedly'')]"
proof -
  obtain s1 step_id model ctx where s1:
    "fixlet_run env (TurnBegins payload lines closed # map AgentSays txts @ [AgentSays final]) s = Some s1"
    "fx_agent_child s1 \<noteq> None" "fx_active_turn s1 = Some ctx" "tc_task_id ctx = pe_task_id p"
    "tc_turn_id ctx = pe_turn_id p" "tc_step_id ctx = Some step_id" "ls_current (tc_local_seq ctx) = 2"
    "fx_produced s1 = fx_produced s @ answer_reports env p step_id model usage (concat (concat (map (piece env) txts)))"
    using answered_turn [OF assms] by blast
  have "fixlet_run env (TurnBegins payload lines closed # map AgentSays txts @ [AgentSays final, AgentExits]) s =
      Some (on_agent_exit env s1)"
    using s1(1,2) fixlet_run_append [of env "TurnBegins payload lines closed # map AgentSays txts @ [AgentSays final]"
        "[AgentExits]" s] by simp
  then show ?thesis
    using s1 by (intro exI conjI) (auto simp: exit_reports [OF assms(5) s1(3)])
qed

text \<open>The records that end a turn.\<close>

definition ends_turn :: "produce_request \<Rightarrow> bool" where
  "ends_turn req \<longleftrightarrow> pq_event_type req \<in> {''turn_execution_done'', ''turn_execution_error''}"

lemma emit_produced_types:
  "\<exists>new. fx_produced (emit_lifecycle env t et p s) = fx_produced s @ new \<and> pq_event_type ` set new \<subseteq> {et}"
  using emit_produced [of env t et p s] by blast

definition is_end_turn :: "fixlet_env \<Rightarrow> string \<Rightarrow> bool" where
  "is_end_turn env txt \<longleftrightarrow>
     (case fe_parse env txt of
        None \<Rightarrow> False
      | Some v \<Rightarrow> parse_notification v = None \<and>
          Option.bind (Option.bind (jget ''result'' v) (jget ''stopReason'')) as_str = Some ''end_turn'')"

lemma is_end_turn_iff:
  "is_end_turn env txt \<longleftrightarrow> (\<exists>usage. parse_acp_message (fe_parse env) txt = Some (FinalMessage usage))"
proof (cases "fe_parse env txt")
  case (Some v)
  have "(\<exists>usage. parse_response v = FinalMessage usage) \<longleftrightarrow>
      Option.bind (Option.bind (jget ''result'' v) (jget ''stopReason'')) as_str = Some ''end_turn''"
    by (auto simp: parse_response_def split: option.split)
  moreover have "parse_notification v \<noteq> Some (Some (FinalMessage usage))" for usage
    by (auto simp: parse_notification_def Let_def split: option.splits if_splits)
  ultimately show ?thesis
    using Some by (auto simp: is_end_turn_def parse_acp_message_def split: option.split)
qed (simp add: is_end_turn_def parse_acp_message_def)

text \<open>
  C22. What ends a turn: a line of the agent gives a record that ends the turn exactly when it is a response
  whose stop reason is \<open>end_turn\<close>, and then it is one record, with the answer so far. An error response, or
  a response that stopped for another reason, leaves the turn without an end.
\<close>

theorem turn_ends_only_on_end_turn:
  assumes "fe_broker env = (\<lambda>_ _. None)" "fx_active_turn s = Some ctx"
  shows "\<exists>new n. fx_produced (on_agent_line env txt s) = fx_produced s @ new \<and>
     filter ends_turn new =
       (if is_end_turn env txt
        then [task_end_request env (tc_task_id ctx) ''turn_execution_done''
               (turn_done_payload (tc_task_id ctx) (tc_turn_id ctx) n
                  (concat (ma_chunks (fx_msg_accumulator s))))]
        else [])"
proof (cases "parse_acp_message (fe_parse env) txt")
  case None
  with assms is_end_turn_iff [of env "txt"] show ?thesis
    by (intro exI [of _ "[]"]) (simp add: on_agent_line_def handle_agent_message_def)
next
  case (Some ev)
  with assms is_end_turn_iff [of env "txt"] show ?thesis
    by (cases ev; cases "tc_step_id ctx")
      (auto simp: on_agent_line_def handle_agent_message_def emit_step_def emit_accepted ends_turn_def
        task_end_request_def accumulator_finalize_def local_seq_next_def Let_def)
qed

section \<open>A turn is interrupted\<close>

text \<open>The turn a payload is for, and the records that report on one of the given turns.\<close>

definition names_turn :: "json \<Rightarrow> string \<times> int \<Rightarrow> bool" where
  "names_turn payload t \<longleftrightarrow>
     jget ''task_id'' payload = Some (JStr (fst t)) \<and> jget ''turn_id'' payload = Some (JInt (snd t))"

definition reports_on :: "fixlet_env \<Rightarrow> (string \<times> int) set \<Rightarrow> produce_request set" where
  "reports_on env ts =
     {task_end_request env (fst t) et payload | t et payload. t \<in> ts \<and> names_turn payload t}"

lemma payloads_name_turn [simp]:
  "names_turn (fixlet_llm_invoked_payload tid n step m ms q) t \<longleftrightarrow> fst t = tid \<and> snd t = n"
  "names_turn (fixlet_llm_completed_payload tid n step m u q) t \<longleftrightarrow> fst t = tid \<and> snd t = n"
  "names_turn (fixlet_llm_failed_payload tid n step et em q) t \<longleftrightarrow> fst t = tid \<and> snd t = n"
  "names_turn (turn_done_payload tid n q out) t \<longleftrightarrow> fst t = tid \<and> snd t = n"
  "names_turn (turn_error_payload tid n et em) t \<longleftrightarrow> fst t = tid \<and> snd t = n"
  by (auto simp: names_turn_def fixlet_llm_invoked_payload_def fixlet_llm_completed_payload_def
      fixlet_llm_failed_payload_def turn_done_payload_def turn_error_payload_def split: prod.split)

definition adds_for :: "fixlet_env \<Rightarrow> (string \<times> int) set \<Rightarrow> fixlet \<Rightarrow> fixlet \<Rightarrow> bool" where
  "adds_for env ts s s' \<longleftrightarrow> (\<exists>new. fx_produced s' = fx_produced s @ new \<and> set new \<subseteq> reports_on env ts)"

definition turn_of :: "turn_context \<Rightarrow> string \<times> int" where
  "turn_of ctx = (tc_task_id ctx, tc_turn_id ctx)"

definition begun_turn :: "parsed_execute_turn \<Rightarrow> string \<times> int" where
  "begun_turn p = (pe_task_id p, pe_turn_id p)"

lemma turn_of_simps [simp]: "fst (turn_of ctx) = tc_task_id ctx" "snd (turn_of ctx) = tc_turn_id ctx"
  by (simp_all add: turn_of_def)

lemma begun_turn_simps [simp]: "fst (begun_turn p) = pe_task_id p" "snd (begun_turn p) = pe_turn_id p"
  by (simp_all add: begun_turn_def)

definition turn_in_work :: "fixlet \<Rightarrow> (string \<times> int) set" where
  "turn_in_work s = turn_of ` set_option (fx_active_turn s)"

fun begun_by :: "fixlet_event \<Rightarrow> (string \<times> int) set" where
  "begun_by (TurnBegins payload lines closed) =
     (case parse_execute_turn_payload payload of Inr p \<Rightarrow> {begun_turn p} | Inl _ \<Rightarrow> {})"
| "begun_by _ = {}"

definition begun_turns :: "fixlet_event list \<Rightarrow> (string \<times> int) set" where
  "begun_turns evs = (\<Union>ev \<in> set evs. begun_by ev)"

lemma adds_refl [intro, simp]: "adds_for env ts s s"
  by (simp add: adds_for_def)

lemma adds_trans:
  assumes "adds_for env ts s s'" "adds_for env ts s' s''"
  shows "adds_for env ts s s''"
proof -
  from assms obtain a b where "fx_produced s' = fx_produced s @ a" "fx_produced s'' = fx_produced s' @ b"
    "set (a @ b) \<subseteq> reports_on env ts" by (auto simp: adds_for_def)
  then show ?thesis unfolding adds_for_def by (intro exI [of _ "a @ b"]) simp
qed

lemma reports_onI: "names_turn payload t \<Longrightarrow> t \<in> ts \<Longrightarrow> task_end_request env (fst t) et payload \<in> reports_on env ts"
  unfolding reports_on_def by blast

lemma reports_mono: "ts \<subseteq> ts' \<Longrightarrow> reports_on env ts \<subseteq> reports_on env ts'"
  by (fastforce simp: reports_on_def)

lemma emit_adds_report:
  "fx_produced (emit_lifecycle env tid et payload s) =
     fx_produced s @ (if fe_broker env (fx_ticks s) (task_end_request env tid et payload) = None
                      then [task_end_request env tid et payload] else [])"
  by (simp add: emit_lifecycle_def Let_def split: option.split)

lemma adds_emit:
  "names_turn payload t \<Longrightarrow> tid = fst t \<Longrightarrow> adds_for env {t} s (emit_lifecycle env tid et payload s)"
  by (auto simp: adds_for_def emit_adds_report intro: reports_onI)

lemma adds_same: "fx_produced s = fx_produced s' \<Longrightarrow> adds_for env ts s' s'' \<Longrightarrow> adds_for env ts s s''"
  "fx_produced s' = fx_produced s'' \<Longrightarrow> adds_for env ts s s' \<Longrightarrow> adds_for env ts s s''"
  by (simp_all add: adds_for_def)

lemma adds_mono: "adds_for env ts s s' \<Longrightarrow> ts \<subseteq> ts' \<Longrightarrow> adds_for env ts' s s'"
  unfolding adds_for_def by (elim exE conjE, intro exI conjI, assumption) (erule subset_trans, erule reports_mono)

lemma adds_write [simp]: "adds_for env ts (write_lines env ms s) s' \<longleftrightarrow> adds_for env ts s s'"
  "adds_for env ts s (write_lines env ms s') \<longleftrightarrow> adds_for env ts s s'"
  by (simp_all add: adds_for_def)

lemma adds_update [simp]:
  "adds_for env ts s (s'\<lparr>fx_active_turn := a\<rparr>) \<longleftrightarrow> adds_for env ts s s'"
  "adds_for env ts (s\<lparr>fx_active_turn := a\<rparr>) s' \<longleftrightarrow> adds_for env ts s s'"
  "adds_for env ts s (s'\<lparr>fx_agent_stdin := h1\<rparr>) \<longleftrightarrow> adds_for env ts s s'"
  "adds_for env ts (s\<lparr>fx_agent_stdin := h1\<rparr>) s' \<longleftrightarrow> adds_for env ts s s'"
  "adds_for env ts s (s'\<lparr>fx_agent_stdout := h2\<rparr>) \<longleftrightarrow> adds_for env ts s s'"
  "adds_for env ts (s\<lparr>fx_agent_stdout := h2\<rparr>) s' \<longleftrightarrow> adds_for env ts s s'"
  "adds_for env ts s (s'\<lparr>fx_agent_child := h3\<rparr>) \<longleftrightarrow> adds_for env ts s s'"
  "adds_for env ts (s\<lparr>fx_agent_child := h3\<rparr>) s' \<longleftrightarrow> adds_for env ts s s'"
  "adds_for env ts s (s'\<lparr>fx_ticks := n\<rparr>) \<longleftrightarrow> adds_for env ts s s'"
  "adds_for env ts (s\<lparr>fx_ticks := n\<rparr>) s' \<longleftrightarrow> adds_for env ts s s'"
  "adds_for env ts s (s'\<lparr>fx_msg_accumulator := m\<rparr>) \<longleftrightarrow> adds_for env ts s s'"
  "adds_for env ts (s\<lparr>fx_msg_accumulator := m\<rparr>) s' \<longleftrightarrow> adds_for env ts s s'"
  "adds_for env ts s (publish_chunk env ctx c s') \<longleftrightarrow> adds_for env ts s s'"
  by (simp_all add: adds_for_def)

lemma adds_emit_then:
  "adds_for env {t} s s' \<Longrightarrow> names_turn payload t \<Longrightarrow> tid = fst t \<Longrightarrow>
     adds_for env {t} s (emit_lifecycle env tid et payload s')"
  by (rule adds_trans [OF _ adds_emit])

lemma send_prompt_adds: "adds_for env {begun_turn p} s (send_prompt env p acp sid result s)"
  by (simp add: send_prompt_def local_seq_next_def Let_def adds_emit_then)

lemma turn_of_eq [simp]: "turn_of c = turn_of ctx \<longleftrightarrow> tc_task_id c = tc_task_id ctx \<and> tc_turn_id c = tc_turn_id ctx"
  by (simp add: turn_of_def)

lemma emit_step_adds:
  "emit_step env et f ctx s = (ctx', s') \<Longrightarrow> turn_in_work s \<subseteq> {turn_of ctx} \<Longrightarrow>
     (\<And>c step_id n. turn_of c = turn_of ctx \<Longrightarrow> names_turn (f c step_id n) (turn_of ctx)) \<Longrightarrow>
     adds_for env {turn_of ctx} s s' \<and> turn_of ctx' = turn_of ctx \<and> turn_in_work s' \<subseteq> {turn_of ctx}"
  by (auto simp: emit_step_def local_seq_next_def Let_def turn_in_work_def
      intro!: adds_emit_then split: option.splits)

lemma handle_agent_message_adds:
  assumes "fx_active_turn s = Some ctx"
  shows "adds_for env {turn_of ctx} s (handle_agent_message env txt ctx s) \<and>
    turn_in_work (handle_agent_message env txt ctx s) \<subseteq> {turn_of ctx}"
proof (cases "parse_acp_message (fe_parse env) txt")
  case None
  with assms show ?thesis by (simp add: handle_agent_message_def turn_in_work_def)
next
  case (Some ev)
  have now: "turn_in_work s \<subseteq> {turn_of ctx}" using assms by (simp add: turn_in_work_def)
  show ?thesis
  proof (cases ev)
    case (FinalMessage usage)
    obtain ctx' s' where e: "emit_step env ''llm_completed''
        (\<lambda>ctx step_id n. fixlet_llm_completed_payload (tc_task_id ctx) (tc_turn_id ctx) step_id (tc_model ctx)
           (map_option usage_tuple usage) n) ctx s = (ctx', s')" by fastforce
    note st = emit_step_adds [OF e now]
    show ?thesis
      using Some FinalMessage e st now by (simp add: handle_agent_message_def adds_emit_then turn_in_work_def)
  next
    case (AgentError e)
    with Some emit_step_adds [OF surjective_pairing now] show ?thesis by (simp add: handle_agent_message_def)
  qed (use Some assms in \<open>simp_all add: handle_agent_message_def turn_in_work_def\<close>)
qed

lemma on_agent_line_adds:
  "adds_for env (turn_in_work s) s (on_agent_line env txt s) \<and> turn_in_work (on_agent_line env txt s) \<subseteq> turn_in_work s"
proof (cases "fx_active_turn s")
  case (Some ctx)
  with handle_agent_message_adds [OF Some] show ?thesis by (simp add: on_agent_line_def turn_in_work_def [of s])
qed (simp add: on_agent_line_def)

lemma on_agent_exit_adds:
  "adds_for env (turn_in_work s) s (on_agent_exit env s) \<and> turn_in_work (on_agent_exit env s) = {}"
  by (auto simp: on_agent_exit_def turn_in_work_def emit_turn_error_def Let_def adds_emit_then split: option.split)

lemma open_session_adds:
  assumes "turn_in_work s \<subseteq> {begun_turn p}"
  shows "adds_for env {begun_turn p} s (snd (open_session env p lines closed s)) \<and>
     turn_in_work (snd (open_session env p lines closed s)) \<subseteq> {begun_turn p}"
  using assms
  by (cases "await_session (fe_parse env) 1 lines closed")
    (auto simp: open_session_def next_req_id_def acp_client_new_def set_stdin_tx_def emit_turn_error_def Let_def
      adds_emit_then turn_in_work_def send_prompt_def local_seq_next_def turn_context_new_def turn_of_def begun_turn_def
      split: option.split)

lemma handle_execute_turn_adds:
  assumes p: "parse_execute_turn_payload payload = Inr p"
  shows "adds_for env {begun_turn p} s (snd (handle_execute_turn env payload lines closed s)) \<and>
     turn_in_work (snd (handle_execute_turn env payload lines closed s)) \<subseteq> {begun_turn p}"
proof -
  let ?t = "s\<lparr>fx_msg_accumulator := accumulator_reset (fx_msg_accumulator s),
    fx_active_turn := Some (turn_context_new (pe_task_id p) (pe_turn_id p) (pe_redo_group p) (pe_redo_count p))\<rparr>"
  obtain b s1 where e: "ensure_agent env (pe_task_id p) ?t = (b, s1)" by fastforce
  have s1: "fx_active_turn s1 = fx_active_turn ?t" "fx_produced s1 = fx_produced ?t"
    using e by (auto simp: ensure_agent_def spawn_agent_def Let_def split: option.splits if_splits)
  then have work: "turn_in_work s1 \<subseteq> {begun_turn p}" by (simp add: turn_in_work_def turn_context_new_def turn_of_def begun_turn_def)
  have same: "adds_for env ts s1 s' \<Longrightarrow> adds_for env ts s s'" for ts s' using s1(2) by (simp add: adds_for_def)
  have "adds_for env {begun_turn p} s1 (emit_turn_error env (pe_task_id p) (pe_turn_id p) et em s1)" for et em
    by (auto simp: emit_turn_error_def intro: adds_emit)
  with open_session_adds [OF work] work show ?thesis
    by (cases b) (simp_all add: handle_execute_turn_def p e same emit_turn_error_def turn_in_work_def)
qed

lemma fixlet_round_adds:
  assumes "fixlet_round env ev s = Some s'"
  shows "adds_for env (turn_in_work s \<union> begun_by ev) s s'" "turn_in_work s' \<subseteq> turn_in_work s \<union> begun_by ev"
proof -
  have "adds_for env (turn_in_work s \<union> begun_by ev) s s' \<and> turn_in_work s' \<subseteq> turn_in_work s \<union> begun_by ev"
  proof (cases ev)
    case (TurnBegins payload lines closed)
    with assms have s': "s' = snd (handle_execute_turn env payload lines closed s)"
      by (simp only: fixlet_round_TurnBegins)
    show ?thesis
    proof (cases "parse_execute_turn_payload payload")
      case (Inl e)
      then show ?thesis by (simp add: s' handle_execute_turn_def)
    next
      case (Inr p)
      with handle_execute_turn_adds [OF Inr, of env s lines closed] TurnBegins show ?thesis
        unfolding s' by (auto intro: adds_mono [of env "{begun_turn p}"])
    qed
  next
    case (AgentSays line)
    with assms on_agent_line_adds [of env s line] show ?thesis by (simp split: if_splits)
  next
    case AgentExits
    with assms on_agent_exit_adds [of env s] show ?thesis by (auto split: if_splits)
  qed
  then show "adds_for env (turn_in_work s \<union> begun_by ev) s s'" "turn_in_work s' \<subseteq> turn_in_work s \<union> begun_by ev"
    by simp_all
qed

lemma fixlet_run_adds:
  "fixlet_run env evs s = Some s' \<Longrightarrow> adds_for env (turn_in_work s \<union> begun_turns evs) s s'"
proof (induction evs arbitrary: s)
  case (Cons ev evs)
  then obtain s1 where s1: "fixlet_round env ev s = Some s1" "fixlet_run env evs s1 = Some s'"
    by (auto simp: bind_eq_Some_conv)
  let ?ts = "turn_in_work s \<union> begun_turns (ev # evs)"
  have "adds_for env ?ts s s1"
    by (rule adds_mono [OF fixlet_round_adds(1) [OF s1(1)]]) (auto simp: begun_turns_def)
  moreover have "adds_for env ?ts s1 s'"
    using fixlet_round_adds(2) [OF s1(1)]
    by (intro adds_mono [OF Cons.IH [OF s1(2)]]) (auto simp: begun_turns_def)
  ultimately show ?case by (rule adds_trans)
qed simp

text \<open>
  C24. The fixlet works on one turn: from the moment another turn is handed over, every record it reports names,
  in its payload and its key, that turn (its task and its number) or one handed over later. A turn that was
  still being answered, the previous turn of the same task included, gets no report any more, neither its answer
  nor a failure, unless it is itself handed over again.
\<close>

theorem interrupted_turn_never_reported:
  assumes "fixlet_run env (TurnBegins payload lines closed # evs) s = Some s'"
    "parse_execute_turn_payload payload = Inr p"
  shows "\<exists>new. fx_produced s' = fx_produced s @ new \<and>
     (\<forall>r \<in> set new. \<exists>t \<in> insert (pe_task_id p, pe_turn_id p) (begun_turns evs). \<exists>payload.
        names_turn payload t \<and> pq_content r = fe_print env payload \<and> pq_shard_key r = Some (fst t))"
proof -
  obtain s1 where s1: "fixlet_round env (TurnBegins payload lines closed) s = Some s1"
    "fixlet_run env evs s1 = Some s'"
    using assms(1) by (auto simp: bind_eq_Some_conv simp del: fixlet_round.simps)
  let ?ts = "insert (begun_turn p) (begun_turns evs)"
  have begun: "adds_for env {begun_turn p} s s1" "turn_in_work s1 \<subseteq> {begun_turn p}"
    using handle_execute_turn_adds [OF assms(2), of env s lines closed] fixlet_round_TurnBegins [OF s1(1)]
    by simp_all
  have "adds_for env ?ts s s1" by (rule adds_mono [OF begun(1)]) simp
  moreover have "adds_for env ?ts s1 s'"
    using begun(2) by (intro adds_mono [OF fixlet_run_adds [OF s1(2)]]) auto
  ultimately have "adds_for env ?ts s s'" by (rule adds_trans)
  then show ?thesis by (fastforce simp: adds_for_def reports_on_def begun_turn_def task_end_request_def)
qed

text \<open>
  A concrete fixlet: the agent's lines are the texts below, the JSON printer shows nothing.
\<close>

definition sample_fixlet_parse :: "string \<Rightarrow> json option" where
  "sample_fixlet_parse txt =
     (if txt = ''new'' then Some (JObj [(''id'', JInt 1), (''result'', JObj [(''sessionId'', JStr ''s1'')])])
      else if txt = ''chunk'' then
        Some (JObj [(''method'', JStr ''session/update''),
                    (''params'', JObj [(''update'', JObj [(''sessionUpdate'', JStr ''agent_message_chunk''),
                       (''content'', JObj [(''text'', JStr ''hi'')])])])])
      else if txt = ''end'' then Some (JObj [(''id'', JInt 2), (''result'', JObj [(''stopReason'', JStr ''end_turn'')])])
      else if txt = ''stop'' then Some (JObj [(''id'', JInt 2), (''result'', JObj [(''stopReason'', JStr ''max_tokens'')])])
      else None)"

definition sample_fixlet_env :: fixlet_env where
  "sample_fixlet_env =
     \<lparr>fe_config = \<lparr>fg_task_type = ''t'', fg_backend = ClaudeCodeBackend ''agent'', fg_agent_cwd = None\<rparr>,
      fe_namespace = ''ns'', fe_print = (\<lambda>_. []), fe_parse = sample_fixlet_parse, fe_uuid = show_nat,
      fe_broker = (\<lambda>_ _. None), fe_spawn = (\<lambda>_ _ _. True), fe_redis = False, fe_tools_bank_url = None\<rparr>"

definition sample_dispatch :: json where
  "sample_dispatch = JObj [(''session_id'', JStr ''task''), (''turn_id'', JInt 4)]"

lemma fixlet_ok_new [simp]: "fixlet_ok fixlet_new"
  by (simp add: fixlet_ok_def fixlet_new_def)

lemma sample_lines:
  "await_session sample_fixlet_parse 1 [''noise'', ''new''] False = SessionCreated ''s1'' (JObj [(''sessionId'', JStr ''s1'')])"
  "parse_acp_message sample_fixlet_parse ''chunk'' = Some (MessageChunk ''hi'')"
  "parse_acp_message sample_fixlet_parse ''end'' = Some (FinalMessage None)"
  "parse_acp_message sample_fixlet_parse ''stop'' =
     Some (OtherMessage (JObj [(''id'', JInt 2), (''result'', JObj [(''stopReason'', JStr ''max_tokens'')])]))"
  by (simp_all add: sample_fixlet_parse_def parse_acp_message_def parse_notification_def parse_response_def
      content_text_def in_i64_def Let_def)

lemma sample_dispatch_parsed:
  "parse_execute_turn_payload sample_dispatch = Inr
     \<lparr>pe_task_id = ''task'', pe_turn_id = 4, pe_user_input = [], pe_redo_group = [], pe_redo_count = 0,
      pe_summary = [], pe_messages = [], pe_effective_policy = None\<rparr>"
  by (simp add: sample_dispatch_def parse_execute_turn_payload_def str_field_def i64_field_def in_i64_def
      in_i32_def)

lemma sample_fixlet_env_fields:
  "fe_parse sample_fixlet_env = sample_fixlet_parse" "fe_broker sample_fixlet_env = (\<lambda>_ _. None)"
  "fe_spawn sample_fixlet_env n spec dir"
  by (simp_all add: sample_fixlet_env_def)

lemma answered_turn_reported_whole_witness:
  "\<exists>s' step_id model.
     fixlet_run sample_fixlet_env
       [TurnBegins sample_dispatch [''noise'', ''new''] False, AgentSays ''chunk'', AgentSays ''end''] fixlet_new = Some s' \<and>
     map pq_event_type (fx_produced s') = [''llm_invoked'', ''llm_completed'', ''turn_execution_done'']"
  using answered_turn_reported_whole [OF sample_dispatch_parsed fixlet_ok_new, of sample_fixlet_env
      "[''noise'', ''new'']" False "''s1''" "JObj [(''sessionId'', JStr ''s1'')]" "[''chunk'']" "''end''" None]
  by (auto simp: sample_fixlet_env_fields sample_lines keeps_talking_def fixlet_new_def task_end_request_def
      answer_reports_def simp del: fixlet_run.simps fixlet_round.simps await_session.simps)

lemma answered_turn_reported_lost_on_exit_witness:
  "\<exists>s'. fixlet_run sample_fixlet_env
       [TurnBegins sample_dispatch [''noise'', ''new''] False, AgentSays ''chunk'', AgentSays ''end'', AgentExits]
       fixlet_new = Some s' \<and>
     map pq_event_type (fx_produced s') =
       [''llm_invoked'', ''llm_completed'', ''turn_execution_done'', ''llm_failed'', ''turn_execution_error'']"
  using answered_turn_reported_lost_on_exit [OF sample_dispatch_parsed fixlet_ok_new, of sample_fixlet_env
      "[''noise'', ''new'']" False "''s1''" "JObj [(''sessionId'', JStr ''s1'')]" "[''chunk'']" "''end''" None]
  by (auto simp: sample_fixlet_env_fields sample_lines keeps_talking_def fixlet_new_def task_end_request_def
      answer_reports_def simp del: fixlet_run.simps fixlet_round.simps await_session.simps)

lemma turn_ends_only_on_end_turn_witness:
  "filter ends_turn (fx_produced (on_agent_line sample_fixlet_env ''stop''
     (fixlet_new\<lparr>fx_active_turn := Some (turn_context_new ''task'' 4 [] 0)\<rparr>))) = []"
proof -
  let ?s = "fixlet_new\<lparr>fx_active_turn := Some (turn_context_new ''task'' 4 [] 0)\<rparr>"
  have "\<not> is_end_turn sample_fixlet_env ''stop''"
    by (simp add: is_end_turn_iff sample_fixlet_env_fields sample_lines)
  moreover have "fx_produced ?s = []" by (simp add: fixlet_new_def)
  ultimately show ?thesis
    using turn_ends_only_on_end_turn [of sample_fixlet_env ?s "turn_context_new ''task'' 4 [] 0" "''stop''"]
    by (auto simp: sample_fixlet_env_fields)
qed

lemma interrupted_turn_never_reported_witness:
  "\<exists>s'. fixlet_run sample_fixlet_env [TurnBegins sample_dispatch [''new''] False]
       (fixlet_new\<lparr>fx_active_turn := Some (turn_context_new ''task'' 3 [] 0)\<rparr>) = Some s' \<and>
     (\<forall>r \<in> set (fx_produced s'). \<exists>payload. names_turn payload (''task'', 4) \<and>
        pq_content r = fe_print sample_fixlet_env payload)"
proof -
  let ?s = "fixlet_new\<lparr>fx_active_turn := Some (turn_context_new ''task'' 3 [] 0)\<rparr>"
  have "fixlet_ok ?s" by (simp add: fixlet_ok_def fixlet_new_def turn_named_def turn_context_new_def in_i64_def)
  moreover have "await_session sample_fixlet_parse 1 [''new''] False =
      SessionCreated ''s1'' (JObj [(''sessionId'', JStr ''s1'')])"
    by (simp add: sample_fixlet_parse_def in_i64_def)
  ultimately obtain s' where
    "fixlet_run sample_fixlet_env [TurnBegins sample_dispatch [''new''] False] ?s = Some s'"
    using hand_over_effect [OF sample_dispatch_parsed, of ?s sample_fixlet_env "[''new'']" False]
    by (auto simp: sample_fixlet_env_fields simp del: fixlet_round.simps)
  then show ?thesis
    using interrupted_turn_never_reported [of sample_fixlet_env sample_dispatch "[''new'']" False "[]" ?s s',
        OF _ sample_dispatch_parsed]
    by (fastforce simp: begun_turns_def fixlet_new_def simp del: fixlet_run.simps)
qed

end
