(* ===== verification/Fixlet_Contracts.thy ===== *)
theory Fixlet_Contracts
  imports Fixlet_Properties Orchestrator Tools_Bank
begin

text \<open>
  The fixlet between the other programs: the dispatch record of the orchestrator as the fixlet reads it,
  the headers it gives the agent as the tools bank reads them, and its reports as the orchestrator's
  consumer reads them.
\<close>

section \<open>From the orchestrator to the fixlet\<close>

text \<open>
  The dispatch record: what the orchestrator writes for a turn is claimed and read back by the fixlet
  with every value in place, task, number, input, redo group and count, summary, messages and policy.
\<close>

theorem dispatch_record_roundtrip:
  assumes "tid \<noteq> []" "n \<noteq> 0" "in_i64 n" "in_i32 rc" "gr_event_type rec = ''execute_turn''"
    and "parse (gr_content rec) = Some (build_turn_begin_payload cd tid n user_input summary messages rg rc eff)"
  shows "\<exists>payload. claim_record parse rec handed = (Inr True, handed @ [payload]) \<and>
     parse_execute_turn_payload payload = Inr
       \<lparr>pe_task_id = tid, pe_turn_id = n, pe_user_input = user_input, pe_redo_group = rg, pe_redo_count = rc,
        pe_summary = summary, pe_messages = messages,
        pe_effective_policy = Some (case eff of None \<Rightarrow> JNull | Some p \<Rightarrow> enc_effective cd p)\<rparr>"
proof -
  have "in_i64 rc" using assms(4) by (simp add: in_i64_def in_i32_def)
  with assms show ?thesis
    by (simp add: claim_record_def build_turn_begin_payload_def parse_execute_turn_payload_def str_field_def
        i64_field_def Let_def)
qed

lemma dispatch_record_roundtrip_witness:
  "\<exists>payload. claim_record (\<lambda>_. Some (build_turn_begin_payload (sample_codec JNull) ''task'' 3 ''hi'' [] [] ''rg'' 1 None))
       \<lparr>gr_shard = 0, gr_seq = 1, gr_event_type = ''execute_turn'', gr_content = []\<rparr> [] =
       ((Inr True :: string + bool), [payload]) \<and>
     map_option pe_user_input (case parse_execute_turn_payload payload of Inr p \<Rightarrow> Some p | Inl _ \<Rightarrow> None) = Some ''hi''"
  using dispatch_record_roundtrip [of "''task''" 3 1
      "\<lparr>gr_shard = 0, gr_seq = 1, gr_event_type = ''execute_turn'', gr_content = []\<rparr>"
      "\<lambda>_. Some (build_turn_begin_payload (sample_codec JNull) ''task'' 3 ''hi'' [] [] ''rg'' 1 None)"
      "sample_codec JNull" "''hi''" "[]" "[]" "''rg''" None "[]"]
  by (force simp: in_i64_def in_i32_def)

section \<open>From the fixlet to the tools bank\<close>

text \<open>The headers an agent sends along, from the parameters of its session.\<close>

definition header_of_json :: "json \<Rightarrow> (string \<times> string) option" where
  "header_of_json h =
     (case (Option.bind (jget ''name'' h) as_str, Option.bind (jget ''value'' h) as_str) of
        (Some k, Some v) \<Rightarrow> Some (k, v) | _ \<Rightarrow> None)"

definition server_headers :: "json \<Rightarrow> (string \<times> string) list" where
  "server_headers params =
     (case jget ''mcpServers'' params of
        Some (JArr (srv # _)) \<Rightarrow>
          (case jget ''headers'' srv of Some (JArr hs) \<Rightarrow> List.map_filter header_of_json hs | _ \<Rightarrow> [])
      | _ \<Rightarrow> [])"

lemma session_params_servers:
  "jget ''mcpServers'' (build_session_new_params b tid cwd url n pol) =
     Some (JArr [JObj [(''type'', JStr ''http''), (''name'', JStr ''fixus''), (''url'', JStr url),
       (''headers'', JArr (map header_json (session_headers tid n pol)))]])"
  "jget ''cwd'' (build_session_new_params b tid cwd url n pol) = Some (JStr cwd)"
  by (cases b; simp add: build_session_new_params_def update_conv)+

lemma map_filter_headers: "List.map_filter header_of_json (map header_json hs) = hs"
  by (induction hs) (simp_all add: map_filter_simps header_of_json_def header_json_def)

lemma session_params_headers: "server_headers (build_session_new_params b tid cwd url n pol) = session_headers tid n pol"
  by (simp add: server_headers_def session_params_servers map_filter_headers)

text \<open>
  C9. Across the three programs: the tools bank attributes a tool call to the task and the turn the
  orchestrator dispatched, under the policy the orchestrator resolved, whatever backend the fixlet drives,
  when the agent sends the headers it was given and the policy's text reads back.
\<close>

theorem dispatched_policy_reaches_tool_calls:
  assumes "tid \<noteq> []" "n \<noteq> 0" "in_i64 n"
    and "be_parse bank (pr (enc_effective cd eff)) = Some (enc_effective cd eff)"
  shows "\<exists>p. parse_execute_turn_payload
         (build_turn_begin_payload cd tid n user_input summary messages rg rc (Some eff)) = Inr p \<and>
     handle_mcp bank app
       (map_of (server_headers (build_session_new_params backend (pe_task_id p) cwd url (pe_turn_id p)
          (map_option pr (pe_effective_policy p)))))
       \<lparr>mq_id = rid, mq_method = ''tools/call'',
        mq_params = Some (JObj [(''name'', JStr tool), (''arguments'', args)])\<rparr> =
     tools_call bank app tid (Some n) tool args (Some (enc_effective cd eff)) rid"
  using assms
  by (simp add: build_turn_begin_payload_def parse_execute_turn_payload_def str_field_def i64_field_def
      session_params_headers session_headers_def handle_mcp_def parse_show_int Let_def)

lemma dispatched_policy_reaches_tool_calls_witness:
  "\<forall>bank app eff. \<exists>p. parse_execute_turn_payload
         (build_turn_begin_payload (sample_codec JNull) ''task'' 3 ''hi'' [] [] ''rg'' 0 (Some eff)) = Inr p \<and>
     handle_mcp (bank\<lparr>be_parse := (\<lambda>_. Some JNull)\<rparr> :: bank_env) app
       (map_of (server_headers (build_session_new_params (ClaudeCodeBackend ''a'') (pe_task_id p) ''/tmp'' ''u''
          (pe_turn_id p) (map_option (\<lambda>_. ''null'') (pe_effective_policy p)))))
       \<lparr>mq_id = None, mq_method = ''tools/call'',
        mq_params = Some (JObj [(''name'', JStr ''Bash''), (''arguments'', JNull)])\<rparr> =
     tools_call (bank\<lparr>be_parse := (\<lambda>_. Some JNull)\<rparr>) app ''task'' (Some 3) ''Bash'' JNull (Some JNull) None"
proof (intro allI)
  fix bank :: bank_env and app eff
  show "\<exists>p. parse_execute_turn_payload
         (build_turn_begin_payload (sample_codec JNull) ''task'' 3 ''hi'' [] [] ''rg'' 0 (Some eff)) = Inr p \<and>
     handle_mcp (bank\<lparr>be_parse := (\<lambda>_. Some JNull)\<rparr>) app
       (map_of (server_headers (build_session_new_params (ClaudeCodeBackend ''a'') (pe_task_id p) ''/tmp'' ''u''
          (pe_turn_id p) (map_option (\<lambda>_. ''null'') (pe_effective_policy p)))))
       \<lparr>mq_id = None, mq_method = ''tools/call'',
        mq_params = Some (JObj [(''name'', JStr ''Bash''), (''arguments'', JNull)])\<rparr> =
     tools_call (bank\<lparr>be_parse := (\<lambda>_. Some JNull)\<rparr>) app ''task'' (Some 3) ''Bash'' JNull (Some JNull) None"
    using dispatched_policy_reaches_tool_calls [of "''task''" 3 "bank\<lparr>be_parse := (\<lambda>_. Some JNull)\<rparr>" "\<lambda>_. ''null''"
        "sample_codec JNull" eff "''hi''" "[]" "[]" "''rg''" 0 app "ClaudeCodeBackend ''a''" "''/tmp''" "''u''" None
        "''Bash''" JNull]
    by (simp add: in_i64_def sample_codec_def)
qed

section \<open>From the fixlet to the orchestrator\<close>

datatype agent_report =
    CallBegun string string "message list" int      \<comment> \<open>step, model, messages, number\<close>
  | CallCompleted string string "(int \<times> int \<times> int) option" int      \<comment> \<open>step, model, usage, number\<close>
  | CallFailed string string string int      \<comment> \<open>step, error type, message, number\<close>
  | TurnDone int string      \<comment> \<open>greatest number, answer\<close>
  | TurnLost string string      \<comment> \<open>error type, message\<close>

fun agent_report_type :: "agent_report \<Rightarrow> string" where
  "agent_report_type (CallBegun _ _ _ _) = ''llm_invoked''"
| "agent_report_type (CallCompleted _ _ _ _) = ''llm_completed''"
| "agent_report_type (CallFailed _ _ _ _) = ''llm_failed''"
| "agent_report_type (TurnDone _ _) = ''turn_execution_done''"
| "agent_report_type (TurnLost _ _) = ''turn_execution_error''"

fun agent_report_payload :: "string \<Rightarrow> int \<Rightarrow> agent_report \<Rightarrow> json" where
  "agent_report_payload tid n (CallBegun step model messages k) = fixlet_llm_invoked_payload tid n step model messages k"
| "agent_report_payload tid n (CallCompleted step model usage k) = fixlet_llm_completed_payload tid n step model usage k"
| "agent_report_payload tid n (CallFailed step et em k) = fixlet_llm_failed_payload tid n step et em k"
| "agent_report_payload tid n (TurnDone k output) = turn_done_payload tid n k output"
| "agent_report_payload tid n (TurnLost et em) = turn_error_payload tid n et em"

fun agent_report_handler :: "'s orch_env \<Rightarrow> string \<Rightarrow> int \<Rightarrow> agent_report \<Rightarrow> ('s, unit) oop" where
  "agent_report_handler env tid n (CallBegun step model messages k) =
     handle_llm_invoked env tid (Some n) step model messages k"
| "agent_report_handler env tid n (CallCompleted step model usage k) =
     (case unwrap_or (0, 0, 0) usage of (i, out, t) \<Rightarrow> handle_llm_completed env tid n step model i out t k)"
| "agent_report_handler env tid n (CallFailed step et em k) = handle_llm_failed env tid (Some n) step et em k"
| "agent_report_handler env tid n (TurnDone k output) = handle_turn_execution_done env tid n k output"
| "agent_report_handler env tid n (TurnLost et em) = handle_turn_execution_error env tid n et em"

text \<open>Reports as the fixlet makes them: the step is named and the numbers are \<open>i64\<close> values.\<close>

fun report_sound :: "agent_report \<Rightarrow> bool" where
  "report_sound (CallBegun step _ _ k) \<longleftrightarrow> step \<noteq> [] \<and> in_i64 k"
| "report_sound (CallCompleted step _ usage k) \<longleftrightarrow> step \<noteq> [] \<and> in_i64 k \<and>
     (case unwrap_or (0, 0, 0) usage of (i, out, t) \<Rightarrow> in_i64 i \<and> in_i64 out \<and> in_i64 t)"
| "report_sound (CallFailed step _ _ k) \<longleftrightarrow> step \<noteq> [] \<and> in_i64 k"
| "report_sound (TurnDone k _) \<longleftrightarrow> in_i64 k"
| "report_sound (TurnLost _ _) \<longleftrightarrow> True"

text \<open>
  C11. Every report of the fixlet, read by the orchestrator's consumer, is the call of the handler for it
  with exactly the values the fixlet put in, and is committed, whatever handler and state. The JSON text
  reads back as a value with the same members.
\<close>

theorem agent_reports_reach_handlers:
  assumes "tid \<noteq> []" "n \<noteq> 0" "in_i64 n" "report_sound report"
    and "from_slice (oe_codec env) content = Some j"
    and "\<And>k. jget k j = jget k (agent_report_payload tid n report)"
  shows "lifecycle_record env
      \<lparr>gr_shard = shard, gr_seq = q, gr_event_type = agent_report_type report, gr_content = content\<rparr> =
    andThen (discard (agent_report_handler env tid n report)) (\<lambda>_. ok True)"
  using assms
  by (cases report)
    (auto simp: lifecycle_record_def when_usable_def str_field_def i64_field_def jindex_def Let_def
      lifecycle_messages_def fixlet_llm_invoked_payload_def fixlet_llm_completed_payload_def
      fixlet_llm_failed_payload_def turn_done_payload_def turn_error_payload_def split: prod.splits)

lemma agent_reports_reach_handlers_witness:
  "(\<lambda>env :: unit orch_env. lifecycle_record
       (env\<lparr>oe_codec := sample_codec (agent_report_payload ''t'' 2 (TurnDone 2 ''hi''))\<rparr>)
       \<lparr>gr_shard = 0, gr_seq = 5, gr_event_type = ''turn_execution_done'', gr_content = []\<rparr>) =
   (\<lambda>env. andThen (discard (handle_turn_execution_done
       (env\<lparr>oe_codec := sample_codec (agent_report_payload ''t'' 2 (TurnDone 2 ''hi''))\<rparr>) ''t'' 2 2 ''hi''))
       (\<lambda>_. ok True))"
proof
  fix env :: "unit orch_env"
  let ?r = "TurnDone 2 ''hi''"
  let ?env = "env\<lparr>oe_codec := sample_codec (agent_report_payload ''t'' 2 ?r)\<rparr>"
  have "lifecycle_record ?env
      \<lparr>gr_shard = 0, gr_seq = 5, gr_event_type = agent_report_type ?r, gr_content = []\<rparr> =
    andThen (discard (agent_report_handler ?env ''t'' 2 ?r)) (\<lambda>_. ok True)"
    by (rule agent_reports_reach_handlers) (simp_all add: sample_codec_def in_i64_def)
  then show "lifecycle_record ?env
      \<lparr>gr_shard = 0, gr_seq = 5, gr_event_type = ''turn_execution_done'', gr_content = []\<rparr> =
    andThen (discard (handle_turn_execution_done ?env ''t'' 2 2 ''hi'')) (\<lambda>_. ok True)"
    by (simp only: agent_report_type.simps agent_report_handler.simps)
qed

end
