(* ===== verification/Stream_Server.thy ===== *)
theory Stream_Server
  imports Models "HOL-Library.Sublist"
begin

text \<open>
  The stream server (\<open>src/bin/fixus-stream/main.rs\<close>): it replays the events of a turn from the log, follows
  the log live, and forwards the tokens of the answer. What the log, the subscription and the token channel
  deliver, and how long the client stays, are parameters.
\<close>

section \<open>Events\<close>

record stream_record =
  sm_seq :: nat
  sm_event_type :: string
  sm_content :: string
  sm_metadata :: "(string \<times> string) list"

text \<open>An event sent to the client: its name and its data.\<close>

type_synonym sse_event = "string \<times> string"

definition terminal_events :: "string list" where
  "terminal_events = [''turn_completed'', ''turn_failed'', ''turn_canceled'', ''turn_blocked'']"

definition ends_stream :: "string \<Rightarrow> bool" where
  "ends_stream et \<longleftrightarrow> et \<in> set terminal_events"

definition subscribe_event_types :: "string list" where
  "subscribe_event_types =
     [''turn_started'', ''turn_completed'', ''turn_failed'', ''turn_canceled'', ''turn_blocked'',
      ''llm_invoked'', ''llm_completed'', ''llm_failed'',
      ''tool_invoked'', ''tool_completed'', ''tool_failed'']"

definition of_turn :: "int \<Rightarrow> stream_record \<Rightarrow> bool" where
  "of_turn turn_id rec \<longleftrightarrow> Option.bind (map_of (sm_metadata rec) ''turn_id'') parse_i64 = Some turn_id"

text \<open>\<open>lossy\<close> is \<open>String::from_utf8_lossy\<close>.\<close>

definition sse_of :: "(string \<Rightarrow> string) \<Rightarrow> stream_record \<Rightarrow> sse_event" where
  "sse_of lossy rec = (sm_event_type rec, lossy (sm_content rec))"

definition done_event :: sse_event where
  "done_event = (''done'', ''{}'')"

section \<open>Replay\<close>

record replay_plan =
  rp_events :: "sse_event list"
  rp_hit_terminal :: bool
  rp_last_seq :: int

fun replay_records :: "(string \<Rightarrow> string) \<Rightarrow> stream_record list \<Rightarrow> replay_plan \<Rightarrow> replay_plan" where
  "replay_records lossy [] plan = plan"
| "replay_records lossy (rec # recs) plan =
     (let plan = plan\<lparr>rp_last_seq := max (rp_last_seq plan) (wrap_i64 (int (sm_seq rec))),
                      rp_events := rp_events plan @ [sse_of lossy rec]\<rparr>
      in if ends_stream (sm_event_type rec) then plan\<lparr>rp_hit_terminal := True\<rparr>
         else replay_records lossy recs plan)"

definition plan_history_replay :: "(string \<Rightarrow> string) \<Rightarrow> stream_record list \<Rightarrow> int \<Rightarrow> replay_plan" where
  "plan_history_replay lossy history turn_id =
     replay_records lossy (sort_key sm_seq (filter (of_turn turn_id) history))
       \<lparr>rp_events = [], rp_hit_terminal = False, rp_last_seq = 0\<rparr>"

definition should_emit_live :: "int \<Rightarrow> int \<Rightarrow> bool" where
  "should_emit_live sq last_history_seq \<longleftrightarrow> sq > last_history_seq"

section \<open>Sending\<close>

text \<open>
  Sending to the client: \<open>stays n\<close> says whether it takes one more event after \<open>n\<close>. The result is whether
  it did, and the events it took.
\<close>

definition sse_send :: "(nat \<Rightarrow> bool) \<Rightarrow> sse_event \<Rightarrow> sse_event list \<Rightarrow> bool \<times> sse_event list" where
  "sse_send stays ev sent = (if stays (length sent) then (True, sent @ [ev]) else (False, sent))"

fun send_all :: "(nat \<Rightarrow> bool) \<Rightarrow> sse_event list \<Rightarrow> sse_event list \<Rightarrow> bool \<times> sse_event list" where
  "send_all stays [] sent = (True, sent)"
| "send_all stays (ev # evs) sent =
     (case sse_send stays ev sent of (True, sent) \<Rightarrow> send_all stays evs sent | (False, sent) \<Rightarrow> (False, sent))"

text \<open>The live loop: a frame is an error or a record; every way out is followed by \<open>done\<close>.\<close>

fun live_loop ::
  "(nat \<Rightarrow> bool) \<Rightarrow> (string \<Rightarrow> string) \<Rightarrow> int \<Rightarrow> int \<Rightarrow> (string + stream_record) list \<Rightarrow> sse_event list \<Rightarrow> sse_event list" where
  "live_loop stays lossy turn_id last_seq [] sent = snd (sse_send stays done_event sent)"
| "live_loop stays lossy turn_id last_seq (Inl e # fs) sent = snd (sse_send stays done_event sent)"
| "live_loop stays lossy turn_id last_seq (Inr rec # fs) sent =
     (if \<not> should_emit_live (wrap_i64 (int (sm_seq rec))) last_seq then live_loop stays lossy turn_id last_seq fs sent
      else if \<not> of_turn turn_id rec then live_loop stays lossy turn_id last_seq fs sent
      else (case sse_send stays (sse_of lossy rec) sent of
              (False, sent) \<Rightarrow> snd (sse_send stays done_event sent)
            | (True, sent) \<Rightarrow>
                if ends_stream (sm_event_type rec) then snd (sse_send stays done_event sent)
                else live_loop stays lossy turn_id last_seq fs sent))"

text \<open>
  A request for the stream of a turn: what a subscription to given event types delivers or the error of
  making it, and the history or the error of reading it. \<open>show_error\<close> is the error as JSON text.
\<close>

definition stream_handler ::
  "(nat \<Rightarrow> bool) \<Rightarrow> (string \<Rightarrow> string) \<Rightarrow> (string \<Rightarrow> string) \<Rightarrow> int
    \<Rightarrow> (string list \<Rightarrow> string + (string + stream_record) list) \<Rightarrow> string + stream_record list \<Rightarrow> sse_event list" where
  "stream_handler stays lossy show_error turn_id subscribe history =
     (case subscribe subscribe_event_types of
        Inl e \<Rightarrow> snd (sse_send stays (''error'', show_error e) [])
      | Inr live \<Rightarrow>
          (case history of
             Inl _ \<Rightarrow> live_loop stays lossy turn_id 0 live []
           | Inr recs \<Rightarrow>
               (let plan = plan_history_replay lossy recs turn_id
                in case send_all stays (rp_events plan) [] of
                     (False, sent) \<Rightarrow> sent
                   | (True, sent) \<Rightarrow>
                       if rp_hit_terminal plan then snd (sse_send stays done_event sent)
                       else live_loop stays lossy turn_id (rp_last_seq plan) live sent)))"

text \<open>
  The tokens, forwarded as they come until the client leaves: the channel, and the events made of the
  messages, an unreadable one counting as empty.
\<close>

definition token_channel :: "string \<Rightarrow> int \<Rightarrow> string" where
  "token_channel session_id turn_id = ''turn:'' @ session_id @ '':'' @ show_int turn_id"

definition token_loop :: "(nat \<Rightarrow> bool) \<Rightarrow> bool \<Rightarrow> string option list \<Rightarrow> sse_event list" where
  "token_loop stays subscribed msgs =
     (if subscribed then snd (send_all stays (map (\<lambda>m. (''llm_chunk'', unwrap_or [] m)) msgs) []) else [])"

section \<open>What the client sees\<close>

text \<open>The records up to the first that ends the stream, that one included.\<close>

fun upto_end :: "stream_record list \<Rightarrow> stream_record list" where
  "upto_end [] = []"
| "upto_end (r # rs) = (if ends_stream (sm_event_type r) then [r] else r # upto_end rs)"

abbreviation has_end :: "stream_record list \<Rightarrow> bool" where
  "has_end rs \<equiv> \<exists>r \<in> set rs. ends_stream (sm_event_type r)"

lemma upto_end_append: "upto_end (xs @ ys) = (if has_end xs then upto_end xs else xs @ upto_end ys)"
  by (induction xs) auto

lemma upto_end_id [simp]: "\<not> has_end xs \<Longrightarrow> upto_end xs = xs"
  by (induction xs) auto

lemma replay_records_spec:
  "rp_events (replay_records lossy recs plan) = rp_events plan @ map (sse_of lossy) (upto_end recs)"
  "rp_hit_terminal (replay_records lossy recs plan) = (rp_hit_terminal plan \<or> has_end recs)"
  "rp_last_seq (replay_records lossy recs plan) =
     fold (\<lambda>r n. max n (wrap_i64 (int (sm_seq r)))) (upto_end recs) (rp_last_seq plan)"
  by (induction lossy recs plan rule: replay_records.induct) (auto simp: Let_def)

lemma send_all_staying: "(\<And>n. stays n) \<Longrightarrow> send_all stays evs sent = (True, sent @ evs)"
  by (induction evs arbitrary: sent) (simp_all add: sse_send_def)

lemma live_loop_staying:
  assumes "\<And>n. stays n"
  shows "live_loop stays lossy turn_id lst (map Inr recs) sent =
    sent @ map (sse_of lossy)
      (upto_end (filter (\<lambda>r. of_turn turn_id r \<and> wrap_i64 (int (sm_seq r)) > lst) recs)) @ [done_event]"
  by (induction recs arbitrary: sent) (auto simp: assms sse_send_def should_emit_live_def)

lemma last_seq_sorted:
  "sorted_wrt (<) (map sm_seq rs) \<Longrightarrow> \<forall>r \<in> set rs. 0 < sm_seq r \<and> sm_seq r < 2 ^ 63 \<Longrightarrow> rs \<noteq> [] \<Longrightarrow>
     fold (\<lambda>r n. max n (wrap_i64 (int (sm_seq r)))) rs 0 = int (sm_seq (last rs))"
proof (induction rs rule: rev_induct)
  case (snoc r rs)
  then have r: "wrap_i64 (int (sm_seq r)) = int (sm_seq r)"
    using wrap_i64_id [of "int (sm_seq r)"] by (simp add: in_i64_def)
  show ?case
  proof (cases "rs = []")
    case False
    with snoc have "fold (\<lambda>r n. max n (wrap_i64 (int (sm_seq r)))) rs 0 = int (sm_seq (last rs))"
      by (simp add: sorted_wrt_append)
    moreover have "sm_seq (last rs) < sm_seq r"
      using snoc.prems(1) False by (auto simp: sorted_wrt_append)
    ultimately show ?thesis using r by simp
  qed (use r in simp)
qed simp

lemma sort_key_sorted: "sorted_wrt (<) (map sm_seq rs) \<Longrightarrow> sort_key sm_seq rs = rs"
  by (rule sort_key_id_if_sorted) (auto simp: strict_sorted_iff)

text \<open>
  Splitting a sorted list at a position: what lies beyond the last element of the first part is the rest.
\<close>

lemma sorted_last_ge: "sorted ns \<Longrightarrow> n \<in> set ns \<Longrightarrow> n \<le> last ns" for n :: nat
  by (induction ns rule: rev_induct) (auto simp: sorted_append)

lemma beyond_last:
  assumes "sorted_wrt (<) (map sm_seq (xs @ ys))" "\<forall>r \<in> set (xs @ ys). 0 < sm_seq r \<and> sm_seq r < 2 ^ 63"
    and "lst = (if filter P xs = [] then 0 else int (sm_seq (last (filter P xs))))"
  shows "filter (\<lambda>r. P r \<and> wrap_i64 (int (sm_seq r)) > lst) (drop k xs @ ys) = filter P ys"
proof -
  have w: "wrap_i64 (int (sm_seq r)) = int (sm_seq r)" if "r \<in> set (xs @ ys)" for r
    using assms(2) that by (auto simp: in_i64_def intro!: wrap_i64_id)
  have "\<not> int (sm_seq r) > lst" if "r \<in> set xs" "P r" for r
  proof -
    have ne: "filter P xs \<noteq> []" using that by (auto simp: filter_empty_conv)
    have "sorted (map sm_seq (filter P xs))"
      using assms(1) sorted_filter [of sm_seq xs P] by (simp add: sorted_wrt_append strict_sorted_iff)
    then have "sm_seq r \<le> sm_seq (last (filter P xs))"
      using sorted_last_ge [of "map sm_seq (filter P xs)" "sm_seq r"] that ne by (simp add: last_map)
    with ne assms(3) show ?thesis by simp
  qed
  then have "filter (\<lambda>r. P r \<and> wrap_i64 (int (sm_seq r)) > lst) (drop k xs) = []"
    using w by (auto simp: filter_empty_conv dest: in_set_dropD)
  moreover have "int (sm_seq r) > lst" if "r \<in> set ys" for r
  proof (cases "filter P xs = []")
    case False
    then have "last (filter P xs) \<in> set xs" by (metis filter_is_subset last_in_set subsetD)
    with assms(1,3) that False show ?thesis by (auto simp: sorted_wrt_append)
  qed (use assms(2,3) that in simp)
  then have "filter (\<lambda>r. P r \<and> wrap_i64 (int (sm_seq r)) > lst) ys = filter P ys"
    using w by (intro filter_cong) auto
  ultimately show ?thesis by simp
qed

text \<open>
  The events a client follows live: those of steps, and those of turns but for \<open>turn_pending\<close>.
\<close>

definition followed :: "stream_record \<Rightarrow> bool" where
  "followed r \<longleftrightarrow>
     (case event_type_from_str (sm_event_type r) of
        None \<Rightarrow> False
      | Some t \<Rightarrow> is_step_level t \<or> is_turn_level t \<and> t \<noteq> TurnPending)"

lemma listed_iff_followed: "sm_event_type r \<in> set subscribe_event_types \<longleftrightarrow> followed r"
  unfolding subscribe_event_types_def followed_def event_type_from_str_def
  by (simp add: event_class_defs)

lemma live_part:
  "filter (\<lambda>r. P r \<and> Q r) (filter R xs) = filter R (filter (\<lambda>r. P r \<and> Q r) xs)"
  by (simp add: conj_ac)

text \<open>
  C20. A client that attaches late: when the log is in order, the history is what was committed when it was
  read and the subscription, made before, delivers every event of the types it asks for from some earlier
  point on, the client gets each event of the turn at most once, in order: all that were committed when the
  history was read, then all step events and all turn events but \<open>turn_pending\<close>, up to the first that ends the
  turn, and then \<open>done\<close>. Of any other type only what the history holds is shown.
\<close>

theorem late_client_sees_turn:
  assumes "sorted_wrt (<) (map sm_seq log)" "\<forall>r \<in> set log. 0 < sm_seq r \<and> sm_seq r < 2 ^ 63"
    and "\<And>n. stays n" "attached \<le> scanned"
    and "\<And>types. subscribe types = Inr (map Inr (filter (\<lambda>r. sm_event_type r \<in> set types) (drop attached log)))"
  shows "stream_handler stays lossy show_error turn_id subscribe (Inr (take scanned log)) =
     map (sse_of lossy)
       (upto_end (filter (of_turn turn_id) (take scanned log) @
                  filter (\<lambda>r. of_turn turn_id r \<and> followed r) (drop scanned log))) @ [done_event]"
proof -
  let ?h = "take scanned log" and ?l = "drop scanned log" and ?P = "of_turn turn_id"
  have log: "log = ?h @ ?l" by simp
  have live: "drop attached log = drop attached ?h @ ?l"
    using assms(4) by (metis append_take_drop_id drop_take drop_drop le_add_diff_inverse2 take_drop)
  have sorted: "sorted_wrt (<) (map sm_seq (filter ?P ?h))"
    using assms(1) sorted_wrt_filter [of "\<lambda>x y. sm_seq x < sm_seq y" "take scanned log" ?P]
      sorted_wrt_take [of "\<lambda>x y. sm_seq x < sm_seq y" log scanned]
    by (simp add: sorted_wrt_map)
  have range: "\<forall>r \<in> set (filter ?P ?h). 0 < sm_seq r \<and> sm_seq r < 2 ^ 63"
    using assms(2) by (auto dest: in_set_takeD)
  define plan where "plan = plan_history_replay lossy ?h turn_id"
  have plan: "rp_events plan = map (sse_of lossy) (upto_end (filter ?P ?h))"
    "rp_hit_terminal plan = has_end (filter ?P ?h)"
    "rp_last_seq plan = fold (\<lambda>r n. max n (wrap_i64 (int (sm_seq r)))) (upto_end (filter ?P ?h)) 0"
    unfolding plan_def plan_history_replay_def sort_key_sorted [OF sorted] by (simp_all add: replay_records_spec)
  have live_types: "subscribe subscribe_event_types = Inr (map Inr (filter followed (drop attached log)))"
    using assms(5) by (simp add: listed_iff_followed)
  show ?thesis
  proof (cases "has_end (filter ?P ?h)")
    case True
    then show ?thesis
      unfolding upto_end_append
      using plan by (simp add: stream_handler_def live_types plan_def [symmetric] send_all_staying assms(3) sse_send_def)
  next
    case False
    have "rp_last_seq plan = (if filter ?P ?h = [] then 0 else int (sm_seq (last (filter ?P ?h))))"
      using plan(3) False last_seq_sorted [OF sorted range] by simp
    then have "filter (\<lambda>r. ?P r \<and> wrap_i64 (int (sm_seq r)) > rp_last_seq plan) (drop attached log) = filter ?P ?l"
      unfolding live by (intro beyond_last) (use assms(1,2) in simp_all)
    then have "filter (\<lambda>r. ?P r \<and> wrap_i64 (int (sm_seq r)) > rp_last_seq plan) (filter followed (drop attached log)) =
        filter (\<lambda>r. ?P r \<and> followed r) ?l"
      unfolding live_part by (simp add: conj_commute)
    with False plan show ?thesis
      unfolding upto_end_append
      by (simp add: stream_handler_def live_types plan_def [symmetric] send_all_staying assms(3)
          live_loop_staying [OF assms(3)])
  qed
qed

text \<open>A log in which another turn's event lies between a start and the end; the reader attached after one record.\<close>

definition sample_log :: "stream_record list" where
  "sample_log =
     map (\<lambda>(q, et, t). \<lparr>sm_seq = q, sm_event_type = et, sm_content = [], sm_metadata = [(''turn_id'', t)]\<rparr>)
       [(1, ''turn_started'', ''7''), (2, ''turn_started'', ''8''), (3, ''turn_pending'', ''7''),
        (4, ''turn_completed'', ''7'')]"

lemma late_client_sees_turn_witness:
  "stream_handler (\<lambda>_. True) (\<lambda>x. x) (\<lambda>x. x) 7
     (\<lambda>types. Inr (map Inr (filter (\<lambda>r. sm_event_type r \<in> set types) (drop 1 sample_log)))) (Inr (take 2 sample_log)) =
     [(''turn_started'', []), (''turn_completed'', []), done_event]"
proof -
  have "parse_i64 ''7'' = Some 7" "parse_i64 ''8'' = Some 8"
    by (simp_all add: parse_i64_def parse_unsigned_def digit_val_def in_i64_def)
  moreover have "sorted_wrt (<) (map sm_seq sample_log)" "\<forall>r \<in> set sample_log. 0 < sm_seq r \<and> sm_seq r < 2 ^ 63"
    by (simp_all add: sample_log_def)
  ultimately show ?thesis
    using late_client_sees_turn [of sample_log "\<lambda>_. True" 1 2
        "\<lambda>types. Inr (map Inr (filter (\<lambda>r. sm_event_type r \<in> set types) (drop 1 sample_log)))" "\<lambda>x. x" "\<lambda>x. x" 7]
    by (simp add: sample_log_def of_turn_def sse_of_def ends_stream_def terminal_events_def followed_def
        event_type_from_str_def event_class_defs)
qed

end
