(* ===== verification/Logdbd_Store.thy ===== *)
theory Logdbd_Store
  imports Broker_Store "HOL-Library.List_Lexorder" "HOL-Library.Char_ord"
begin

text \<open>
  \<open>LogdbdEventStore\<close> of \<open>src/storage.rs\<close>: the store the tests of the repository run on. It keeps no
  projection; every read is a structured query to the log database or a scan of a stream. The client
  of the database is a record of functions over a world \<open>'w\<close>, which also holds the clock and the source
  of ids; the lock around the client makes an operation run to its end.
\<close>

section \<open>The log database as the program sees it\<close>

record log_record =
  lr_seq :: int
  lr_event_type :: string
  lr_content :: string
  lr_metadata :: metadata
  lr_timestamp_ns :: int

datatype query_result = QRecords | QExists | QCount | QCountDistinct | QMin | QMax | QDistinctValues

record query_request =
  qr_namespace :: string
  qr_stream :: string
  qr_event_types :: "string list"
  qr_metadata :: "(string \<times> string) list"
  qr_from_seq :: "int option"
  qr_absent :: "(string list \<times> string) option"   \<comment> \<open>types of the peers, key they are joined on\<close>
  qr_aggregate_field :: string
  qr_result :: query_result
  qr_limit :: nat
  qr_descending :: bool

datatype query_answer =
    AnsRecords "log_record list"
  | AnsExists bool
  | AnsCount int
  | AnsCountDistinct int
  | AnsMin int
  | AnsMax int
  | AnsDistinctValues "string list"

text \<open>The fields of the \<open>error\<close> a batch may be answered with.\<close>

record batch_error =
  be_code :: string
  be_message :: string
  be_retryable :: bool

record 'w logdb_client =
  lg_query :: "query_request \<Rightarrow> 'w \<Rightarrow> (string + query_answer option) \<times> 'w"
  lg_append_full :: "produce_request \<Rightarrow> 'w \<Rightarrow> (string + int) \<times> 'w"
  lg_append_batch :: "produce_request list \<Rightarrow> 'w \<Rightarrow> (string + batch_error option \<times> int list) \<times> 'w"
  lg_read :: "string \<Rightarrow> string \<Rightarrow> int \<Rightarrow> 'w \<Rightarrow> (string + log_record option) \<times> 'w"
  lg_scan_all :: "string \<Rightarrow> string \<Rightarrow> int \<Rightarrow> 'w \<Rightarrow> (string + log_record list) \<times> 'w"
  lg_now :: "'w \<Rightarrow> int \<times> 'w"
  lg_uuid :: "'w \<Rightarrow> string \<times> 'w"

record 'w logdbd_env =
  le_client :: "'w logdb_client"
  le_codec :: codec
  le_namespace :: string
  le_stats_iter :: "(string \<times> token_usage_stats) iter"
  le_lossy :: "string \<Rightarrow> string"   \<comment> \<open>\<open>String::from_utf8_lossy\<close>\<close>
  le_alphanumeric :: "string \<Rightarrow> bool"   \<comment> \<open>beyond ASCII\<close>

type_synonym ('w, 'a) log_op = "(app_error, 'w, 'a) opn"

text \<open>A call to the client, its error under a label.\<close>

definition log_call :: "string \<Rightarrow> ('w \<Rightarrow> (string + 'a) \<times> 'w) \<Rightarrow> ('w, 'a) log_op" where
  "log_call what call w =
     (case call w of (Inl e, w) \<Rightarrow> (Inl (Internal (what @ e)), w) | (Inr x, w) \<Rightarrow> (Inr x, w))"

definition log_now :: "'w logdbd_env \<Rightarrow> ('w, int) log_op" where
  "log_now env w = (case lg_now (le_client env) w of (n, w) \<Rightarrow> (Inr n, w))"

definition log_uuid :: "'w logdbd_env \<Rightarrow> ('w, string) log_op" where
  "log_uuid env w =
     (case lg_uuid (le_client env) w of (u, w) \<Rightarrow> (Inr (filter (\<lambda>c. c \<noteq> CHR ''-'') u), w))"

text \<open>\<open>QueryRequest { result, ..Default::default() }\<close>.\<close>

definition query_for :: "query_result \<Rightarrow> query_request" where
  "query_for result =
     \<lparr>qr_namespace = [], qr_stream = [], qr_event_types = [], qr_metadata = [], qr_from_seq = None,
      qr_absent = None, qr_aggregate_field = [], qr_result = result, qr_limit = 0,
      qr_descending = False\<rparr>"

definition run_query ::
  "'w logdbd_env \<Rightarrow> string \<Rightarrow> query_request \<Rightarrow> ('w, query_answer option) log_op" where
  "run_query env stream req =
     log_call ''logdbd query: ''
       (lg_query (le_client env) (req\<lparr>qr_namespace := le_namespace env, qr_stream := stream\<rparr>))"

text \<open>The answer to a query for records, and to one for a number.\<close>

fun answered_records :: "query_answer option \<Rightarrow> log_record list" where
  "answered_records (Some (AnsRecords rs)) = rs"
| "answered_records _ = []"

fun answered_count :: "query_answer option \<Rightarrow> int" where
  "answered_count (Some (AnsCount n)) = n"
| "answered_count _ = 0"

fun answered_distinct :: "query_answer option \<Rightarrow> int" where
  "answered_distinct (Some (AnsCountDistinct n)) = wrap_i64 n"
| "answered_distinct _ = 0"

fun answered_min :: "query_answer option \<Rightarrow> int" where
  "answered_min (Some (AnsMin n)) = wrap_i64 n"
| "answered_min _ = 0"

fun answered_max :: "query_answer option \<Rightarrow> int" where
  "answered_max (Some (AnsMax n)) = wrap_i64 n"
| "answered_max _ = 0"

fun answered_values :: "query_answer option \<Rightarrow> string list" where
  "answered_values (Some (AnsDistinctValues vs)) = vs"
| "answered_values _ = []"

definition query_records :: "'w logdbd_env \<Rightarrow> string \<Rightarrow> query_request \<Rightarrow> ('w, log_record list) log_op" where
  "query_records env stream req = andThen (run_query env stream req) (\<lambda>a. ok (answered_records a))"

section \<open>Records\<close>

definition logdbd_event_meta :: "agent_event \<Rightarrow> metadata" where
  "logdbd_event_meta e =
     [(''task_id'', ae_task_id e)]
     @ (case ae_turn_id e of None \<Rightarrow> [] | Some tid \<Rightarrow> [(''turn_id'', show_int tid)])
     @ (case ae_step_id e of None \<Rightarrow> [] | Some sid \<Rightarrow> [(''step_id'', sid)])
     @ [(''schema_version'', show_int (ae_schema_version e))]"

text \<open>\<open>if content.is_empty() { Null } else { from_slice(content).unwrap_or_default() }\<close>.\<close>

definition record_payload :: "codec \<Rightarrow> log_record \<Rightarrow> json" where
  "record_payload cd r =
     (if lr_content r = [] then JNull else unwrap_or JNull (from_slice cd (lr_content r)))"

definition event_from_record :: "codec \<Rightarrow> string \<Rightarrow> log_record \<Rightarrow> app_error + agent_event" where
  "event_from_record cd task_id r =
     (case event_type_from_str (lr_event_type r) of
        None \<Rightarrow> Inl (InvalidEventType (lr_event_type r))
      | Some et \<Rightarrow>
          Inr \<lparr>ae_task_id = task_id, ae_seq = wrap_i64 (lr_seq r),
               ae_turn_id = meta_turn_id (lr_metadata r),
               ae_step_id = map_of (lr_metadata r) ''step_id'', ae_event_type = et,
               ae_schema_version =
                 unwrap_or 1 (Option.bind (map_of (lr_metadata r) ''schema_version'') parse_i32),
               ae_payload = record_payload cd r, ae_created_at = wrap_i64 (lr_timestamp_ns r)\<rparr>)"

text \<open>\<open>collect::<Result<Vec<_>>>()\<close>.\<close>

fun collect_results :: "('e + 'a) list \<Rightarrow> 'e + 'a list" where
  "collect_results [] = Inr []"
| "collect_results (Inl e # rs) = Inl e"
| "collect_results (Inr x # rs) = (case collect_results rs of Inl e \<Rightarrow> Inl e | Inr xs \<Rightarrow> Inr (x # xs))"

definition events_from_records :: "codec \<Rightarrow> string \<Rightarrow> log_record list \<Rightarrow> app_error + agent_event list" where
  "events_from_records cd task_id rs = collect_results (map (event_from_record cd task_id) rs)"

text \<open>\<open>max_by_key(|r| r.seq)\<close>: the last of the records with the greatest number.\<close>

fun max_by_seq :: "log_record list \<Rightarrow> log_record option" where
  "max_by_seq [] = None"
| "max_by_seq (r # rs) =
     (case max_by_seq rs of
        None \<Rightarrow> Some r
      | Some m \<Rightarrow> if lr_seq r \<le> lr_seq m then Some m else Some r)"

section \<open>At most one terminal event\<close>

text \<open>The types an event conflicts with and the scope it does so in.\<close>

datatype terminal_scope = InSession | InTask | InTurn | InStep

definition terminal_conflicts :: "event_type \<Rightarrow> (event_type list \<times> terminal_scope) option" where
  "terminal_conflicts et =
     (case et of
        SessionEnded \<Rightarrow> Some ([SessionEnded], InSession)
      | TaskSucceeded \<Rightarrow> Some ([TaskSucceeded, TaskFailed, TaskCanceled], InTask)
      | TaskFailed \<Rightarrow> Some ([TaskSucceeded, TaskFailed, TaskCanceled], InTask)
      | TaskCanceled \<Rightarrow> Some ([TaskSucceeded, TaskFailed, TaskCanceled], InTask)
      | TurnCompleted \<Rightarrow> Some ([TurnCompleted, TurnFailed, TurnCanceled, TurnBlocked], InTurn)
      | TurnFailed \<Rightarrow> Some ([TurnCompleted, TurnFailed, TurnCanceled, TurnBlocked], InTurn)
      | TurnCanceled \<Rightarrow> Some ([TurnCompleted, TurnFailed, TurnCanceled, TurnBlocked], InTurn)
      | TurnBlocked \<Rightarrow> Some ([TurnCompleted, TurnFailed, TurnCanceled, TurnBlocked], InTurn)
      | LlmCompleted \<Rightarrow> Some ([LlmCompleted, LlmFailed], InStep)
      | LlmFailed \<Rightarrow> Some ([LlmCompleted, LlmFailed], InStep)
      | ToolCompleted \<Rightarrow> Some ([ToolCompleted, ToolFailed], InStep)
      | ToolFailed \<Rightarrow> Some ([ToolCompleted, ToolFailed], InStep)
      | _ \<Rightarrow> None)"

definition scope_filter :: "terminal_scope \<Rightarrow> agent_event \<Rightarrow> app_error + (string \<times> string) list" where
  "scope_filter scope e =
     (case scope of
        InTurn \<Rightarrow>
          (case ae_turn_id e of
             None \<Rightarrow> Inl (LifecycleInvariant (MissingTurnId (ae_event_type e)))
           | Some tid \<Rightarrow> Inr [(''turn_id'', show_int tid)])
      | InStep \<Rightarrow>
          (case ae_step_id e of
             None \<Rightarrow> Inl (LifecycleInvariant (MissingStepId (ae_event_type e)))
           | Some sid \<Rightarrow> Inr [(''step_id'', sid)])
      | _ \<Rightarrow> Inr [])"

definition check_terminal_uniqueness :: "'w logdbd_env \<Rightarrow> agent_event \<Rightarrow> ('w, unit) log_op" where
  "check_terminal_uniqueness env e =
     (case terminal_conflicts (ae_event_type e) of
        None \<Rightarrow> ok ()
      | Some (types, scope) \<Rightarrow>
          andThen (lift_res (scope_filter scope e)) (\<lambda>metadata.
          andThen (run_query env (ae_task_id e)
            ((query_for QCount)\<lparr>qr_event_types := map event_type_as_str types, qr_metadata := metadata\<rparr>))
            (\<lambda>a. if answered_count a > 0
                 then err (LifecycleInvariant
                        (TerminalExists (ae_event_type e) (ae_task_id e) (ae_turn_id e) (ae_step_id e)))
                 else ok ())))"

section \<open>The state of a task\<close>

definition read_task_records :: "'w logdbd_env \<Rightarrow> string \<Rightarrow> ('w, log_record list) log_op" where
  "read_task_records env tid =
     query_records env tid ((query_for QRecords)\<lparr>qr_event_types :=
       [''task_created'', ''task_ready'', ''task_claimed'', ''task_blocked'', ''task_succeeded'',
        ''task_failed'', ''task_canceled'']\<rparr>)"

definition base_state :: "string option \<Rightarrow> task_state" where
  "base_state latest =
     (if latest = Some ''task_created'' then Created
      else if latest = Some ''task_ready'' then Ready
      else if latest = Some ''task_claimed'' then Claimed
      else if latest = Some ''task_blocked'' then Blocked
      else if latest = Some ''task_succeeded'' then Succeeded
      else if latest = Some ''task_failed'' then Failed
      else if latest = Some ''task_canceled'' then Canceled
      else Created)"

definition derive_task_state ::
  "'w logdbd_env \<Rightarrow> log_record list \<Rightarrow> string \<Rightarrow> ('w, task_state) log_op" where
  "derive_task_state env records tid =
     (let latest = max_by_seq records;
          base = base_state (map_option lr_event_type latest)
      in if base = Claimed then
           let claimed_seq = (case latest of None \<Rightarrow> 0 | Some r \<Rightarrow> lr_seq r)
           in andThen (run_query env tid ((query_for QMax)\<lparr>qr_event_types := [''turn_started'']\<rparr>))
                (\<lambda>a. case a of
                   Some (AnsMax ts) \<Rightarrow> if wrap_i64 ts > wrap_i64 claimed_seq then ok Executing else ok base
                 | _ \<Rightarrow> ok base)
         else ok base)"

section \<open>Tasks\<close>

definition append_op :: "'w logdbd_env \<Rightarrow> produce_request \<Rightarrow> ('w, int) log_op" where
  "append_op env req = log_call ''logdbd append: '' (lg_append_full (le_client env) req)"

definition append_request :: "'w logdbd_env \<Rightarrow> agent_event \<Rightarrow> int \<Rightarrow> produce_request" where
  "append_request env e now =
     \<lparr>pq_namespace = le_namespace env, pq_stream = ae_task_id e,
      pq_event_type = event_type_as_str (ae_event_type e), pq_timestamp_ns = timestamp_ns now,
      pq_content_type = ''application/json'', pq_metadata = logdbd_event_meta e,
      pq_content = to_vec (le_codec env) (ae_payload e), pq_shard_key = None\<rparr>"

definition log_create_task ::
  "'w logdbd_env \<Rightarrow> string \<Rightarrow> string \<Rightarrow> string \<Rightarrow> provenance \<Rightarrow> json option \<Rightarrow> int
    \<Rightarrow> effective_policy option \<Rightarrow> ('w, string \<times> agent_event) log_op" where
  "log_create_task env task_type tenant_id user_id prov body priority eff =
     andThen (log_uuid env) (\<lambda>u.
       let task_id = ''task_'' @ u;
           payload = JObj [(''task_type'', JStr task_type),
                           (''provenance'', enc_provenance (le_codec env) prov),
                           (''body'', unwrap_or JNull body), (''priority'', JInt priority),
                           (''effective_policy'', opt_json (enc_effective (le_codec env)) eff)]
       in andThen (log_now env) (\<lambda>now.
          andThen (append_op env
              \<lparr>pq_namespace = le_namespace env, pq_stream = task_id,
               pq_event_type = ''task_created'', pq_timestamp_ns = timestamp_ns now,
               pq_content_type = ''application/json'',
               pq_metadata = [(''task_id'', task_id), (''tenant_id'', tenant_id),
                              (''user_id'', user_id), (''task_type'', task_type)],
               pq_content = to_vec (le_codec env) payload, pq_shard_key = None\<rparr>) (\<lambda>seq.
          andThen (log_now env) (\<lambda>now.
          ok (task_id,
              \<lparr>ae_task_id = task_id, ae_seq = wrap_i64 seq, ae_turn_id = None, ae_step_id = None,
               ae_event_type = TaskCreated, ae_schema_version = 1, ae_payload = payload,
               ae_created_at = now\<rparr>)))))"

definition is_created :: "log_record \<Rightarrow> bool" where
  "is_created r \<longleftrightarrow> lr_event_type r = ''task_created''"

text \<open>The provenance of a task, made up where the payload has none that can be read.\<close>

definition unknown_provenance :: "int \<Rightarrow> provenance" where
  "unknown_provenance now =
     \<lparr>pv_source_channel = ''unknown'', pv_source_session_id = None, pv_source_user_id = None,
      pv_source_tenant_id = None, pv_source_message_id = None, pv_created_at = now,
      pv_created_by = ''unknown''\<rparr>"

definition read_provenance :: "'w logdbd_env \<Rightarrow> json \<Rightarrow> ('w, provenance) log_op" where
  "read_provenance env payload =
     (case dec_provenance (le_codec env) (unwrap_or JNull (jget ''provenance'' payload)) of
        Some prov \<Rightarrow> ok prov
      | None \<Rightarrow> andThen (log_now env) (\<lambda>now. ok (unknown_provenance now)))"

text \<open>\<open>a.or_else(|| b)\<close>.\<close>

definition or_else :: "'a option \<Rightarrow> 'a option \<Rightarrow> 'a option" where
  "or_else a b = (case a of None \<Rightarrow> b | Some _ \<Rightarrow> a)"

definition log_task_of ::
  "codec \<Rightarrow> string \<Rightarrow> log_record \<Rightarrow> provenance \<Rightarrow> task_state \<Rightarrow> int \<Rightarrow> task" where
  "log_task_of cd tid r prov state now =
     (let payload = record_payload cd r
      in \<lparr>tk_task_id = tid,
          tk_tenant_id = unwrap_or ''default''
            (or_else (map_of (lr_metadata r) ''tenant_id'') (pv_source_tenant_id prov)),
          tk_user_id = unwrap_or []
            (or_else (map_of (lr_metadata r) ''user_id'') (pv_source_user_id prov)),
          tk_task_type = unwrap_or ''unknown'' (as_str (jindex payload ''task_type'')),
          tk_state = state, tk_provenance = prov, tk_body = non_null (jget ''body'' payload),
          tk_created_at = now, tk_metadata = None,
          tk_priority = wrap_i32 (unwrap_or 0 (as_i64 (jindex payload ''priority''))),
          tk_effective_policy =
            Option.bind (non_null (jget ''effective_policy'' payload)) (dec_effective cd)\<rparr>)"

definition log_get_task :: "'w logdbd_env \<Rightarrow> string \<Rightarrow> ('w, task option) log_op" where
  "log_get_task env tid =
     andThen (read_task_records env tid) (\<lambda>records.
       case List.find is_created records of
         None \<Rightarrow> ok None
       | Some r \<Rightarrow>
           andThen (read_provenance env (record_payload (le_codec env) r)) (\<lambda>prov.
           andThen (derive_task_state env records tid) (\<lambda>state.
           andThen (log_now env) (\<lambda>now.
           ok (Some (log_task_of (le_codec env) tid r prov state now))))))"

text \<open>\<open>matches!(result, Some(Exists(true)))\<close>.\<close>

definition query_exists :: "'w logdbd_env \<Rightarrow> string \<Rightarrow> string list \<Rightarrow> ('w, bool) log_op" where
  "query_exists env tid types =
     andThen (run_query env tid ((query_for QExists)\<lparr>qr_event_types := types\<rparr>))
       (\<lambda>a. ok (a = Some (AnsExists True)))"

definition log_task_exists :: "'w logdbd_env \<Rightarrow> string \<Rightarrow> ('w, bool) log_op" where
  "log_task_exists env tid = query_exists env tid [''task_created'']"

definition log_is_task_ended :: "'w logdbd_env \<Rightarrow> string \<Rightarrow> ('w, bool) log_op" where
  "log_is_task_ended env tid =
     query_exists env tid [''task_succeeded'', ''task_failed'', ''task_canceled'']"

definition log_get_task_state :: "'w logdbd_env \<Rightarrow> string \<Rightarrow> ('w, task_state option) log_op" where
  "log_get_task_state env tid =
     andThen (read_task_records env tid) (\<lambda>records.
       if \<not> list_ex is_created records then ok None
       else andThen (derive_task_state env records tid) (\<lambda>state. ok (Some state)))"

definition log_get_max_seq :: "'w logdbd_env \<Rightarrow> string \<Rightarrow> ('w, int) log_op" where
  "log_get_max_seq env tid =
     andThen (run_query env tid (query_for QMax)) (\<lambda>a. ok (answered_max a))"

definition log_get_max_turn_id :: "'w logdbd_env \<Rightarrow> string \<Rightarrow> ('w, int) log_op" where
  "log_get_max_turn_id env tid =
     andThen (run_query env tid ((query_for QMax)\<lparr>qr_aggregate_field := ''turn_id''\<rparr>))
       (\<lambda>a. ok (answered_max a))"

section \<open>Writing\<close>

text \<open>What a write checks before it asks the log about terminal events; no task state is checked.\<close>

definition log_validate :: "agent_event \<Rightarrow> app_error + unit" where
  "log_validate e =
     (case validate_scope e of
        Inl v \<Rightarrow> Inl (LifecycleInvariant v)
      | Inr _ \<Rightarrow> validate_payload_required_fields (ae_event_type e) (ae_payload e))"

definition log_write_event :: "'w logdbd_env \<Rightarrow> agent_event \<Rightarrow> ('w, int) log_op" where
  "log_write_event env e =
     andThen (lift_res (log_validate e)) (\<lambda>_.
     andThen (log_now env) (\<lambda>now.
     andThen (check_terminal_uniqueness env e) (\<lambda>_.
     andThen (append_op env (append_request env e now)) (\<lambda>seq.
     ok (wrap_i64 seq)))))"

fun batch_requests :: "'w logdbd_env \<Rightarrow> agent_event list \<Rightarrow> ('w, produce_request list) log_op" where
  "batch_requests env [] = ok []"
| "batch_requests env (e # es) =
     andThen (lift_res (log_validate e)) (\<lambda>_.
     andThen (check_terminal_uniqueness env e) (\<lambda>_.
     andThen (log_now env) (\<lambda>now.
     andThen (batch_requests env es) (\<lambda>reqs.
     ok ((append_request env e now)\<lparr>pq_shard_key := Some (ae_task_id e)\<rparr> # reqs)))))"

definition log_write_events_batch :: "'w logdbd_env \<Rightarrow> agent_event list \<Rightarrow> ('w, int list) log_op" where
  "log_write_events_batch env events =
     (if events = [] then ok []
      else andThen (batch_requests env events) (\<lambda>requests.
           andThen (log_call ''logdbd append_batch: '' (lg_append_batch (le_client env) requests))
             (\<lambda>(error, seqs).
               case error of
                 Some b \<Rightarrow>
                   err (Internal (''logdbd append_batch error: '' @ be_code b @ '' - '' @ be_message b
                     @ '' (retryable='' @ (if be_retryable b then ''true'' else ''false'') @ '')''))
               | None \<Rightarrow> ok (map wrap_i64 seqs))))"

section \<open>Reading events\<close>

definition log_get_event :: "'w logdbd_env \<Rightarrow> string \<Rightarrow> int \<Rightarrow> ('w, agent_event option) log_op" where
  "log_get_event env tid seq =
     andThen (log_call ''logdbd read: '' (lg_read (le_client env) (le_namespace env) tid (seq mod 2 ^ 64)))
       (\<lambda>hit. case hit of
          None \<Rightarrow> ok None
        | Some r \<Rightarrow> andThen (lift_res (event_from_record (le_codec env) tid r)) (\<lambda>e. ok (Some e)))"

definition from_seq :: "int \<Rightarrow> int" where
  "from_seq after = max (add_i64 after 1) 1"

definition keep_types :: "string list" where
  "keep_types =
     [''turn_started'', ''turn_completed'', ''turn_failed'', ''turn_canceled'', ''turn_blocked'',
      ''llm_invoked'', ''llm_completed'', ''llm_failed'', ''tool_invoked'', ''tool_completed'',
      ''tool_failed'']"

definition log_get_events_after_seq ::
  "'w logdbd_env \<Rightarrow> string \<Rightarrow> int \<Rightarrow> ('w, agent_event list) log_op" where
  "log_get_events_after_seq env tid after =
     andThen (log_call ''logdbd scan: ''
         (lg_scan_all (le_client env) (le_namespace env) tid (from_seq after)))
       (\<lambda>rs. lift_res (events_from_records (le_codec env) tid
               (filter (\<lambda>r. lr_event_type r \<in> set keep_types) rs)))"

definition of_turn :: "int \<Rightarrow> (string \<times> string) list" where
  "of_turn turn_id = [(''turn_id'', show_int turn_id)]"

definition log_get_turn_events ::
  "'w logdbd_env \<Rightarrow> string \<Rightarrow> int \<Rightarrow> ('w, agent_event list) log_op" where
  "log_get_turn_events env tid turn_id =
     andThen (query_records env tid ((query_for QRecords)\<lparr>qr_metadata := of_turn turn_id\<rparr>))
       (\<lambda>rs. lift_res (events_from_records (le_codec env) tid rs))"

definition log_get_latest_summary :: "'w logdbd_env \<Rightarrow> string \<Rightarrow> ('w, agent_event option) log_op" where
  "log_get_latest_summary env tid =
     andThen (query_records env tid ((query_for QRecords)
         \<lparr>qr_event_types := [''summary_marker''], qr_limit := 1, qr_descending := True\<rparr>))
       (\<lambda>rs. case rs of
          [] \<Rightarrow> ok None
        | r # _ \<Rightarrow> andThen (lift_res (event_from_record (le_codec env) tid r)) (\<lambda>e. ok (Some e)))"

text \<open>
  An execution of a step. The code gives its length as a float of milliseconds; here it is the
  number of nanoseconds that is divided.
\<close>

record log_step =
  lx_step_id :: string
  lx_step_type :: "string option"
  lx_started_at :: int
  lx_ended_at :: int
  lx_end_event :: string
  lx_duration_ns :: "int option"

definition is_terminal_record :: "log_record \<Rightarrow> bool" where
  "is_terminal_record r \<longleftrightarrow>
     lr_event_type r \<in> {''llm_completed'', ''llm_failed'', ''tool_completed'', ''tool_failed''}"

definition is_invoke_record :: "log_record \<Rightarrow> bool" where
  "is_invoke_record r \<longleftrightarrow> lr_event_type r \<in> {''llm_invoked'', ''tool_invoked''}"

text \<open>The first terminal record of each step.\<close>

fun step_terminals :: "log_record list \<Rightarrow> (string \<times> log_record) list \<Rightarrow> (string \<times> log_record) list" where
  "step_terminals [] m = m"
| "step_terminals (r # rs) m =
     step_terminals rs
       (case map_of (lr_metadata r) ''step_id'' of
          Some sid \<Rightarrow>
            if is_terminal_record r \<and> map_of m sid = None then AList.update sid r m else m
        | None \<Rightarrow> m)"

definition log_step_of :: "codec \<Rightarrow> (string \<times> log_record) list \<Rightarrow> log_record \<Rightarrow> log_step option" where
  "log_step_of cd terminals r =
     (let step_id = unwrap_or [] (map_of (lr_metadata r) ''step_id'')
      in if \<not> is_invoke_record r then None
         else case map_of terminals step_id of
                None \<Rightarrow> None
              | Some end \<Rightarrow>
                  let started = wrap_i64 (lr_timestamp_ns r);
                      ended = wrap_i64 (lr_timestamp_ns end)
                  in Some \<lparr>lx_step_id = step_id,
                       lx_step_type =
                         Option.bind (jget ''step_type'' (record_payload cd r)) as_str,
                       lx_started_at = started, lx_ended_at = ended,
                       lx_end_event = lr_event_type end,
                       lx_duration_ns =
                         (if ended > started then Some (wrap_i64 (ended - started)) else None)\<rparr>)"

definition log_get_turn_steps :: "'w logdbd_env \<Rightarrow> string \<Rightarrow> int \<Rightarrow> ('w, log_step list) log_op" where
  "log_get_turn_steps env tid turn_id =
     andThen (query_records env tid ((query_for QRecords)
         \<lparr>qr_metadata := of_turn turn_id,
          qr_event_types := [''llm_invoked'', ''tool_invoked'', ''llm_completed'', ''llm_failed'',
                             ''tool_completed'', ''tool_failed'']\<rparr>))
       (\<lambda>rs. ok (List.map_filter (log_step_of (le_codec env) (step_terminals rs [])) rs))"

section \<open>Recovery\<close>

definition turn_terminal_types :: "string list" where
  "turn_terminal_types = [''turn_completed'', ''turn_failed'', ''turn_canceled'', ''turn_blocked'']"

definition step_terminal_types :: "string list" where
  "step_terminal_types = [''llm_completed'', ''llm_failed'', ''tool_completed'', ''tool_failed'']"

definition incomplete_turn_of :: "codec \<Rightarrow> log_record \<Rightarrow> incomplete_turn" where
  "incomplete_turn_of cd r =
     (let payload = record_payload cd r
      in \<lparr>it_turn_id = unwrap_or 0 (meta_turn_id (lr_metadata r)),
          it_redo_group = unwrap_or ''unknown'' (as_str (jindex payload ''redo_group'')),
          it_redo_count = wrap_i32 (unwrap_or 0 (as_i64 (jindex payload ''redo_count''))),
          it_turn_started_at = wrap_i64 (lr_timestamp_ns r)\<rparr>)"

definition log_get_incomplete_turns ::
  "'w logdbd_env \<Rightarrow> string \<Rightarrow> ('w, incomplete_turn list) log_op" where
  "log_get_incomplete_turns env tid =
     andThen (query_records env tid ((query_for QRecords)
         \<lparr>qr_event_types := [''turn_started''], qr_absent := Some (turn_terminal_types, ''turn_id'')\<rparr>))
       (\<lambda>rs. ok (sort_key it_turn_id (map (incomplete_turn_of (le_codec env)) rs)))"

definition incomplete_step_of :: "codec \<Rightarrow> log_record \<Rightarrow> incomplete_step" where
  "incomplete_step_of cd r =
     \<lparr>is_seq = wrap_i64 (lr_seq r), is_turn_id = unwrap_or 0 (meta_turn_id (lr_metadata r)),
      is_step_id = unwrap_or [] (map_of (lr_metadata r) ''step_id''),
      is_start_event_type = lr_event_type r, is_payload = record_payload cd r,
      is_started_at = wrap_i64 (lr_timestamp_ns r)\<rparr>"

definition log_get_incomplete_steps ::
  "'w logdbd_env \<Rightarrow> string \<Rightarrow> ('w, incomplete_step list) log_op" where
  "log_get_incomplete_steps env tid =
     andThen (query_records env tid ((query_for QRecords)
         \<lparr>qr_event_types := [''llm_invoked'', ''tool_invoked''],
          qr_absent := Some (step_terminal_types, ''step_id'')\<rparr>))
       (\<lambda>rs. ok (map (incomplete_step_of (le_codec env)) rs))"

text \<open>The numbers that follow a stored number, are not stored, and are below the greatest.\<close>

definition gaps_of :: "int list \<Rightarrow> int list" where
  "gaps_of stored =
     (let seqs = sort stored;
          max_seq = (if seqs = [] then 0 else last seqs)
      in map (\<lambda>s. wrap_i64 (s + 1))
           (filter (\<lambda>s. s + 1 \<notin> set seqs) (filter (\<lambda>s. s < max_seq) seqs)))"

definition log_detect_seq_gaps :: "'w logdbd_env \<Rightarrow> string \<Rightarrow> ('w, int list) log_op" where
  "log_detect_seq_gaps env tid =
     andThen (query_records env tid (query_for QRecords)) (\<lambda>rs. ok (gaps_of (map lr_seq rs)))"

definition log_is_turn_seq_continuous :: "'w logdbd_env \<Rightarrow> string \<Rightarrow> int \<Rightarrow> ('w, bool) log_op" where
  "log_is_turn_seq_continuous env tid turn_id =
     andThen (log_detect_seq_gaps env tid) (\<lambda>gaps.
     andThen (run_query env tid ((query_for QMin)\<lparr>qr_metadata := of_turn turn_id\<rparr>)) (\<lambda>lo.
     andThen (run_query env tid ((query_for QMax)\<lparr>qr_metadata := of_turn turn_id\<rparr>)) (\<lambda>hi.
     ok (\<not> list_ex (\<lambda>g. answered_min lo \<le> g \<and> g \<le> answered_max hi) gaps))))"

section \<open>Statistics and summaries\<close>

definition add_record_usage ::
  "codec \<Rightarrow> log_record \<Rightarrow> (string \<times> token_usage_stats) list \<Rightarrow> (string \<times> token_usage_stats) list" where
  "add_record_usage cd r m =
     (if lr_content r = [] then m
      else let payload = unwrap_or JNull (from_slice cd (lr_content r));
               model = unwrap_or ''unknown'' (Option.bind (jget ''model'' payload) as_str);
               usage = unwrap_or JNull (jget ''usage'' payload);
               entry = unwrap_or (empty_stats model) (map_of m model)
           in AList.update model (add_usage usage entry) m)"

definition log_get_token_usage_stats ::
  "'w logdbd_env \<Rightarrow> string \<Rightarrow> ('w, token_usage_stats list) log_op" where
  "log_get_token_usage_stats env tid =
     andThen (query_records env tid ((query_for QRecords)\<lparr>qr_event_types := [''llm_completed'']\<rparr>))
       (\<lambda>rs. ok (sort_key tu_model
                (map snd (le_stats_iter env (fold (add_record_usage (le_codec env)) rs [])))))"

definition log_count_turns_after_seq :: "'w logdbd_env \<Rightarrow> string \<Rightarrow> int \<Rightarrow> ('w, int) log_op" where
  "log_count_turns_after_seq env tid after =
     andThen (run_query env tid ((query_for QCountDistinct)
         \<lparr>qr_event_types := [''turn_started''], qr_from_seq := Some (from_seq after),
          qr_aggregate_field := ''turn_id''\<rparr>))
       (\<lambda>a. ok (answered_distinct a))"

definition log_count_events_after_seq :: "'w logdbd_env \<Rightarrow> string \<Rightarrow> int \<Rightarrow> ('w, int) log_op" where
  "log_count_events_after_seq env tid after =
     andThen (run_query env tid ((query_for QCount)
         \<lparr>qr_event_types := [''turn_pending'', ''turn_started'', ''turn_completed'', ''turn_failed'',
            ''turn_canceled'', ''turn_blocked'', ''llm_invoked'', ''llm_completed'', ''llm_failed'',
            ''tool_invoked'', ''tool_completed'', ''tool_failed''],
          qr_from_seq := Some (from_seq after)\<rparr>))
       (\<lambda>a. ok (wrap_i64 (answered_count a)))"

definition log_get_llm_payloads_after_seq ::
  "'w logdbd_env \<Rightarrow> string \<Rightarrow> int \<Rightarrow> ('w, string list) log_op" where
  "log_get_llm_payloads_after_seq env tid after =
     andThen (query_records env tid ((query_for QRecords)
         \<lparr>qr_event_types := [''llm_completed''], qr_from_seq := Some (from_seq after)\<rparr>))
       (\<lambda>rs. ok (map (\<lambda>r. le_lossy env (lr_content r)) (filter (\<lambda>r. lr_content r \<noteq> []) rs)))"

definition log_get_recent_turn_ids ::
  "'w logdbd_env \<Rightarrow> string \<Rightarrow> int \<Rightarrow> ('w, int list) log_op" where
  "log_get_recent_turn_ids env tid limit =
     andThen (run_query env tid ((query_for QDistinctValues)
         \<lparr>qr_event_types := [''turn_started''], qr_aggregate_field := ''turn_id''\<rparr>))
       (\<lambda>a. ok (take (nat (max limit 0)) (rev (sort (List.map_filter parse_i64 (answered_values a))))))"

definition log_archive_events_before_seq ::
  "'w logdbd_env \<Rightarrow> string \<Rightarrow> int \<Rightarrow> ('w, int \<times> string) log_op" where
  "log_archive_events_before_seq env tid before_seq = ok (0, [])"

section \<open>Tenant policies\<close>

definition tenant_policy_stream_name :: "(string \<Rightarrow> bool) \<Rightarrow> string \<Rightarrow> string" where
  "tenant_policy_stream_name table tenant_id =
     ''tenant-policy-'' @
     concat (map (\<lambda>c. if is_alphanumeric table c \<or> c = ''-'' \<or> c = ''_'' \<or> c = ''.'' then c else ''-'')
       (utf8_chars tenant_id))"

definition log_set_tenant_policy ::
  "'w logdbd_env \<Rightarrow> string \<Rightarrow> capability_policy \<Rightarrow> ('w, unit) log_op" where
  "log_set_tenant_policy env tenant_id policy =
     andThen (log_now env) (\<lambda>now.
     andThen (append_op env
       \<lparr>pq_namespace = le_namespace env, pq_stream = tenant_policy_stream_name (le_alphanumeric env) tenant_id,
        pq_event_type = ''tenant_policy'', pq_timestamp_ns = timestamp_ns now,
        pq_content_type = ''application/json'', pq_metadata = [(''tenant_id'', tenant_id)],
        pq_content = policy_to_vec (le_codec env) policy, pq_shard_key = None\<rparr>) (\<lambda>_. ok ()))"

definition log_get_tenant_policy ::
  "'w logdbd_env \<Rightarrow> string \<Rightarrow> ('w, capability_policy option) log_op" where
  "log_get_tenant_policy env tenant_id =
     andThen (log_call ''logdbd scan: ''
         (lg_scan_all (le_client env) (le_namespace env) (tenant_policy_stream_name (le_alphanumeric env) tenant_id) 1))
       (\<lambda>rs. case max_by_seq rs of
          None \<Rightarrow> ok None
        | Some r \<Rightarrow>
            (case policy_from_slice (le_codec env) (lr_content r) of
               None \<Rightarrow> err (Internal ''tenant policy decode'')
             | Some policy \<Rightarrow> ok (Some policy)))"

end
