(* ===== verification/Logdbd_Properties.thy ===== *)
theory Logdbd_Properties
  imports Logdbd_Store
begin

text \<open>
  What the store over the log database promises, given what the comments of \<open>src/storage.rs\<close> say the
  database does; and where it agrees with the production store's projection.
\<close>

section \<open>What the database does\<close>

text \<open>
  A view gives the records of each stream of each namespace, in the order of their numbers. A record
  matches a query if its type is one of those named (any, if none is), its metadata has the values
  asked for, its number is not below \<open>from_seq\<close>, and no record of the stream with one of the absent types
  has the same value of the join key.
\<close>

type_synonym 'w log_view = "'w \<Rightarrow> string \<Rightarrow> string \<Rightarrow> log_record list"

definition same_key :: "string \<Rightarrow> log_record \<Rightarrow> log_record \<Rightarrow> bool" where
  "same_key k r r' \<longleftrightarrow> map_of (lr_metadata r) k \<noteq> None \<and> map_of (lr_metadata r) k = map_of (lr_metadata r') k"

definition matches :: "log_record list \<Rightarrow> query_request \<Rightarrow> log_record \<Rightarrow> bool" where
  "matches rs q r \<longleftrightarrow>
     (qr_event_types q = [] \<or> lr_event_type r \<in> set (qr_event_types q)) \<and>
     list_all (\<lambda>(k, v). map_of (lr_metadata r) k = Some v) (qr_metadata q) \<and>
     (case qr_from_seq q of None \<Rightarrow> True | Some n \<Rightarrow> n \<le> lr_seq r) \<and>
     (case qr_absent q of
        None \<Rightarrow> True
      | Some (types, key) \<Rightarrow> \<not> list_ex (\<lambda>r'. lr_event_type r' \<in> set types \<and> same_key key r r') rs)"

text \<open>The values an aggregate is taken over: numbers of records, or a field of their metadata.\<close>

definition field_values :: "string \<Rightarrow> log_record list \<Rightarrow> string list" where
  "field_values field rs = List.map_filter (\<lambda>r. map_of (lr_metadata r) field) rs"

definition aggregated :: "string \<Rightarrow> log_record list \<Rightarrow> int list" where
  "aggregated field rs =
     (if field = [] then map lr_seq rs else List.map_filter parse_i64 (field_values field rs))"

text \<open>The records and the numbers asked for; an aggregate over nothing is absent or zero.\<close>

definition answers :: "log_record list \<Rightarrow> query_request \<Rightarrow> query_answer option \<Rightarrow> bool" where
  "answers rs q a =
     (let ms = filter (matches rs q) rs;
          ns = aggregated (qr_aggregate_field q) ms;
          ordered = (if qr_descending q then rev ms else ms)
      in case qr_result q of
           QRecords \<Rightarrow> a = Some (AnsRecords (if qr_limit q = 0 then ordered else take (qr_limit q) ordered))
         | QExists \<Rightarrow> a = Some (AnsExists (ms \<noteq> []))
         | QCount \<Rightarrow> a = Some (AnsCount (int (length ms)))
         | QCountDistinct \<Rightarrow>
             a = Some (AnsCountDistinct (int (length (remdups (field_values (qr_aggregate_field q) ms)))))
         | QMin \<Rightarrow> (if ns = [] then a = None \<or> a = Some (AnsMin 0) else a = Some (AnsMin (Min (set ns))))
         | QMax \<Rightarrow> (if ns = [] then a = None \<or> a = Some (AnsMax 0) else a = Some (AnsMax (Max (set ns))))
         | QDistinctValues \<Rightarrow>
             a = Some (AnsDistinctValues (remdups (field_values (qr_aggregate_field q) ms))))"

text \<open>Reads and the clock leave the view alone, and a query is answered from it.\<close>

definition reads_ok :: "'w logdb_client \<Rightarrow> 'w log_view \<Rightarrow> bool" where
  "reads_ok c v \<longleftrightarrow>
     (\<forall>q w. v (snd (lg_query c q w)) = v w \<and>
        (case fst (lg_query c q w) of
           Inl _ \<Rightarrow> True
         | Inr a \<Rightarrow> answers (v w (qr_namespace q) (qr_stream q)) q a)) \<and>
     (\<forall>w. v (snd (lg_now c w)) = v w)"

definition stored_record :: "produce_request \<Rightarrow> int \<Rightarrow> log_record" where
  "stored_record rq seq =
     \<lparr>lr_seq = seq, lr_event_type = pq_event_type rq, lr_content = pq_content rq,
      lr_metadata = pq_metadata rq, lr_timestamp_ns = pq_timestamp_ns rq\<rparr>"

definition extended ::
  "produce_request \<Rightarrow> int \<Rightarrow> (string \<Rightarrow> string \<Rightarrow> log_record list) \<Rightarrow> (string \<Rightarrow> string \<Rightarrow> log_record list)" where
  "extended rq seq l =
     (\<lambda>ns st. if ns = pq_namespace rq \<and> st = pq_stream rq then l ns st @ [stored_record rq seq]
              else l ns st)"

text \<open>
  An append that succeeds has put the record at the end of its stream; one that fails may or may not
  have.
\<close>

definition appends_ok :: "'w logdb_client \<Rightarrow> 'w log_view \<Rightarrow> bool" where
  "appends_ok c v \<longleftrightarrow>
     (\<forall>rq w. case fst (lg_append_full c rq w) of
        Inr seq \<Rightarrow> v (snd (lg_append_full c rq w)) = extended rq seq (v w)
      | Inl _ \<Rightarrow> v (snd (lg_append_full c rq w)) = v w \<or>
                 (\<exists>seq. v (snd (lg_append_full c rq w)) = extended rq seq (v w)))"

text \<open>A batch is stored whole or not at all; it is stored if it is answered without an error.\<close>

definition extended_batch ::
  "(produce_request \<times> int) list \<Rightarrow> (string \<Rightarrow> string \<Rightarrow> log_record list) \<Rightarrow> (string \<Rightarrow> string \<Rightarrow> log_record list)" where
  "extended_batch rqs l = fold (\<lambda>(rq, seq). extended rq seq) rqs l"

definition batches_ok :: "'w logdb_client \<Rightarrow> 'w log_view \<Rightarrow> bool" where
  "batches_ok c v \<longleftrightarrow>
     (\<forall>rqs w. case fst (lg_append_batch c rqs w) of
        Inr (None, seqs) \<Rightarrow>
          length seqs = length rqs \<and>
          v (snd (lg_append_batch c rqs w)) = extended_batch (zip rqs seqs) (v w)
      | _ \<Rightarrow> True)"

text \<open>The numbers of a stream rise from one and stay within \<open>i64\<close>.\<close>

definition log_wf :: "log_record list \<Rightarrow> bool" where
  "log_wf rs \<longleftrightarrow> sorted_wrt (<) (map lr_seq rs) \<and> list_all (\<lambda>r. 0 < lr_seq r \<and> in_i64 (lr_seq r)) rs"

section \<open>Reads leave the log alone\<close>

lemma log_call_result:
  "log_call what call w = (r, w') \<Longrightarrow>
     w' = snd (call w) \<and>
     (case fst (call w) of Inl e \<Rightarrow> r = Inl (Internal (what @ e)) | Inr x \<Rightarrow> r = Inr x)"
  by (auto simp: log_call_def split: prod.splits sum.splits)

lemma query_for_simps [simp]:
  "qr_event_types (query_for k) = []" "qr_metadata (query_for k) = []" "qr_from_seq (query_for k) = None"
  "qr_absent (query_for k) = None" "qr_aggregate_field (query_for k) = []" "qr_result (query_for k) = k"
  "qr_limit (query_for k) = 0" "qr_descending (query_for k) = False"
  by (simp_all add: query_for_def)

lemma matches_types:
  "matches rs ((query_for k)\<lparr>qr_event_types := t # ts\<rparr>) = (\<lambda>r. lr_event_type r \<in> set (t # ts))"
  by (simp add: matches_def fun_eq_iff)

text \<open>A query sees the same answers whatever its address says.\<close>

lemma matches_address [simp]:
  "matches rs (q\<lparr>qr_namespace := n, qr_stream := s\<rparr>) = matches rs q"
  by (simp add: matches_def fun_eq_iff)

lemma answers_address [simp]:
  "answers rs (q\<lparr>qr_namespace := n, qr_stream := s\<rparr>) a = answers rs q a"
  by (cases "qr_result q") (simp_all add: answers_def Let_def)

lemma log_call_Inr_iff: "log_call what call w = (Inr x, w') \<longleftrightarrow> call w = (Inr x, w')"
  by (auto simp: log_call_def split: prod.splits sum.splits)

lemma log_now_Inr_iff: "log_now env w = (Inr n, w') \<longleftrightarrow> lg_now (le_client env) w = (n, w')"
  by (auto simp: log_now_def split: prod.splits)

lemma run_query_result:
  assumes "reads_ok (le_client env) v" "run_query env st q w = (r, w')"
  shows "v w' = v w \<and>
    (case r of Inl x \<Rightarrow> \<exists>m. x = Internal m
     | Inr a \<Rightarrow> answers (v w (le_namespace env) st) q a)"
proof -
  let ?q = "q\<lparr>qr_namespace := le_namespace env, qr_stream := st\<rparr>"
  have ok: "v (snd (lg_query (le_client env) ?q w)) = v w \<and>
      (case fst (lg_query (le_client env) ?q w) of Inl _ \<Rightarrow> True
       | Inr a \<Rightarrow> answers (v w (le_namespace env) st) ?q a)"
    using assms(1) unfolding reads_ok_def
    by (elim conjE allE [of _ ?q] allE [of _ w]) (auto split: sum.splits)
  from log_call_result [OF assms(2) [unfolded run_query_def]] ok show ?thesis
    by (auto split: sum.splits)
qed

lemma query_records_result:
  assumes "reads_ok (le_client env) v" "query_records env st q w = (r, w')" "qr_result q = QRecords"
    "qr_limit q = 0" "\<not> qr_descending q"
  shows "v w' = v w \<and>
    (case r of Inl x \<Rightarrow> \<exists>m. x = Internal m
     | Inr rs \<Rightarrow> rs = filter (matches (v w (le_namespace env) st) q) (v w (le_namespace env) st))"
proof -
  obtain a w1 where q: "run_query env st q w = (a, w1)" by (cases "run_query env st q w")
  from run_query_result [OF assms(1) q] assms(2-5) q show ?thesis
    by (auto simp: query_records_def andThen_def answers_def Let_def split: sum.splits)
qed

section \<open>Terminal events\<close>

text \<open>What a record closes, read off its type and metadata.\<close>

datatype closing = ClosesSession | ClosesTask | ClosesTurn string | ClosesLlm string | ClosesTool string

fun closes_as :: "event_type \<Rightarrow> metadata \<Rightarrow> closing option" where
  "closes_as SessionEnded md = Some ClosesSession"
| "closes_as TaskSucceeded md = Some ClosesTask"
| "closes_as TaskFailed md = Some ClosesTask"
| "closes_as TaskCanceled md = Some ClosesTask"
| "closes_as TurnCompleted md = map_option ClosesTurn (map_of md ''turn_id'')"
| "closes_as TurnFailed md = map_option ClosesTurn (map_of md ''turn_id'')"
| "closes_as TurnCanceled md = map_option ClosesTurn (map_of md ''turn_id'')"
| "closes_as TurnBlocked md = map_option ClosesTurn (map_of md ''turn_id'')"
| "closes_as LlmCompleted md = map_option ClosesLlm (map_of md ''step_id'')"
| "closes_as LlmFailed md = map_option ClosesLlm (map_of md ''step_id'')"
| "closes_as ToolCompleted md = map_option ClosesTool (map_of md ''step_id'')"
| "closes_as ToolFailed md = map_option ClosesTool (map_of md ''step_id'')"
| "closes_as _ md = None"

definition closes :: "log_record \<Rightarrow> closing option" where
  "closes r =
     Option.bind (event_type_from_str (lr_event_type r)) (\<lambda>et. closes_as et (lr_metadata r))"

definition terminals_unique :: "log_record list \<Rightarrow> bool" where
  "terminals_unique rs \<longleftrightarrow> distinct (List.map_filter closes rs)"

lemma map_filter_append [simp]:
  "List.map_filter f (xs @ ys) = List.map_filter f xs @ List.map_filter f ys"
  by (simp add: List.map_filter_def)

lemma set_map_filter_Some: "c \<in> set (List.map_filter f xs) \<longleftrightarrow> (\<exists>x \<in> set xs. f x = Some c)"
  by (force simp: List.map_filter_def)

lemma terminals_unique_snoc:
  "terminals_unique (rs @ [r]) \<longleftrightarrow>
     terminals_unique rs \<and> (\<forall>c. closes r = Some c \<longrightarrow> (\<forall>r' \<in> set rs. closes r' \<noteq> Some c))"
  by (cases "closes r") (auto simp: terminals_unique_def List.map_filter_simps set_map_filter_Some)

lemma logdbd_event_meta_lookup [simp]:
  "map_of (logdbd_event_meta e) ''turn_id'' = map_option show_int (ae_turn_id e)"
  "map_of (logdbd_event_meta e) ''step_id'' = ae_step_id e"
  by (auto simp: logdbd_event_meta_def split: option.splits)

text \<open>Two records that close the same thing are of conflicting types and agree in the key.\<close>

lemma closes_as_iff:
  "closes_as et md = Some ClosesSession \<longleftrightarrow> et = SessionEnded"
  "closes_as et md = Some ClosesTask \<longleftrightarrow> et \<in> {TaskSucceeded, TaskFailed, TaskCanceled}"
  "closes_as et md = Some (ClosesTurn t) \<longleftrightarrow>
     et \<in> {TurnCompleted, TurnFailed, TurnCanceled, TurnBlocked} \<and> map_of md ''turn_id'' = Some t"
  "closes_as et md = Some (ClosesLlm s) \<longleftrightarrow>
     et \<in> {LlmCompleted, LlmFailed} \<and> map_of md ''step_id'' = Some s"
  "closes_as et md = Some (ClosesTool s) \<longleftrightarrow>
     et \<in> {ToolCompleted, ToolFailed} \<and> map_of md ''step_id'' = Some s"
  by (cases et; simp)+

fun closing_query :: "closing \<Rightarrow> event_type list \<times> terminal_scope \<times> (string \<times> string) list" where
  "closing_query ClosesSession = ([SessionEnded], InSession, [])"
| "closing_query ClosesTask = ([TaskSucceeded, TaskFailed, TaskCanceled], InTask, [])"
| "closing_query (ClosesTurn t) =
     ([TurnCompleted, TurnFailed, TurnCanceled, TurnBlocked], InTurn, [(''turn_id'', t)])"
| "closing_query (ClosesLlm s) = ([LlmCompleted, LlmFailed], InStep, [(''step_id'', s)])"
| "closing_query (ClosesTool s) = ([ToolCompleted, ToolFailed], InStep, [(''step_id'', s)])"

text \<open>What an event closes once it is stored.\<close>

definition closed_by :: "agent_event \<Rightarrow> closing option" where
  "closed_by e = closes_as (ae_event_type e) (logdbd_event_meta e)"

lemma closes_appended [simp]: "closes (stored_record (append_request env e now) seq) = closed_by e"
  by (simp add: closes_def stored_record_def append_request_def closed_by_def)

lemma append_request_address [simp]:
  "pq_namespace (append_request env e now) = le_namespace env"
  "pq_stream (append_request env e now) = ae_task_id e"
  by (simp_all add: append_request_def)

lemma closing_query_of_event:
  assumes "closed_by e = Some c" "closing_query c = (types, scope, flt)"
  shows "terminal_conflicts (ae_event_type e) = Some (types, scope)" "scope_filter scope e = Inr flt"
  using assms
  by (cases c; auto simp: closed_by_def closes_as_iff terminal_conflicts_def scope_filter_def)+

lemma closing_query_complete:
  assumes "closes r = Some c" "closing_query c = (types, scope, flt)"
  shows "matches rs ((query_for QCount)\<lparr>qr_event_types := map event_type_as_str types, qr_metadata := flt\<rparr>) r"
proof -
  obtain et where et: "event_type_from_str (lr_event_type r) = Some et" "closes_as et (lr_metadata r) = Some c"
    using assms(1) by (auto simp: closes_def bind_eq_Some_conv)
  with assms(2) show ?thesis
    by (cases c) (auto simp: closes_as_iff matches_def query_for_def dest: event_type_as_from_str)
qed

lemma check_reads:
  assumes "reads_ok (le_client env) v" "check_terminal_uniqueness env e w = (r, w')"
  shows "v w' = v w"
proof (cases "terminal_conflicts (ae_event_type e)")
  case None
  with assms(2) show ?thesis by (simp add: check_terminal_uniqueness_def)
next
  case (Some ts)
  with assms(2) show ?thesis
    by (auto simp: check_terminal_uniqueness_def andThen_def split: prod.splits sum.splits if_splits
        dest!: run_query_result [OF assms(1)])
qed

lemma check_finds_conflict:
  assumes "reads_ok (le_client env) v" "check_terminal_uniqueness env e w = (Inr u, w')"
    and c: "closed_by e = Some c"
    and x: "x \<in> set (v w (le_namespace env) (ae_task_id e))"
  shows "closes x \<noteq> Some c"
proof
  assume closed: "closes x = Some c"
  obtain types scope flt where q: "closing_query c = (types, scope, flt)" by (cases "closing_query c")
  let ?q = "(query_for QCount)\<lparr>qr_event_types := map event_type_as_str types, qr_metadata := flt\<rparr>"
  obtain a where "run_query env (ae_task_id e) ?q w = (Inr a, w')" "\<not> answered_count a > 0"
    using assms(2) closing_query_of_event [OF c q]
    by (auto simp: check_terminal_uniqueness_def andThen_def split: prod.splits sum.splits if_splits)
  moreover from run_query_result [OF assms(1) this(1)]
  have "a = Some (AnsCount (int (length (filter
      (matches (v w (le_namespace env) (ae_task_id e)) ?q) (v w (le_namespace env) (ae_task_id e))))))"
    by (simp add: answers_def Let_def query_for_def)
  ultimately have "filter (matches (v w (le_namespace env) (ae_task_id e)) ?q)
      (v w (le_namespace env) (ae_task_id e)) = []" by simp
  with x closing_query_complete [OF closed q] show False by (auto simp: filter_empty_conv)
qed

text \<open>A write either leaves the log as it was or adds its record, which closes nothing twice.\<close>

lemma write_event_effect:
  assumes reads: "reads_ok (le_client env) v" and appends: "appends_ok (le_client env) v"
    and run: "log_write_event env e w = (r, w')"
  shows "v w' = v w \<and> (\<exists>x. r = Inl x) \<or>
    (\<exists>now seq. v w' = extended (append_request env e now) seq (v w) \<and>
       (\<forall>c. closed_by e = Some c \<longrightarrow>
          (\<forall>x \<in> set (v w (le_namespace env) (ae_task_id e)). closes x \<noteq> Some c)))"
proof (cases "log_validate e")
  case (Inl x)
  with run show ?thesis by (auto simp: log_write_event_def andThen_def)
next
  case (Inr u)
  obtain now w1 where now: "lg_now (le_client env) w = (now, w1)" by force
  from reads now have v1: "v w1 = v w" unfolding reads_ok_def by (metis snd_conv)
  obtain k w2 where chk: "check_terminal_uniqueness env e w1 = (k, w2)" by force
  from check_reads [OF reads chk] v1 have v2: "v w2 = v w" by simp
  show ?thesis
  proof (cases k)
    case (Inl x)
    with run Inr now chk v2 show ?thesis by (auto simp: log_write_event_def andThen_def log_now_def)
  next
    case (Inr u')
    let ?rq = "append_request env e now"
    obtain a w3 where app: "lg_append_full (le_client env) ?rq w2 = (a, w3)" by force
    have res: "w' = w3" "a = Inl m \<Longrightarrow> \<exists>x. r = Inl x" for m
      using run now chk app Inr \<open>log_validate e = Inr u\<close>
      by (auto simp: log_write_event_def andThen_def log_now_def append_op_def log_call_def
          split: sum.splits)
    have "(\<exists>m. a = Inl m) \<and> v w3 = v w \<or> (\<exists>seq. v w3 = extended ?rq seq (v w))"
      using appends app v2 unfolding appends_ok_def
      by (elim allE [of _ ?rq] allE [of _ w2]) (auto split: sum.splits)
    then show ?thesis
      using res check_finds_conflict [OF reads chk [unfolded Inr]] v1 by metis
  qed
qed

section \<open>Batches\<close>

text \<open>A request that stores an event.\<close>

definition stores :: "'w logdbd_env \<Rightarrow> agent_event \<Rightarrow> produce_request \<Rightarrow> bool" where
  "stores env e rq \<longleftrightarrow>
     (\<exists>now. rq = (append_request env e now)\<lparr>pq_shard_key := Some (ae_task_id e)\<rparr>)"

lemma storesD:
  assumes "stores env e rq"
  shows "closes (stored_record rq seq) = closed_by e" "pq_namespace rq = le_namespace env"
    "pq_stream rq = ae_task_id e"
  using assms
  by (auto simp: stores_def append_request_def closes_def stored_record_def closed_by_def)

lemma batch_requests_result:
  assumes "reads_ok (le_client env) v"
  shows "batch_requests env es w = (Inr rqs, w') \<Longrightarrow>
    v w' = v w \<and> list_all2 (stores env) es rqs \<and>
    (\<forall>e \<in> set es. closed_by e \<noteq> None \<longrightarrow>
       closed_by e \<notin> closes ` set (v w (le_namespace env) (ae_task_id e)))"
proof (induction es arbitrary: w rqs w')
  case Nil
  then show ?case by simp
next
  case (Cons e es)
  then obtain w1 now w2 rqs' where
    chk: "check_terminal_uniqueness env e w = (Inr (), w1)" and
    now: "lg_now (le_client env) w1 = (now, w2)" and
    rest: "batch_requests env es w2 = (Inr rqs', w')" and
    rqs: "rqs = (append_request env e now)\<lparr>pq_shard_key := Some (ae_task_id e)\<rparr> # rqs'"
    by (auto simp: andThen_Inr_iff log_now_Inr_iff)
  have "v w1 = v w" by (rule check_reads [OF assms chk])
  moreover have "v w2 = v w1" using assms now unfolding reads_ok_def by (metis snd_conv)
  moreover have "closed_by e \<notin> closes ` set (v w (le_namespace env) (ae_task_id e))"
    if "closed_by e \<noteq> None" using that check_finds_conflict [OF assms chk] by fastforce
  ultimately show ?case using Cons.IH [OF rest] rqs by (auto simp: stores_def)
qed

lemma closes_extended_batch:
  "list_all2 (stores env) es rqs \<Longrightarrow> length seqs = length rqs \<Longrightarrow>
     List.map_filter closes (extended_batch (zip rqs seqs) l (le_namespace env) t) =
       List.map_filter closes (l (le_namespace env) t) @
       List.map_filter closed_by (filter (\<lambda>e. ae_task_id e = t) es)"
proof (induction es rqs arbitrary: seqs l rule: list_all2_induct)
  case Nil
  then show ?case by (simp add: extended_batch_def List.map_filter_simps)
next
  case (Cons e es rq rqs)
  then obtain q qs where "seqs = q # qs" "length qs = length rqs" by (cases seqs) auto
  with Cons.IH [of qs "extended rq q l"] storesD [OF Cons.hyps(1)] show ?case
    by (auto simp: extended_batch_def extended_def List.map_filter_simps split: option.splits)
qed

section \<open>The state of a task in its log\<close>

definition record_type :: "log_record \<Rightarrow> event_type option" where
  "record_type r = event_type_from_str (lr_event_type r)"

definition is_task_record :: "log_record \<Rightarrow> bool" where
  "is_task_record r = (case record_type r of None \<Rightarrow> False | Some et \<Rightarrow> is_task_level et)"

text \<open>A record as the projection reads it.\<close>

definition frame_of :: "log_record \<Rightarrow> int \<times> record_frame" where
  "frame_of r =
     (lr_timestamp_ns r,
      \<lparr>rf_seq = lr_seq r, rf_event_type = lr_event_type r, rf_content = lr_content r,
       rf_metadata = lr_metadata r\<rparr>)"

definition last_task_type :: "log_record list \<Rightarrow> string option" where
  "last_task_type rs = map_option lr_event_type (max_by_seq (filter is_task_record rs))"

text \<open>A turn has been started since the last task event.\<close>

definition started_since :: "log_record list \<Rightarrow> bool" where
  "started_since rs \<longleftrightarrow>
     (\<exists>x \<in> set rs. record_type x = Some TurnStarted \<and>
        (\<forall>y \<in> set rs. is_task_record y \<longrightarrow> lr_seq y < lr_seq x))"

lemma log_wf_snoc:
  "log_wf (rs @ [r]) \<longleftrightarrow>
     log_wf rs \<and> (\<forall>x \<in> set rs. lr_seq x < lr_seq r) \<and> 0 < lr_seq r \<and> in_i64 (lr_seq r)"
  by (auto simp: log_wf_def sorted_wrt_append)

lemma log_wf_filter: "log_wf rs \<Longrightarrow> log_wf (filter P rs)"
  by (auto simp: log_wf_def list_all_iff sorted_wrt_map intro: sorted_wrt_filter)

lemma max_by_seq_None_iff [simp]: "max_by_seq rs = None \<longleftrightarrow> rs = []"
  by (cases rs) (auto split: option.splits)

lemma max_by_seq_snoc: "\<forall>x \<in> set rs. lr_seq x < lr_seq r \<Longrightarrow> max_by_seq (rs @ [r]) = Some r"
  by (induction rs) auto

lemma max_by_seq_in: "max_by_seq rs = Some m \<Longrightarrow> m \<in> set rs \<and> (\<forall>x \<in> set rs. lr_seq x \<le> lr_seq m)"
  by (induction rs arbitrary: m) (fastforce split: option.splits if_splits)+

lemma max_by_seq_filter_snoc:
  "\<forall>x \<in> set rs. lr_seq x < lr_seq r \<Longrightarrow>
     max_by_seq (filter P (rs @ [r])) = (if P r then Some r else max_by_seq (filter P rs))"
  using max_by_seq_snoc [of "filter P rs" r] by simp

lemma last_task_type_snoc:
  "\<forall>x \<in> set rs. lr_seq x < lr_seq r \<Longrightarrow>
     last_task_type (rs @ [r]) = (if is_task_record r then Some (lr_event_type r) else last_task_type rs)"
  by (simp only: last_task_type_def max_by_seq_filter_snoc) simp

lemma started_since_snoc:
  "\<forall>x \<in> set rs. lr_seq x < lr_seq r \<Longrightarrow>
     started_since (rs @ [r]) \<longleftrightarrow>
       (if is_task_record r then False
        else record_type r = Some TurnStarted \<or> started_since rs)"
  by (force simp: started_since_def is_task_record_def is_task_level_def split: option.splits)

lemma base_state_task:
  "is_task_level et \<Longrightarrow> base_state (Some (event_type_as_str et)) = the (guard_target et)"
  by (cases et) (simp_all add: is_task_level_def base_state_def)

lemma record_type_str: "record_type r = Some et \<Longrightarrow> lr_event_type r = event_type_as_str et"
  by (simp add: record_type_def event_type_as_from_str)

lemma next_state_cases:
  "next_state s et =
     (if is_task_level et then the (guard_target et)
      else if et = TurnStarted \<and> s \<in> {Ready, Claimed} then Executing else s)"
  by (cases et) (auto simp: is_task_level_def)

text \<open>The fold of the projection in closed form.\<close>

lemma fold_state_closed_form:
  "log_wf rs \<Longrightarrow>
     fold (\<lambda>e s. next_state s e) (List.map_filter record_type rs) Created =
       (let base = base_state (last_task_type rs)
        in if base \<in> {Ready, Claimed} \<and> started_since rs then Executing else base)"
proof (induction rs rule: rev_induct)
  case Nil
  then show ?case
    by (simp add: List.map_filter_simps last_task_type_def base_state_def started_since_def)
next
  case (snoc r rs)
  then have lt: "\<forall>x \<in> set rs. lr_seq x < lr_seq r" and wf: "log_wf rs" by (simp_all add: log_wf_snoc)
  have ne: "base_state x \<noteq> Executing" for x by (simp add: base_state_def)
  show ?case
  proof (cases "record_type r")
    case None
    with snoc.IH [OF wf] show ?thesis
      by (simp add: last_task_type_snoc [OF lt] started_since_snoc [OF lt] is_task_record_def
          List.map_filter_simps)
  next
    case (Some et)
    with snoc.IH [OF wf] ne show ?thesis
      by (auto simp: last_task_type_snoc [OF lt] started_since_snoc [OF lt] is_task_record_def
          List.map_filter_simps next_state_cases record_type_str base_state_task Let_def)
  qed
qed

lemma replay_log_state:
  "tp_state (replay cd (map frame_of rs) (projection_new now tid)) =
     fold (\<lambda>e s. next_state s e) (List.map_filter record_type rs) Created"
proof -
  have "map ae_event_type (events_of cd tid (map frame_of rs)) = List.map_filter record_type rs"
    by (induction rs)
      (auto simp: events_of_def List.map_filter_simps decode_record_def frame_of_def record_type_def
        split: option.splits)
  then show ?thesis by (simp add: replay_events fold_state)
qed

text \<open>What the test store derives, from what the fold gives.\<close>

lemma derived_from_fold:
  assumes "log_wf rs" "p = fold (\<lambda>e s. next_state s e) (List.map_filter record_type rs) Created"
  shows "(if base_state (last_task_type rs) = Claimed \<and> started_since rs then Executing
          else base_state (last_task_type rs)) =
         (if p = Executing \<and> last_task_type rs = Some ''task_ready'' then Ready else p)"
proof -
  have ready: "base_state t = Ready \<longleftrightarrow> t = Some ''task_ready''" for t by (auto simp: base_state_def)
  have "base_state t \<noteq> Executing" for t by (simp add: base_state_def)
  then show ?thesis
    by (cases "base_state (last_task_type rs)")
      (auto simp: assms(2) fold_state_closed_form [OF assms(1)] Let_def ready [symmetric])
qed

lemma task_types_iff:
  "lr_event_type r \<in> {''task_created'', ''task_ready'', ''task_claimed'', ''task_blocked'', ''task_succeeded'',
     ''task_failed'', ''task_canceled''} \<longleftrightarrow> is_task_record r"
proof (cases "record_type r")
  case None
  then show ?thesis
    by (auto simp: is_task_record_def record_type_def event_type_from_str_def split: if_splits)
next
  case (Some et)
  then show ?thesis
    by (cases et) (simp_all add: record_type_str is_task_record_def is_task_level_def)
qed

lemma record_type_iff: "record_type r = Some et \<longleftrightarrow> lr_event_type r = event_type_as_str et"
  by (metis record_type_def event_type_from_as_str record_type_str)

lemma is_created_iff: "is_created r \<longleftrightarrow> record_type r = Some TaskCreated"
  by (simp add: record_type_iff is_created_def)

lemma started_iff: "lr_event_type r = ''turn_started'' \<longleftrightarrow> record_type r = Some TurnStarted"
  by (simp add: record_type_iff)

lemma read_task_records_result:
  assumes "reads_ok (le_client env) v" "read_task_records env tid w = (r, w')"
  shows "v w' = v w \<and>
    (case r of Inl x \<Rightarrow> \<exists>m. x = Internal m | Inr rs \<Rightarrow> rs = filter is_task_record (v w (le_namespace env) tid))"
proof -
  let ?types = "[''task_created'', ''task_ready'', ''task_claimed'', ''task_blocked'', ''task_succeeded'',
    ''task_failed'', ''task_canceled'']"
  have "matches rs ((query_for QRecords)\<lparr>qr_event_types := ?types\<rparr>) = is_task_record" for rs
    using task_types_iff by (simp add: matches_types fun_eq_iff)
  with query_records_result [OF assms [unfolded read_task_records_def]] show ?thesis
    by (cases r) simp_all
qed

lemma started_after_iff:
  assumes wf: "log_wf rs" and m: "max_by_seq (filter is_task_record rs) = Some m"
    and ans: "answers rs ((query_for QMax)\<lparr>qr_event_types := [''turn_started'']\<rparr>) a"
  shows "(case a of Some (AnsMax ts) \<Rightarrow> wrap_i64 ts > wrap_i64 (lr_seq m) | _ \<Rightarrow> False) \<longleftrightarrow> started_since rs"
proof -
  let ?seqs = "lr_seq ` set (filter (\<lambda>r. record_type r = Some TurnStarted) rs)"
  have range: "x \<in> set rs \<Longrightarrow> in_i64 (lr_seq x) \<and> 0 < lr_seq x" for x
    using wf by (auto simp: log_wf_def list_all_iff)
  from max_by_seq_in [OF m] have m_in: "m \<in> set rs" "is_task_record m"
    and m_max: "\<And>y. y \<in> set rs \<Longrightarrow> is_task_record y \<Longrightarrow> lr_seq y \<le> lr_seq m" by auto
  have started: "started_since rs \<longleftrightarrow> (\<exists>q \<in> ?seqs. lr_seq m < q)"
    unfolding started_since_def using m_in m_max by force
  have a: "if ?seqs = {} then a = None \<or> a = Some (AnsMax 0) else a = Some (AnsMax (Max ?seqs))"
    using ans by (auto simp: answers_def aggregated_def matches_types started_iff Let_def
        filter_empty_conv split: if_splits)
  show ?thesis
  proof (cases "?seqs = {}")
    case True
    with a started range [OF m_in(1)] show ?thesis by auto
  next
    case False
    then have top: "Max ?seqs \<in> ?seqs" by (intro Max_in) auto
    then have "in_i64 (Max ?seqs)" using range by auto
    moreover have "(\<exists>q \<in> ?seqs. lr_seq m < q) \<longleftrightarrow> lr_seq m < Max ?seqs"
      using False by (simp add: Max_gr_iff)
    ultimately show ?thesis using a False started range [OF m_in(1)] by simp
  qed
qed

lemma derive_task_state_result:
  assumes reads: "reads_ok (le_client env) v" and wf: "log_wf rs" and rs: "rs = v w (le_namespace env) tid"
    and run: "derive_task_state env (filter is_task_record rs) tid w = (r, w')"
  shows "case r of Inl x \<Rightarrow> \<exists>m. x = Internal m
    | Inr s \<Rightarrow> (let base = base_state (last_task_type rs)
               in s = (if base = Claimed \<and> started_since rs then Executing else base))"
proof (cases "base_state (last_task_type rs) = Claimed")
  case False
  with run show ?thesis by (auto simp: derive_task_state_def last_task_type_def Let_def)
next
  case True
  then obtain m where m: "max_by_seq (filter is_task_record rs) = Some m"
    by (cases "max_by_seq (filter is_task_record rs)") (simp_all add: last_task_type_def base_state_def)
  let ?q = "(query_for QMax)\<lparr>qr_event_types := [''turn_started'']\<rparr>"
  obtain k w1 where q: "run_query env tid ?q w = (k, w1)" by force
  show ?thesis
  proof (cases k)
    case (Inl x)
    with run_query_result [OF reads q] run True m q show ?thesis
      by (auto simp: derive_task_state_def last_task_type_def andThen_def)
  next
    case (Inr a)
    with run_query_result [OF reads q] rs have "answers rs ?q a" by simp
    from started_after_iff [OF wf m this] run True m q Inr show ?thesis
      by (auto simp: derive_task_state_def last_task_type_def andThen_def Let_def
          split: option.splits query_answer.splits if_splits)
  qed
qed

section \<open>Holes in the numbering\<close>

definition seqs_of :: "log_record list \<Rightarrow> int set" where
  "seqs_of rs = lr_seq ` set rs"

definition turn_records :: "int \<Rightarrow> log_record list \<Rightarrow> log_record list" where
  "turn_records n rs = filter (\<lambda>r. map_of (lr_metadata r) ''turn_id'' = Some (show_int n)) rs"

lemma matches_turn:
  "filter (matches rs ((query_for k)\<lparr>qr_metadata := of_turn n\<rparr>)) rs = turn_records n rs"
  by (simp add: matches_def of_turn_def turn_records_def cong: filter_cong)

lemma matches_all: "filter (matches rs (query_for k)) rs = rs"
  by (simp add: matches_def cong: filter_cong)

lemma log_wf_seqs: "log_wf rs \<Longrightarrow> n \<in> seqs_of rs \<Longrightarrow> 0 < n \<and> in_i64 n"
  by (auto simp: log_wf_def seqs_of_def list_all_iff)

lemma log_wf_last:
  assumes "log_wf rs" "rs \<noteq> []"
  shows "last (map lr_seq rs) \<in> seqs_of rs" "n \<in> seqs_of rs \<Longrightarrow> n \<le> last (map lr_seq rs)"
proof -
  show "last (map lr_seq rs) \<in> seqs_of rs" using assms(2) by (simp add: seqs_of_def last_map)
  obtain ys y where "rs = ys @ [y]" using assms(2) by (cases rs rule: rev_cases) auto
  with assms(1) show "n \<in> seqs_of rs \<Longrightarrow> n \<le> last (map lr_seq rs)"
    by (fastforce simp: log_wf_snoc seqs_of_def)
qed

lemma gaps_of_log:
  assumes "log_wf rs"
  shows "g \<in> set (gaps_of (map lr_seq rs)) \<longleftrightarrow>
    g - 1 \<in> seqs_of rs \<and> g \<notin> seqs_of rs \<and> (\<exists>m \<in> seqs_of rs. g < m)"
proof (cases "rs = []")
  case True
  then show ?thesis by (simp add: gaps_of_def seqs_of_def)
next
  case False
  have "sorted (map lr_seq rs)"
    using assms by (simp add: log_wf_def strict_sorted_imp_sorted)
  then have sorted: "sort (map lr_seq rs) = map lr_seq rs" by (rule sorted_sort_id)
  let ?m = "last (map lr_seq rs)"
  have set: "set (map lr_seq rs) = seqs_of rs" by (simp add: seqs_of_def)
  have below: "in_i64 (s + 1)" if "s \<in> seqs_of rs" "s < ?m" for s
    using log_wf_seqs [OF assms that(1)] log_wf_seqs [OF assms log_wf_last(1) [OF assms False]] that(2)
    by (simp add: in_i64_def)
  have "g \<in> set (gaps_of (map lr_seq rs)) \<longleftrightarrow>
      (\<exists>s \<in> seqs_of rs. s < ?m \<and> s + 1 \<notin> seqs_of rs \<and> g = s + 1)"
  proof -
    have "set (gaps_of (map lr_seq rs)) =
        (\<lambda>s. wrap_i64 (s + 1)) ` {s \<in> seqs_of rs. s < ?m \<and> s + 1 \<notin> seqs_of rs}"
      using False unfolding gaps_of_def Let_def sorted set by (auto simp: seqs_of_def)
    then show ?thesis using below by (auto simp: image_iff)
  qed
  also have "\<dots> \<longleftrightarrow> g - 1 \<in> seqs_of rs \<and> g \<notin> seqs_of rs \<and> g \<le> ?m" by force
  also have "\<dots> \<longleftrightarrow> g - 1 \<in> seqs_of rs \<and> g \<notin> seqs_of rs \<and> (\<exists>m \<in> seqs_of rs. g < m)"
  proof -
    have "g \<le> ?m \<longleftrightarrow> g < ?m" if "g \<notin> seqs_of rs"
      using that log_wf_last(1) [OF assms False] by (cases "g = ?m") auto
    moreover have "g < ?m \<longleftrightarrow> (\<exists>m \<in> seqs_of rs. g < m)"
      using log_wf_last [OF assms False] by (meson order_less_le_trans)
    ultimately show ?thesis by blast
  qed
  finally show ?thesis .
qed

text \<open>A stretch of numbers is stored without a hole just when no gap starts in it.\<close>

lemma stretch_stored_iff:
  fixes S :: "int set"
  assumes "lo \<in> S" "hi \<in> S"
  shows "(\<forall>n. lo \<le> n \<and> n \<le> hi \<longrightarrow> n \<in> S) \<longleftrightarrow>
    \<not> (\<exists>g. lo \<le> g \<and> g \<le> hi \<and> g - 1 \<in> S \<and> g \<notin> S \<and> (\<exists>m \<in> S. g < m))"
proof
  assume no_gap: "\<not> (\<exists>g. lo \<le> g \<and> g \<le> hi \<and> g - 1 \<in> S \<and> g \<notin> S \<and> (\<exists>m \<in> S. g < m))"
  have "n \<le> hi \<longrightarrow> n \<in> S" if "lo \<le> n" for n
    using that
  proof (induction n rule: int_ge_induct)
    case base
    show ?case using assms(1) by simp
  next
    case (step i)
    show ?case
    proof (rule impI, rule ccontr)
      assume hi: "i + 1 \<le> hi" and out: "i + 1 \<notin> S"
      then have "i + 1 < hi" using assms(2) by (cases "i + 1 = hi") auto
      with step hi out assms(2) no_gap [unfolded not_ex, THEN spec, of "i + 1"] show False by auto
    qed
  qed
  then show "\<forall>n. lo \<le> n \<and> n \<le> hi \<longrightarrow> n \<in> S" by blast
qed blast

lemma detect_seq_gaps_result:
  assumes "reads_ok (le_client env) v" "log_detect_seq_gaps env tid w = (r, w')"
  shows "v w' = v w \<and>
    (case r of Inl x \<Rightarrow> \<exists>m. x = Internal m
     | Inr gaps \<Rightarrow> gaps = gaps_of (map lr_seq (v w (le_namespace env) tid)))"
proof -
  obtain k w1 where q: "query_records env tid (query_for QRecords) w = (k, w1)" by force
  from query_records_result [OF assms(1) q] assms(2) q show ?thesis
    by (auto simp: log_detect_seq_gaps_def andThen_def matches_all split: sum.splits)
qed

text \<open>The least and the greatest number of a turn, as the code reads the answers; zero without records.\<close>

lemma turn_bounds_answered:
  assumes wf: "log_wf rs" and ts: "ts = seqs_of (turn_records turn rs)"
    and lo: "answers rs ((query_for QMin)\<lparr>qr_metadata := of_turn turn\<rparr>) lo"
    and hi: "answers rs ((query_for QMax)\<lparr>qr_metadata := of_turn turn\<rparr>) hi"
  shows "if ts = {} then answered_min lo = 0 \<and> answered_max hi = 0
    else answered_min lo = Min ts \<and> answered_max hi = Max ts \<and> Min ts \<in> ts \<and> Max ts \<in> ts"
proof (cases "turn_records turn rs = []")
  case True
  with ts lo hi show ?thesis
    by (auto simp: answers_def matches_turn aggregated_def seqs_of_def)
next
  case False
  have sub: "ts \<subseteq> seqs_of rs" by (auto simp: ts turn_records_def seqs_of_def)
  have ne: "ts \<noteq> {}" "finite ts" using False by (simp_all add: ts seqs_of_def)
  then have mem: "Min ts \<in> ts" "Max ts \<in> ts" by simp_all
  with sub log_wf_seqs [OF wf] have "in_i64 (Min ts)" "in_i64 (Max ts)" by blast+
  moreover have "lo = Some (AnsMin (Min ts))" "hi = Some (AnsMax (Max ts))"
    using lo hi False by (simp_all add: answers_def matches_turn aggregated_def ts seqs_of_def)
  ultimately show ?thesis using ne mem by simp
qed

lemma stretches_iff:
  fixes ts S :: "int set"
  assumes "finite ts" "ts \<noteq> {}"
  shows "(\<forall>lo \<in> ts. \<forall>hi \<in> ts. \<forall>n. lo \<le> n \<and> n \<le> hi \<longrightarrow> n \<in> S) \<longleftrightarrow>
    (\<forall>n. Min ts \<le> n \<and> n \<le> Max ts \<longrightarrow> n \<in> S)"
  using assms by (meson Max_ge Max_in Min_in Min_le order_trans)

section \<open>Turns left open\<close>

text \<open>The starts and the terminal events of a turn.\<close>

definition starts_turn :: "int \<Rightarrow> log_record \<Rightarrow> bool" where
  "starts_turn n r \<longleftrightarrow> record_type r = Some TurnStarted \<and> meta_turn_id (lr_metadata r) = Some n"

definition ends_turn :: "int \<Rightarrow> log_record \<Rightarrow> bool" where
  "ends_turn n r \<longleftrightarrow>
     (case record_type r of None \<Rightarrow> False | Some et \<Rightarrow> is_turn_terminal et) \<and>
     meta_turn_id (lr_metadata r) = Some n"

text \<open>Every event of a turn names its turn, in the form a write gives it.\<close>

definition turn_ids_written :: "log_record list \<Rightarrow> bool" where
  "turn_ids_written rs \<longleftrightarrow>
     (\<forall>r \<in> set rs. (case record_type r of None \<Rightarrow> False | Some et \<Rightarrow> is_turn_level et) \<longrightarrow>
        (\<exists>n. in_i64 n \<and> map_of (lr_metadata r) ''turn_id'' = Some (show_int n)))"

text \<open>No turn is started again after it has ended.\<close>

definition starts_before_ends :: "log_record list \<Rightarrow> bool" where
  "starts_before_ends rs \<longleftrightarrow>
     (\<forall>n. \<forall>x \<in> set rs. \<forall>y \<in> set rs. starts_turn n x \<and> ends_turn n y \<longrightarrow> lr_seq x < lr_seq y)"

lemma turn_terminal_types_iff:
  "lr_event_type r \<in> set turn_terminal_types \<longleftrightarrow>
     (case record_type r of None \<Rightarrow> False | Some et \<Rightarrow> is_turn_terminal et)"
proof -
  have "lr_event_type r \<in> set turn_terminal_types \<longleftrightarrow>
      record_type r \<in> {Some TurnCompleted, Some TurnFailed, Some TurnCanceled, Some TurnBlocked}"
    by (simp add: turn_terminal_types_def record_type_iff)
  then show ?thesis by (auto simp: is_turn_terminal_def split: option.split)
qed

lemma turn_key:
  assumes "turn_ids_written rs" "r \<in> set rs" "record_type r = Some et" "is_turn_level et"
  obtains n where "meta_turn_id (lr_metadata r) = Some n"
    "\<And>m. meta_turn_id (lr_metadata r) = Some m \<Longrightarrow> map_of (lr_metadata r) ''turn_id'' = Some (show_int m)"
proof -
  obtain n where "in_i64 n" "map_of (lr_metadata r) ''turn_id'' = Some (show_int n)"
    using assms by (auto simp: turn_ids_written_def split: option.splits)
  with that show ?thesis by (simp add: meta_turn_id_def parse_show_int)
qed

lemma open_turn_matches:
  assumes keys: "turn_ids_written rs" and x: "x \<in> set rs" "starts_turn n x"
  shows "matches rs ((query_for QRecords)\<lparr>qr_event_types := [''turn_started''],
      qr_absent := Some (turn_terminal_types, ''turn_id'')\<rparr>) x \<longleftrightarrow> \<not> (\<exists>y \<in> set rs. ends_turn n y)"
proof -
  have level: "is_turn_terminal et \<Longrightarrow> is_turn_level et" for et
    by (cases et) (simp_all add: is_turn_terminal_def is_turn_level_def)
  have key: "map_of (lr_metadata x) ''turn_id'' = Some (show_int n)"
    using turn_key [OF keys x(1), of TurnStarted] x(2)
    by (auto simp: starts_turn_def is_turn_level_def)
  have "same_key ''turn_id'' x y \<longleftrightarrow> meta_turn_id (lr_metadata y) = Some n"
    if mem: "y \<in> set rs" and ended: "lr_event_type y \<in> set turn_terminal_types" for y
  proof -
    obtain et where "record_type y = Some et" "is_turn_level et"
      using ended level by (auto simp: turn_terminal_types_iff split: option.splits)
    from turn_key [OF keys mem this] obtain m where
      "meta_turn_id (lr_metadata y) = Some m" "map_of (lr_metadata y) ''turn_id'' = Some (show_int m)"
      by metis
    moreover have "parse_i64 (show_int m) = Some m" using calculation by (simp add: meta_turn_id_def)
    moreover have "parse_i64 (show_int n) = Some n"
      using x(2) key by (simp add: starts_turn_def meta_turn_id_def)
    ultimately have "show_int m = show_int n \<longleftrightarrow> m = n" by (metis option.inject)
    with \<open>meta_turn_id (lr_metadata y) = Some m\<close> \<open>map_of (lr_metadata y) ''turn_id'' = Some (show_int m)\<close>
    show ?thesis using key by (auto simp: same_key_def)
  qed
  then show ?thesis
    using x(2) by (auto simp: matches_def list_ex_iff ends_turn_def turn_terminal_types_iff starts_turn_def
        started_iff)
qed

lemma last_start_iff:
  assumes "log_wf bs" "\<forall>r \<in> set bs. P r \<noteq> Q r"
    "\<forall>x \<in> set bs. \<forall>y \<in> set bs. P x \<and> Q y \<longrightarrow> lr_seq x < lr_seq y"
  shows "bs \<noteq> [] \<and> P (last bs) \<longleftrightarrow> (\<exists>x \<in> set bs. P x) \<and> \<not> (\<exists>y \<in> set bs. Q y)"
proof (cases bs rule: rev_cases)
  case Nil
  then show ?thesis by simp
next
  case (snoc ys y)
  with assms(1) have lt: "x \<in> set ys \<Longrightarrow> lr_seq x < lr_seq y" for x by (simp add: log_wf_snoc)
  show ?thesis
  proof (cases "P y")
    case True
    have "\<not> Q z" if "z \<in> set bs" for z
    proof (cases "z = y")
      case False
      with that snoc have "lr_seq z < lr_seq y" using lt by simp
      with assms(3) that snoc True show ?thesis by fastforce
    qed (use assms(2) snoc True in simp)
    with snoc True show ?thesis by auto
  qed (use assms(2) snoc in auto)
qed

lemma active_turn_iff:
  assumes "log_wf rs" "starts_before_ends rs"
  shows "n \<in> set (tp_active_turns (replay cd (map frame_of rs) (projection_new now tid))) \<longleftrightarrow>
    (\<exists>x \<in> set rs. starts_turn n x) \<and> \<not> (\<exists>y \<in> set rs. ends_turn n y)"
proof -
  let ?bs = "filter (\<lambda>r. starts_turn n r \<or> ends_turn n r) rs"
  have types: "map ae_event_type (turn_bounds n (events_of cd tid (map frame_of rs))) =
      map (the \<circ> record_type) ?bs"
  proof (induction rs)
    case Nil
    then show ?case by (simp add: turn_bounds_def events_of_def List.map_filter_simps)
  next
    case (Cons r rs)
    then show ?case
      by (cases "record_type r")
        (simp_all add: turn_bounds_def events_of_def List.map_filter_simps decode_record_def frame_of_def
          record_type_def [symmetric] starts_turn_def ends_turn_def conj_disj_distribL conj_ac)
  qed
  have xor: "\<forall>r \<in> set ?bs. starts_turn n r \<noteq> ends_turn n r"
    by (auto simp: starts_turn_def ends_turn_def is_turn_terminal_def)
  have ordered: "\<forall>x \<in> set ?bs. \<forall>y \<in> set ?bs. starts_turn n x \<and> ends_turn n y \<longrightarrow> lr_seq x < lr_seq y"
    using assms(2) unfolding starts_before_ends_def set_filter by blast
  have start: "starts_turn n r \<longleftrightarrow> the (record_type r) = TurnStarted" if "r \<in> set ?bs" for r
    using that by (auto simp: starts_turn_def ends_turn_def is_turn_terminal_def split: option.splits)
  have "turn_bounds n (events_of cd tid (map frame_of rs)) \<noteq> [] \<longleftrightarrow> ?bs \<noteq> []"
    by (simp only: map_is_Nil_conv [symmetric, of _ ae_event_type] types map_is_Nil_conv)
  moreover have "ae_event_type (last (turn_bounds n (events_of cd tid (map frame_of rs)))) =
      the (record_type (last ?bs))" if "?bs \<noteq> []"
  proof -
    have "turn_bounds n (events_of cd tid (map frame_of rs)) \<noteq> []" using that calculation by simp
    moreover have "last (map ae_event_type (turn_bounds n (events_of cd tid (map frame_of rs)))) =
        last (map (the \<circ> record_type) ?bs)" by (simp only: types)
    ultimately show ?thesis using that by (simp add: last_map)
  qed
  ultimately have "n \<in> set (tp_active_turns (replay cd (map frame_of rs) (projection_new now tid))) \<longleftrightarrow>
      ?bs \<noteq> [] \<and> the (record_type (last ?bs)) = TurnStarted"
    by (cases "?bs = []") (simp_all only: replay_events fold_active_turns projection_new_simps simp_thms)
  also have "\<dots> \<longleftrightarrow> ?bs \<noteq> [] \<and> starts_turn n (last ?bs)"
    using start [OF last_in_set] by blast
  also have "\<dots> \<longleftrightarrow> (\<exists>x \<in> set ?bs. starts_turn n x) \<and> \<not> (\<exists>y \<in> set ?bs. ends_turn n y)"
    by (rule last_start_iff [OF log_wf_filter [OF assms(1)] xor ordered])
  finally show ?thesis by auto
qed

section \<open>A database in memory\<close>

text \<open>The requests stored so far, in order; a record is numbered by its position in its stream.\<close>

definition mem_view :: "produce_request list log_view" where
  "mem_view w ns st =
     (let rqs = filter (\<lambda>rq. pq_namespace rq = ns \<and> pq_stream rq = st) w
      in map2 stored_record rqs (map (\<lambda>i. int i + 1) [0..<length rqs]))"

definition mem_answer :: "log_record list \<Rightarrow> query_request \<Rightarrow> query_answer option" where
  "mem_answer rs q =
     (let ms = filter (matches rs q) rs;
          ns = aggregated (qr_aggregate_field q) ms;
          ordered = (if qr_descending q then rev ms else ms);
          values = remdups (field_values (qr_aggregate_field q) ms)
      in case qr_result q of
           QRecords \<Rightarrow> Some (AnsRecords (if qr_limit q = 0 then ordered else take (qr_limit q) ordered))
         | QExists \<Rightarrow> Some (AnsExists (ms \<noteq> []))
         | QCount \<Rightarrow> Some (AnsCount (int (length ms)))
         | QCountDistinct \<Rightarrow> Some (AnsCountDistinct (int (length values)))
         | QMin \<Rightarrow> if ns = [] then None else Some (AnsMin (Min (set ns)))
         | QMax \<Rightarrow> if ns = [] then None else Some (AnsMax (Max (set ns)))
         | QDistinctValues \<Rightarrow> Some (AnsDistinctValues values))"

definition mem_next :: "produce_request \<Rightarrow> produce_request list \<Rightarrow> int" where
  "mem_next rq w = int (length (mem_view w (pq_namespace rq) (pq_stream rq))) + 1"

fun mem_batch :: "produce_request list \<Rightarrow> produce_request list \<Rightarrow> int list" where
  "mem_batch [] w = []"
| "mem_batch (rq # rqs) w = mem_next rq w # mem_batch rqs (w @ [rq])"

definition mem_logdb :: "produce_request list logdb_client" where
  "mem_logdb =
     \<lparr>lg_query = \<lambda>q w. (Inr (mem_answer (mem_view w (qr_namespace q) (qr_stream q)) q), w),
      lg_append_full = \<lambda>rq w. (Inr (mem_next rq w), w @ [rq]),
      lg_append_batch = \<lambda>rqs w. (Inr (None, mem_batch rqs w), w @ rqs),
      lg_read = \<lambda>ns st q w. (Inr (List.find (\<lambda>r. lr_seq r = q) (mem_view w ns st)), w),
      lg_scan_all = \<lambda>ns st q w. (Inr (filter (\<lambda>r. q \<le> lr_seq r) (mem_view w ns st)), w),
      lg_now = \<lambda>w. (0, w),
      lg_uuid = \<lambda>w. (''u'', w)\<rparr>"

definition mem_env :: "produce_request list logdbd_env" where
  "mem_env =
     \<lparr>le_client = mem_logdb, le_codec = sample_codec JNull, le_namespace = ''n'',
      le_stats_iter = \<lambda>xs. xs, le_lossy = \<lambda>xs. xs,
      le_alphanumeric = \<lambda>_. False\<rparr>"

lemma mem_env_sel [simp]:
  "le_client mem_env = mem_logdb" "le_namespace mem_env = ''n''" "le_codec mem_env = sample_codec JNull"
  by (simp_all add: mem_env_def)

lemma mem_answers: "answers rs q (mem_answer rs q)"
  by (cases "qr_result q") (auto simp: answers_def mem_answer_def Let_def)

lemma mem_reads_ok [simp]: "reads_ok mem_logdb mem_view"
  by (simp add: reads_ok_def mem_logdb_def mem_answers)

lemma mem_view_snoc: "mem_view (w @ [rq]) = extended rq (mem_next rq w) (mem_view w)"
  by (auto simp: mem_view_def extended_def mem_next_def Let_def fun_eq_iff)

lemma mem_appends_ok [simp]: "appends_ok mem_logdb mem_view"
  by (simp add: appends_ok_def mem_logdb_def mem_view_snoc)

lemma mem_batch_length [simp]: "length (mem_batch rqs w) = length rqs"
  by (induction rqs arbitrary: w) simp_all

lemma mem_view_batch: "mem_view (w @ rqs) = extended_batch (zip rqs (mem_batch rqs w)) (mem_view w)"
proof (induction rqs arbitrary: w)
  case Nil
  then show ?case by (simp add: extended_batch_def)
next
  case (Cons rq rqs)
  from Cons [of "w @ [rq]"] show ?case by (simp add: extended_batch_def mem_view_snoc)
qed

lemma mem_batches_ok [simp]: "batches_ok mem_logdb mem_view"
  by (simp add: batches_ok_def mem_logdb_def mem_view_batch)

definition sample_event :: "event_type \<Rightarrow> int option \<Rightarrow> string option \<Rightarrow> agent_event" where
  "sample_event et turn step =
     \<lparr>ae_task_id = ''t'', ae_seq = 0, ae_turn_id = turn, ae_step_id = step, ae_event_type = et,
      ae_schema_version = 1, ae_payload = JNull, ae_created_at = 0\<rparr>"

text \<open>A log of a task that is ready, with a turn started: the two answers differ there.\<close>

definition sample_log :: "produce_request list" where
  "sample_log =
     [append_request mem_env (sample_event TaskCreated None None) 0,
      append_request mem_env (sample_event TaskReady None None) 0,
      append_request mem_env (sample_event TurnStarted (Some 1) None) 0]"

lemma sample_log_view:
  "mem_view sample_log ''n'' ''t'' =
     [stored_record (append_request mem_env (sample_event TaskCreated None None) 0) 1,
      stored_record (append_request mem_env (sample_event TaskReady None None) 0) 2,
      stored_record (append_request mem_env (sample_event TurnStarted (Some 1) None) 0) 3]"
  by (simp add: mem_view_def sample_log_def sample_event_def Let_def)

lemma record_type_appended [simp]:
  "record_type (stored_record (append_request env e now) seq) = Some (ae_event_type e)"
  by (simp add: record_type_def stored_record_def append_request_def)

lemma stored_record_sel [simp]:
  "lr_event_type (stored_record rq q) = pq_event_type rq"
  "lr_seq (stored_record rq q) = q" "lr_metadata (stored_record rq q) = pq_metadata rq"
  by (simp_all add: stored_record_def)

lemma append_request_sel [simp]:
  "pq_metadata (append_request env e now) = logdbd_event_meta e"
  "pq_event_type (append_request env e now) = event_type_as_str (ae_event_type e)"
  by (simp_all add: append_request_def)

text \<open>A database that holds one log, whatever stream is asked for, and stores nothing.\<close>

definition fixed_logdb :: "log_record list logdb_client" where
  "fixed_logdb =
     \<lparr>lg_query = \<lambda>q rs. (Inr (mem_answer rs q), rs), lg_append_full = \<lambda>rq rs. (Inl [], rs),
      lg_append_batch = \<lambda>rqs rs. (Inl [], rs),
      lg_read = \<lambda>ns st q rs. (Inr (List.find (\<lambda>r. lr_seq r = q) rs), rs),
      lg_scan_all = \<lambda>ns st q rs. (Inr (filter (\<lambda>r. q \<le> lr_seq r) rs), rs),
      lg_now = \<lambda>rs. (0, rs), lg_uuid = \<lambda>rs. (''u'', rs)\<rparr>"

definition fixed_env :: "log_record list logdbd_env" where
  "fixed_env =
     \<lparr>le_client = fixed_logdb, le_codec = sample_codec JNull, le_namespace = ''n'',
      le_stats_iter = \<lambda>xs. xs, le_lossy = \<lambda>xs. xs,
      le_alphanumeric = \<lambda>_. False\<rparr>"

lemma fixed_reads_ok [simp]: "reads_ok (le_client fixed_env) (\<lambda>rs ns st. rs)"
  by (simp add: reads_ok_def fixed_env_def fixed_logdb_def mem_answers)

text \<open>A turn whose records are numbered two and four, in a log without a three.\<close>

definition holed_log :: "log_record list" where
  "holed_log =
     [stored_record (append_request mem_env (sample_event TaskCreated None None) 0) 1,
      stored_record (append_request mem_env (sample_event TurnStarted (Some 1) None) 0) 2,
      stored_record (append_request mem_env (sample_event TurnCompleted (Some 1) None) 0) 4]"

lemma sample_log_wf [simp]: "log_wf (mem_view sample_log ''n'' ''t'')"
  by (simp add: sample_log_view log_wf_def in_i64_def)

section \<open>Properties\<close>

text \<open>
  C33. The store keeps at most one terminal event for the session, for the task, for each turn and for the
  call of each step. A write to a log in that shape leaves it in that shape, also when the database reports an
  error after it has stored the record; and a write that would close something a second time is
  refused and leaves the log as it was.
\<close>

theorem write_keeps_terminals_unique:
  assumes "reads_ok (le_client env) v" "appends_ok (le_client env) v"
    and "log_write_event env e w = (r, w')"
    and "terminals_unique (v w ns st)"
  shows "terminals_unique (v w' ns st) \<and>
    (closed_by e \<noteq> None \<and> closed_by e \<in> closes ` set (v w (le_namespace env) (ae_task_id e)) \<longrightarrow>
       v w' = v w \<and> (\<exists>err. r = Inl err))"
  using write_event_effect [OF assms(1-3)]
proof
  assume "v w' = v w \<and> (\<exists>x. r = Inl x)"
  with assms(4) show ?thesis by simp
next
  assume "\<exists>now seq. v w' = extended (append_request env e now) seq (v w) \<and>
    (\<forall>c. closed_by e = Some c \<longrightarrow> (\<forall>x \<in> set (v w (le_namespace env) (ae_task_id e)). closes x \<noteq> Some c))"
  with assms(4) show ?thesis by (fastforce simp: extended_def terminals_unique_snoc)
qed

theorem write_keeps_terminals_unique_witness:
  "terminals_unique (mem_view (snd (log_write_event mem_env (sample_event TurnFailed (Some 1) None)
     [append_request mem_env (sample_event TurnCompleted (Some 1) None) 0])) ''n'' ''t'')"
  by (rule write_keeps_terminals_unique
        [where env = mem_env and v = mem_view and ns = "''n''" and st = "''t''"
          and w = "[append_request mem_env (sample_event TurnCompleted (Some 1) None) 0]",
         OF _ _ prod.collapse [symmetric], THEN conjunct1])
     (simp_all add: mem_view_def Let_def terminals_unique_def List.map_filter_simps sample_event_def
        split: option.split)

text \<open>
  A batch that is answered without an error is stored whole, after every event of it has been checked
  against the log as it was before the batch: nothing the log had closed is closed again. The events are
  not checked against each other, so two of them that close the same turn are both stored.
\<close>

theorem batch_checked_against_old_log:
  assumes "reads_ok (le_client env) v" "batches_ok (le_client env) v"
    and "log_write_events_batch env es w = (Inr seqs, w')" "es \<noteq> []"
  shows "length seqs = length es \<and>
    (\<forall>e \<in> set es. closed_by e \<noteq> None \<longrightarrow>
       closed_by e \<notin> closes ` set (v w (le_namespace env) (ae_task_id e))) \<and>
    List.map_filter closes (v w' (le_namespace env) t) =
      List.map_filter closes (v w (le_namespace env) t) @
      List.map_filter closed_by (filter (\<lambda>e. ae_task_id e = t) es)"
proof -
  from assms(3,4) obtain rqs w1 ss where
    reqs: "batch_requests env es w = (Inr rqs, w1)" and
    app: "lg_append_batch (le_client env) rqs w1 = (Inr (None, ss), w')" and
    seqs: "seqs = map wrap_i64 ss"
    by (auto simp: log_write_events_batch_def andThen_Inr_iff log_call_Inr_iff
        split: prod.splits option.splits)
  have "length ss = length rqs" "v w' = extended_batch (zip rqs ss) (v w1)"
    using assms(2) app unfolding batches_ok_def
    by (elim allE [of _ rqs] allE [of _ w1]; simp)+
  with batch_requests_result [OF assms(1) reqs] seqs show ?thesis
    by (auto simp: closes_extended_batch dest: list_all2_lengthD)
qed

theorem batch_checked_against_old_log_witness:
  "\<not> terminals_unique (mem_view (snd (log_write_events_batch mem_env
       [sample_event TurnCanceled (Some 1) None, sample_event TurnBlocked (Some 1) None] [])) ''n'' ''t'')"
proof -
  let ?es = "[sample_event TurnCanceled (Some 1) None, sample_event TurnBlocked (Some 1) None]"
  have "fst (log_write_events_batch mem_env ?es []) = Inr [1, 2]"
    by code_simp
  then obtain w' where w': "log_write_events_batch mem_env ?es [] = (Inr [1, 2], w')"
    by (metis prod.collapse)
  with batch_checked_against_old_log [OF _ _ w', of mem_view "''t''"] show ?thesis
    by (simp add: terminals_unique_def mem_view_def List.map_filter_simps sample_event_def closed_by_def)
qed

text \<open>
  C34. The state the test store derives from the log is the state the projection of the production store
  reaches on the same log, with one exception: a turn started while the task is ready makes it executing for
  the projection, and leaves it ready for the test store, which looks for a started turn only after
  \<open>task_claimed\<close>.
\<close>

theorem log_state_agrees_with_projection:
  assumes "reads_ok (le_client env) v" "log_wf (v w (le_namespace env) tid)"
    and "log_get_task_state env tid w = (r, w')"
  shows "case r of
      Inl x \<Rightarrow> \<exists>m. x = Internal m
    | Inr None \<Rightarrow> Some TaskCreated \<notin> record_type ` set (v w (le_namespace env) tid)
    | Inr (Some s) \<Rightarrow>
        Some TaskCreated \<in> record_type ` set (v w (le_namespace env) tid) \<and>
        (let p = tp_state (replay cd (map frame_of (v w (le_namespace env) tid)) (projection_new now tid))
         in s = (if p = Executing \<and> last_task_type (v w (le_namespace env) tid) = Some ''task_ready''
                 then Ready else p))"
proof -
  let ?rs = "v w (le_namespace env) tid"
  obtain k w1 where k: "read_task_records env tid w = (k, w1)" by force
  note read = read_task_records_result [OF assms(1) k]
  show ?thesis
  proof (cases k)
    case (Inl x)
    with read assms(3) k show ?thesis by (auto simp: log_get_task_state_def andThen_def)
  next
    case (Inr records)
    with read have recs: "records = filter is_task_record ?rs" and v1: "v w1 = v w" by simp_all
    have created: "list_ex is_created records \<longleftrightarrow> Some TaskCreated \<in> record_type ` set ?rs"
      by (auto simp: recs list_ex_iff is_created_iff is_task_record_def is_task_level_def image_iff
          eq_commute [of "Some TaskCreated"])
    show ?thesis
    proof (cases "list_ex is_created records")
      case False
      with assms(3) k Inr created show ?thesis by (auto simp: log_get_task_state_def andThen_def)
    next
      case True
      obtain d w2 where d: "derive_task_state env (filter is_task_record ?rs) tid w1 = (d, w2)" by force
      have r: "r = (case d of Inl x \<Rightarrow> Inl x | Inr st \<Rightarrow> Inr (Some st))"
        using assms(3) k Inr True d recs by (auto simp: log_get_task_state_def andThen_def split: sum.splits)
      have "case d of Inl x \<Rightarrow> \<exists>m. x = Internal m
        | Inr st \<Rightarrow> (let p = tp_state (replay cd (map frame_of ?rs) (projection_new now tid))
                    in st = (if p = Executing \<and> last_task_type ?rs = Some ''task_ready'' then Ready else p))"
        using derive_task_state_result [OF assms(1,2) _ d] v1
          derived_from_fold [OF assms(2) refl] replay_log_state [of cd ?rs now tid]
        by (simp add: Let_def split: sum.splits)
      with r created True show ?thesis by (cases d) (simp_all add: Let_def)
    qed
  qed
qed

theorem log_state_agrees_with_projection_witness:
  "fst (log_get_task_state mem_env ''t'' sample_log) = Inr (Some Ready) \<and>
   tp_state (replay (sample_codec JNull) (map frame_of (mem_view sample_log ''n'' ''t''))
     (projection_new 0 ''t'')) = Executing"
proof
  show exec: "tp_state (replay (sample_codec JNull) (map frame_of (mem_view sample_log ''n'' ''t''))
      (projection_new 0 ''t'')) = Executing"
    by (subst replay_log_state) (simp add: sample_log_view sample_event_def List.map_filter_simps)
  have "case fst (log_get_task_state mem_env ''t'' sample_log) of Inr (Some st) \<Rightarrow> True | _ \<Rightarrow> False"
    by code_simp
  then obtain st w' where run: "log_get_task_state mem_env ''t'' sample_log = (Inr (Some st), w')"
    by (cases "log_get_task_state mem_env ''t'' sample_log") (auto split: sum.splits option.splits)
  have "last_task_type (mem_view sample_log ''n'' ''t'') = Some ''task_ready''"
    by (simp add: last_task_type_def sample_log_view is_task_record_def is_task_level_def sample_event_def)
  with log_state_agrees_with_projection [OF _ _ run, of mem_view "sample_codec JNull" 0] exec
  have "st = Ready" by (simp add: Let_def)
  with run show "fst (log_get_task_state mem_env ''t'' sample_log) = Inr (Some Ready)" by simp
qed

text \<open>
  C35. The test store finds a turn's numbering continuous exactly when every number between the first and
  the last record of the turn is stored in the task's stream; a turn without records is continuous.
\<close>

theorem turn_continuity_exact:
  assumes "reads_ok (le_client env) v" "log_wf (v w (le_namespace env) tid)"
    and "log_is_turn_seq_continuous env tid turn w = (r, w')"
  shows "case r of
      Inl x \<Rightarrow> \<exists>m. x = Internal m
    | Inr b \<Rightarrow>
        b = (\<forall>lo \<in> seqs_of (turn_records turn (v w (le_namespace env) tid)).
             \<forall>hi \<in> seqs_of (turn_records turn (v w (le_namespace env) tid)).
             \<forall>n. lo \<le> n \<and> n \<le> hi \<longrightarrow> n \<in> seqs_of (v w (le_namespace env) tid))"
proof -
  let ?rs = "v w (le_namespace env) tid"
  define ts where "ts = seqs_of (turn_records turn ?rs)"
  let ?lo = "(query_for QMin)\<lparr>qr_metadata := of_turn turn\<rparr>"
  let ?hi = "(query_for QMax)\<lparr>qr_metadata := of_turn turn\<rparr>"
  note gaps = detect_seq_gaps_result [OF assms(1)] and query = run_query_result [OF assms(1)]
  show ?thesis
  proof (cases r)
    case (Inl x)
    with assms(3) show ?thesis
      by (auto simp: log_is_turn_seq_continuous_def elim!: andThen_cases dest!: gaps query)
  next
    case (Inr b)
    with assms(3) have "log_is_turn_seq_continuous env tid turn w = (Inr b, w')" by simp
    then obtain gs w1 lo w2 hi where
      g: "log_detect_seq_gaps env tid w = (Inr gs, w1)" and
      l: "run_query env tid ?lo w1 = (Inr lo, w2)" and h: "run_query env tid ?hi w2 = (Inr hi, w')" and
      b: "b = (\<not> list_ex (\<lambda>g. answered_min lo \<le> g \<and> g \<le> answered_max hi) gs)"
      unfolding log_is_turn_seq_continuous_def andThen_Inr_iff ok_apply prod.inject sum.inject by blast
    from gaps [OF g] query [OF l] query [OF h]
    have gs: "gs = gaps_of (map lr_seq ?rs)" and "answers ?rs ?lo lo" "answers ?rs ?hi hi" by auto
    note ends = turn_bounds_answered [OF assms(2) ts_def this(2,3)]
    have sub: "ts \<subseteq> seqs_of ?rs" by (auto simp: ts_def turn_records_def seqs_of_def)
    have b': "b \<longleftrightarrow> \<not> (\<exists>g. answered_min lo \<le> g \<and> g \<le> answered_max hi \<and> g - 1 \<in> seqs_of ?rs \<and>
        g \<notin> seqs_of ?rs \<and> (\<exists>m \<in> seqs_of ?rs. g < m))"
      using gaps_of_log [OF assms(2)] by (auto simp: b gs list_ex_iff)
    show ?thesis
    proof (cases "ts = {}")
      case True
      with ends b' log_wf_seqs [OF assms(2)] have b by force
      with True Inr show ?thesis by (simp add: ts_def)
    next
      case False
      with ends sub have bounds: "answered_min lo = Min ts" "answered_max hi = Max ts"
        "Min ts \<in> seqs_of ?rs" "Max ts \<in> seqs_of ?rs" by auto
      have "finite ts" by (simp add: ts_def seqs_of_def)
      from stretches_iff [OF this False] stretch_stored_iff [OF bounds(3,4)] b' bounds Inr
      show ?thesis by (simp add: ts_def)
    qed
  qed
qed

theorem turn_continuity_exact_witness:
  "fst (log_is_turn_seq_continuous fixed_env ''t'' 1 holed_log) = Inr False"
proof -
  have wf: "log_wf holed_log" by (simp add: holed_log_def log_wf_def in_i64_def)
  have "case fst (log_is_turn_seq_continuous fixed_env ''t'' 1 holed_log) of Inr b \<Rightarrow> True | Inl _ \<Rightarrow> False"
    by code_simp
  then obtain b w' where run: "log_is_turn_seq_continuous fixed_env ''t'' 1 holed_log = (Inr b, w')"
    by (cases "log_is_turn_seq_continuous fixed_env ''t'' 1 holed_log") (auto split: sum.splits)
  have turn: "seqs_of (turn_records 1 holed_log) = {2, 4}" "(3::int) \<notin> seqs_of holed_log"
    by (simp_all add: seqs_of_def turn_records_def holed_log_def sample_event_def)
  have "\<not> b"
    using turn_continuity_exact [OF fixed_reads_ok wf run]
    by (auto simp: turn intro!: exI [of _ 3])
  with run show ?thesis by simp
qed

text \<open>
  C36. On a log in which no turn is started again after it has ended, the turns the test store reports as
  incomplete, by a join inside the database, are the active turns of the production store's projection, in the
  order of their numbers.
\<close>

theorem incomplete_turns_agree_with_projection:
  assumes "reads_ok (le_client env) v" "log_wf (v w (le_namespace env) tid)"
    and "turn_ids_written (v w (le_namespace env) tid)" "starts_before_ends (v w (le_namespace env) tid)"
    and "log_get_incomplete_turns env tid w = (r, w')"
  shows "case r of
      Inl x \<Rightarrow> \<exists>m. x = Internal m
    | Inr ts \<Rightarrow>
        sorted (map it_turn_id ts) \<and>
        it_turn_id ` set ts =
          set (tp_active_turns (replay cd (map frame_of (v w (le_namespace env) tid)) (projection_new now tid)))"
proof -
  let ?rs = "v w (le_namespace env) tid"
  let ?q = "(query_for QRecords)\<lparr>qr_event_types := [''turn_started''],
      qr_absent := Some (turn_terminal_types, ''turn_id'')\<rparr>"
  obtain k w1 where q: "query_records env tid ?q w = (k, w1)" by force
  note result = query_records_result [OF assms(1) q]
  show ?thesis
  proof (cases k)
    case (Inl x)
    with result assms(5) q show ?thesis by (auto simp: log_get_incomplete_turns_def andThen_def)
  next
    case (Inr ms)
    with result have ms: "ms = filter (matches ?rs ?q) ?rs" by simp
    have start: "\<exists>n. starts_turn n x" if "x \<in> set ms" for x
    proof -
      from that ms have "record_type x = Some TurnStarted" "x \<in> set ?rs"
        by (auto simp: matches_def started_iff)
      with turn_key [OF assms(3), of x TurnStarted] show ?thesis
        by (auto simp: starts_turn_def is_turn_level_def)
    qed
    have "n \<in> (\<lambda>x. unwrap_or 0 (meta_turn_id (lr_metadata x))) ` set ms \<longleftrightarrow>
        (\<exists>x \<in> set ?rs. starts_turn n x) \<and> \<not> (\<exists>y \<in> set ?rs. ends_turn n y)" for n
    proof -
      have "n \<in> (\<lambda>x. unwrap_or 0 (meta_turn_id (lr_metadata x))) ` set ms \<longleftrightarrow>
          (\<exists>x \<in> set ms. starts_turn n x)"
      proof
        assume "n \<in> (\<lambda>x. unwrap_or 0 (meta_turn_id (lr_metadata x))) ` set ms"
        then obtain x where "x \<in> set ms" "n = unwrap_or 0 (meta_turn_id (lr_metadata x))" by blast
        with start [of x] show "\<exists>x \<in> set ms. starts_turn n x" by (auto simp: starts_turn_def)
      next
        assume "\<exists>x \<in> set ms. starts_turn n x"
        then show "n \<in> (\<lambda>x. unwrap_or 0 (meta_turn_id (lr_metadata x))) ` set ms"
          by (force simp: starts_turn_def)
      qed
      also have "\<dots> \<longleftrightarrow> (\<exists>x \<in> set ?rs. starts_turn n x \<and> \<not> (\<exists>y \<in> set ?rs. ends_turn n y))"
      proof -
        have "matches ?rs ?q x \<longleftrightarrow> \<not> (\<exists>y \<in> set ?rs. ends_turn n y)" if "x \<in> set ?rs" "starts_turn n x" for x
          using open_turn_matches [OF assms(3) that] .
        then show ?thesis unfolding ms set_filter by blast
      qed
      finally show ?thesis by blast
    qed
    then have "(\<lambda>x. unwrap_or 0 (meta_turn_id (lr_metadata x))) ` set ms =
        set (tp_active_turns (replay cd (map frame_of ?rs) (projection_new now tid)))"
      by (intro set_eqI) (simp only: active_turn_iff [OF assms(2,4)])
    moreover have "r = Inr (sort_key it_turn_id (map (incomplete_turn_of (le_codec env)) ms))"
      using assms(5) q Inr by (simp add: log_get_incomplete_turns_def andThen_def)
    moreover have "it_turn_id (incomplete_turn_of cd x) = unwrap_or 0 (meta_turn_id (lr_metadata x))" for cd x
      by (simp add: incomplete_turn_of_def Let_def)
    ultimately show ?thesis by (simp add: image_image)
  qed
qed

theorem incomplete_turns_agree_with_projection_witness:
  "fst (log_get_incomplete_turns mem_env ''t'' sample_log) =
     Inr [\<lparr>it_turn_id = 1, it_redo_group = ''unknown'', it_redo_count = 0, it_turn_started_at = 0\<rparr>] \<and>
   set (tp_active_turns (replay (sample_codec JNull) (map frame_of (mem_view sample_log ''n'' ''t''))
     (projection_new 0 ''t''))) = {1}"
proof
  show fst: "fst (log_get_incomplete_turns mem_env ''t'' sample_log) =
     Inr [\<lparr>it_turn_id = 1, it_redo_group = ''unknown'', it_redo_count = 0, it_turn_started_at = 0\<rparr>]"
    by code_simp
  have keys: "turn_ids_written (mem_view sample_log ''n'' ''t'')"
    by (auto simp: turn_ids_written_def sample_log_view sample_event_def is_turn_level_def
        intro: exI [of _ 1])
  have order: "starts_before_ends (mem_view sample_log ''n'' ''t'')"
    by (simp add: starts_before_ends_def sample_log_view starts_turn_def ends_turn_def sample_event_def
        is_turn_terminal_def)
  from fst obtain w' where run: "log_get_incomplete_turns mem_env ''t'' sample_log =
      (Inr [\<lparr>it_turn_id = 1, it_redo_group = ''unknown'', it_redo_count = 0, it_turn_started_at = 0\<rparr>], w')"
    by (metis prod.collapse)
  show "set (tp_active_turns (replay (sample_codec JNull) (map frame_of (mem_view sample_log ''n'' ''t''))
     (projection_new 0 ''t''))) = {1}"
    using incomplete_turns_agree_with_projection [OF _ _ _ _ run, of mem_view "sample_codec JNull" 0]
      keys order by simp
qed

end
