(* ===== verification/Payloads.thy ===== *)
theory Payloads
  imports Models
begin

text \<open>
  The typed payloads of \<open>src/models.rs\<close> the crate exports beside the events, with the JSON their derived
  serialisers write: a field with \<open>skip_serializing_if = "Option::is_none"\<close> is left out when absent,
  an optional field without it is \<open>null\<close>. A float is the text it is printed as.
\<close>

record session_started_data =
  ss_agent_type :: string
  ss_initial_config :: json

definition session_started_json :: "session_started_data \<Rightarrow> json" where
  "session_started_json p =
     JObj [(''agent_type'', JStr (ss_agent_type p)), (''initial_config'', ss_initial_config p)]"

definition session_ended_json :: "string \<Rightarrow> json" where
  "session_ended_json reason = JObj [(''reason'', JStr reason)]"

record llm_invoked_data =
  li_step_type :: string
  li_model :: string
  li_messages :: "message list"
  li_tools :: "json list option"
  li_temperature :: "string option"
  li_local_seq :: int

definition llm_invoked_json :: "llm_invoked_data \<Rightarrow> json" where
  "llm_invoked_json p =
     JObj [(''step_type'', JStr (li_step_type p)), (''model'', JStr (li_model p)),
           (''messages'', JArr (map message_json (li_messages p))),
           (''tools'', opt_json JArr (li_tools p)),
           (''temperature'', opt_json JFloat (li_temperature p)), (''local_seq'', JInt (li_local_seq p))]"

record llm_completed_data =
  lc_model :: string
  lc_content :: "string option"
  lc_tool_calls :: "tool_call list option"
  lc_usage :: "usage option"
  lc_finish_reason :: "string option"
  lc_local_seq :: int

definition llm_completed_json :: "llm_completed_data \<Rightarrow> json" where
  "llm_completed_json p =
     JObj [(''model'', JStr (lc_model p)), (''content'', opt_json JStr (lc_content p)),
           (''tool_calls'', opt_json (\<lambda>cs. JArr (map tool_call_json cs)) (lc_tool_calls p)),
           (''usage'', opt_json usage_json (lc_usage p)),
           (''finish_reason'', opt_json JStr (lc_finish_reason p)),
           (''local_seq'', JInt (lc_local_seq p))]"

record llm_failed_data =
  lf_error_type :: string
  lf_error_message :: string
  lf_failure_reason :: "failure_reason option"
  lf_attempt :: int
  lf_local_seq :: int

definition llm_failed_json :: "llm_failed_data \<Rightarrow> json" where
  "llm_failed_json p =
     JObj ([(''error_type'', JStr (lf_error_type p)), (''error_message'', JStr (lf_error_message p))]
           @ opt_entry ''failure_reason'' failure_reason_json (lf_failure_reason p)
           @ [(''attempt'', JInt (lf_attempt p)), (''local_seq'', JInt (lf_local_seq p))])"

record tool_invoked_data =
  ti_step_type :: string
  ti_tool_name :: string
  ti_tool_call_id :: string
  ti_idempotency_key :: string
  ti_input :: json
  ti_parent_step_id :: "string option"
  ti_local_seq :: int

definition tool_invoked_json :: "tool_invoked_data \<Rightarrow> json" where
  "tool_invoked_json p =
     JObj [(''step_type'', JStr (ti_step_type p)), (''tool_name'', JStr (ti_tool_name p)),
           (''tool_call_id'', JStr (ti_tool_call_id p)),
           (''idempotency_key'', JStr (ti_idempotency_key p)), (''input'', ti_input p),
           (''parent_step_id'', opt_json JStr (ti_parent_step_id p)),
           (''local_seq'', JInt (ti_local_seq p))]"

record tool_completed_data =
  tl_tool_call_id :: string
  tl_output :: json
  tl_is_error :: bool
  tl_local_seq :: int

definition tool_completed_json :: "tool_completed_data \<Rightarrow> json" where
  "tool_completed_json p =
     JObj [(''tool_call_id'', JStr (tl_tool_call_id p)), (''output'', tl_output p),
           (''is_error'', JBool (tl_is_error p)), (''local_seq'', JInt (tl_local_seq p))]"

record tool_failed_data =
  tf_tool_call_id :: string
  tf_error_type :: string
  tf_error_message :: string
  tf_failure_reason :: "failure_reason option"
  tf_attempt :: int
  tf_local_seq :: int

definition tool_failed_json :: "tool_failed_data \<Rightarrow> json" where
  "tool_failed_json p =
     JObj ([(''tool_call_id'', JStr (tf_tool_call_id p)), (''error_type'', JStr (tf_error_type p)),
            (''error_message'', JStr (tf_error_message p))]
           @ opt_entry ''failure_reason'' failure_reason_json (tf_failure_reason p)
           @ [(''attempt'', JInt (tf_attempt p)), (''local_seq'', JInt (tf_local_seq p))])"

text \<open>A payload of any of these types, and of those of \<open>Models\<close>, with the event it is for.\<close>

datatype typed_payload =
    PSessionStarted session_started_data
  | PSessionEnded string
  | PSummaryMarker int int string int
  | PTurnStarted string string int
  | PTurnCompleted string
  | PTurnFailed string string "failure_reason option" "string option"
  | PLlmInvoked llm_invoked_data
  | PLlmCompleted llm_completed_data
  | PLlmFailed llm_failed_data
  | PToolInvoked tool_invoked_data
  | PToolCompleted tool_completed_data
  | PToolFailed tool_failed_data

fun typed_event :: "typed_payload \<Rightarrow> event_type" where
  "typed_event (PSessionStarted p) = SessionStarted"
| "typed_event (PSessionEnded r) = SessionEnded"
| "typed_event (PSummaryMarker t q s n) = SummaryMarker"
| "typed_event (PTurnStarted u g n) = TurnStarted"
| "typed_event (PTurnCompleted out) = TurnCompleted"
| "typed_event (PTurnFailed t m r st) = TurnFailed"
| "typed_event (PLlmInvoked p) = LlmInvoked"
| "typed_event (PLlmCompleted p) = LlmCompleted"
| "typed_event (PLlmFailed p) = LlmFailed"
| "typed_event (PToolInvoked p) = ToolInvoked"
| "typed_event (PToolCompleted p) = ToolCompleted"
| "typed_event (PToolFailed p) = ToolFailed"

fun typed_json :: "typed_payload \<Rightarrow> json" where
  "typed_json (PSessionStarted p) = session_started_json p"
| "typed_json (PSessionEnded r) = session_ended_json r"
| "typed_json (PSummaryMarker t q s n) = summary_marker_payload t q s n"
| "typed_json (PTurnStarted u g n) = turn_started_payload u g n"
| "typed_json (PTurnCompleted out) = turn_completed_payload out"
| "typed_json (PTurnFailed t m r st) = turn_failed_payload t m r st"
| "typed_json (PLlmInvoked p) = llm_invoked_json p"
| "typed_json (PLlmCompleted p) = llm_completed_json p"
| "typed_json (PLlmFailed p) = llm_failed_json p"
| "typed_json (PToolInvoked p) = tool_invoked_json p"
| "typed_json (PToolCompleted p) = tool_completed_json p"
| "typed_json (PToolFailed p) = tool_failed_json p"

section \<open>Typed payloads against the check of a write\<close>

lemma llm_completed_usage_missing:
  "lc_usage p = None \<Longrightarrow>
     validate_payload_required_fields LlmCompleted (llm_completed_json p) =
       Inl (PayloadValidation ''llm_completed'' ''usage.prompt_tokens'')"
  by (simp add: validate_payload_required_fields_def llm_completed_json_def opt_json_def
      field_missing_def is_null_def)

lemma llm_completed_usage_given:
  "lc_usage p = Some u \<Longrightarrow>
     validate_payload_required_fields LlmCompleted (llm_completed_json p) = Inr ()"
  by (simp add: validate_payload_required_fields_def llm_completed_json_def opt_json_def usage_json_def
      field_missing_def is_null_def)

text \<open>
  C38. Every typed payload has the fields a write demands of its event, with one exception: the payload
  of a completed call without usage. Its serialiser writes \<open>usage\<close> as \<open>null\<close>, which the check takes for
  a usage without token counts, so the write is refused although the field is optional.
\<close>

theorem typed_payloads_accepted:
  "validate_payload_required_fields (typed_event p) (typed_json p) =
     (if \<exists>d. p = PLlmCompleted d \<and> lc_usage d = None
      then Inl (PayloadValidation ''llm_completed'' ''usage.prompt_tokens'')
      else Inr ())"
proof (cases p)
  case (PLlmCompleted d)
  then show ?thesis
    by (cases "lc_usage d") (simp_all add: llm_completed_usage_missing llm_completed_usage_given)
qed (simp_all add: validate_payload_required_fields_def summary_marker_payload_def llm_invoked_json_def
      tool_invoked_json_def field_missing_def is_null_def)

end
