(* ===== verification/Routes.thy ===== *)
theory Routes
  imports Fixus_Prelude
begin

text \<open>
  The routing table of \<open>build_router\<close> in \<open>src/server.rs\<close>. How the HTTP library picks a route is not modelled:
  the table is shown to leave it no choice, since no URL and method is an instance of two routes.
\<close>

datatype http_method = HttpGet | HttpPost | HttpPut

text \<open>A segment of a path: literal text, or the name of a parameter.\<close>

datatype segment = Lit string | Param string

datatype endpoint =
  CreateSession | GetSession | EndSession | MarkReady | GetTaskState
| StartTurn | GetTurn | CompleteTurn | FailTurn | CancelTurn
| RecordEvent | RecordEventsBatch | GetContext | GetTurnContext
| GetRecovery | ApplyRecovery | WriteSummary | GetTokenUsage
| Health | MetricsText | SetTenantPolicy

type_synonym route = "segment list \<times> http_method \<times> endpoint"

definition api_prefix :: "segment list" where
  "api_prefix = [Lit ''api'', Lit ''v1'']"

definition task_path :: "segment list" where
  "task_path = api_prefix @ [Lit ''sessions'', Param ''task_id'']"

definition turn_path :: "segment list" where
  "turn_path = task_path @ [Lit ''turns'', Param ''turn_id'']"

definition build_router :: "route list" where
  "build_router =
     [(api_prefix @ [Lit ''sessions''], HttpPost, CreateSession),
      (task_path, HttpGet, GetSession),
      (task_path @ [Lit ''end''], HttpPost, EndSession),
      (task_path @ [Lit ''ready''], HttpPost, MarkReady),
      (task_path @ [Lit ''state''], HttpGet, GetTaskState),
      (task_path @ [Lit ''turns''], HttpPost, StartTurn),
      (turn_path, HttpGet, GetTurn),
      (turn_path @ [Lit ''complete''], HttpPost, CompleteTurn),
      (turn_path @ [Lit ''fail''], HttpPost, FailTurn),
      (turn_path @ [Lit ''cancel''], HttpPost, CancelTurn),
      (task_path @ [Lit ''events''], HttpPost, RecordEvent),
      (task_path @ [Lit ''events'', Lit ''batch''], HttpPost, RecordEventsBatch),
      (task_path @ [Lit ''context''], HttpGet, GetContext),
      (turn_path @ [Lit ''context''], HttpGet, GetTurnContext),
      (task_path @ [Lit ''recovery''], HttpGet, GetRecovery),
      (task_path @ [Lit ''recovery'', Lit ''apply''], HttpPost, ApplyRecovery),
      (task_path @ [Lit ''summary''], HttpPost, WriteSummary),
      (task_path @ [Lit ''token-usage''], HttpGet, GetTokenUsage),
      ([Lit ''health''], HttpGet, Health),
      ([Lit ''metrics''], HttpGet, MetricsText),
      (api_prefix @ [Lit ''tenants'', Param ''tenant_id'', Lit ''policy''], HttpPut, SetTenantPolicy)]"

section \<open>Paths\<close>

text \<open>The path of a pattern for given values of its parameters, and the number of its parameters.\<close>

fun fill :: "segment list \<Rightarrow> string list \<Rightarrow> string list" where
  "fill [] ps = []"
| "fill (Lit t # pat) ps = t # fill pat ps"
| "fill (Param x # pat) (p # ps) = p # fill pat ps"
| "fill (Param x # pat) [] = [] # fill pat []"

definition arity :: "segment list \<Rightarrow> nat" where
  "arity pat = length (filter (\<lambda>s. case s of Param _ \<Rightarrow> True | Lit _ \<Rightarrow> False) pat)"

lemma arity_simps [simp]:
  "arity [] = 0" "arity (Lit t # pat) = arity pat" "arity (Param x # pat) = Suc (arity pat)"
  by (simp_all add: arity_def)

text \<open>The values of the parameters, read off a path.\<close>

fun captured :: "segment list \<Rightarrow> string list \<Rightarrow> string list" where
  "captured (Lit t # pat) (x # xs) = captured pat xs"
| "captured (Param n # pat) (x # xs) = x # captured pat xs"
| "captured _ _ = []"

lemma captured_fill: "length ps = arity pat \<Longrightarrow> captured pat (fill pat ps) = ps"
  by (induction pat ps rule: fill.induct) auto

text \<open>Two patterns with a common path.\<close>

fun overlaps :: "segment list \<Rightarrow> segment list \<Rightarrow> bool" where
  "overlaps [] [] = True"
| "overlaps (Lit s # p) (Lit t # q) = (s = t \<and> overlaps p q)"
| "overlaps (_ # p) (_ # q) = overlaps p q"
| "overlaps _ _ = False"

lemma length_fill [simp]: "length (fill pat ps) = length pat"
  by (induction pat ps rule: fill.induct) auto

lemma fill_Cons: "\<exists>y zs. fill (s # p) xs = y # fill p zs \<and> (\<forall>t. s = Lit t \<longrightarrow> y = t)"
  by (cases s; cases xs) auto

lemma common_path_overlaps: "fill p xs = fill q ys \<Longrightarrow> overlaps p q"
proof (induction p arbitrary: q xs ys)
  case Nil
  then show ?case using length_fill [of q ys] by simp
next
  case (Cons s p)
  have "length (s # p) = length q" using arg_cong [OF Cons.prems, of length] by simp
  then obtain t q' where q: "q = t # q'" by (cases q) auto
  obtain y us where s: "fill (s # p) xs = y # fill p us" "\<forall>u. s = Lit u \<longrightarrow> y = u"
    using fill_Cons [of s p xs] by auto
  obtain z vs where t: "fill (t # q') ys = z # fill q' vs" "\<forall>u. t = Lit u \<longrightarrow> z = u"
    using fill_Cons [of t q' ys] by auto
  have "y = z" and rest: "fill p us = fill q' vs" using Cons.prems q s(1) t(1) by simp_all
  have "overlaps p q'" using rest by (rule Cons.IH)
  with \<open>y = z\<close> s(2) t(2) show ?case unfolding q by (cases s; cases t) simp_all
qed

text \<open>Every two routes are told apart by their paths, checked by evaluation over the table.\<close>

fun pairwise :: "('a \<Rightarrow> 'a \<Rightarrow> bool) \<Rightarrow> 'a list \<Rightarrow> bool" where
  "pairwise r [] = True"
| "pairwise r (x # xs) = (list_all (r x) xs \<and> pairwise r xs)"

lemma pairwiseD: "pairwise r xs \<Longrightarrow> x \<in> set xs \<Longrightarrow> y \<in> set xs \<Longrightarrow> x = y \<or> r x y \<or> r y x"
  by (induction xs) (auto simp: list_all_iff)

lemma overlaps_commute: "overlaps p q = overlaps q p"
  by (induction p q rule: overlaps.induct) (auto elim: overlaps.elims)

lemma table_apart: "pairwise (\<lambda>a b. \<not> overlaps (fst a) (fst b)) build_router"
  by code_simp

section \<open>Properties\<close>

text \<open>
  C40. Routing leaves no choice: if a path is an instance of the patterns of two routes of the table, then
  these are one route, and the parameters read off the path are the same.
\<close>

theorem routes_unambiguous:
  assumes "(p, m, e) \<in> set build_router" "(q, m', e') \<in> set build_router"
    and "length xs = arity p" "length ys = arity q" "fill p xs = fill q ys"
  shows "p = q \<and> m = m' \<and> e = e' \<and> xs = ys"
proof -
  have "overlaps p q" using assms(5) by (rule common_path_overlaps)
  then have "(p, m, e) = (q, m', e')"
    using pairwiseD [OF table_apart assms(1,2)] overlaps_commute by auto
  moreover from this have "xs = ys"
    by (metis captured_fill assms(3-5) prod.inject)
  ultimately show ?thesis by simp
qed

theorem routes_unambiguous_witness:
  "(turn_path, HttpGet, GetTurn) \<in> set build_router \<and> arity turn_path = 2 \<and>
   turn_path = turn_path \<and> HttpGet = HttpGet \<and> GetTurn = GetTurn \<and> [''7'', ''8''] = [''7'', ''8'']"
proof -
  have route: "(turn_path, HttpGet, GetTurn) \<in> set build_router" by (simp add: build_router_def)
  have two: "length [''7'', ''8''] = arity turn_path"
    by (simp add: turn_path_def task_path_def api_prefix_def)
  from routes_unambiguous [OF route route two two refl] route two show ?thesis by simp
qed

end
