(* ===== verification/Spec2Isabelle.thy ===== *)
theory Spec2Isabelle
  imports Policy Orchestrator_Properties Tools_Bank_Properties Server_Properties Fixlet_Contracts Stream_Server Logdbd_Properties Payloads Routes
begin

text \<open>
  A model of fixus, the task orchestrator of lv-fixus, and of what it promises.

  The system. An operator creates tasks over HTTP. Each task is an append-only stream of events in a
  broker; what the program knows of a task is a fold of its stream. The orchestrator starts turns of a
  task, queues them and writes dispatch records to the broker. A fixlet claims the dispatch records of
  its agent type, has an agent process work on the turn one prompt at a time, and reports what happens
  as records of the stream \<open>task-end\<close>. The agent calls tools at the tools bank, which checks the policy
  the orchestrator attached to the turn, runs the tool in a sandbox behind the broker or through a web
  hook, and reports each call as a pair of step events. The orchestrator's consumers turn both kinds of
  reports into events of the task and wake whoever waits for the turn. A stream server replays and
  follows the events of a turn for browsers. After a crash, recovery reads the stream and closes or
  redoes what was left open.

  Which theory holds which part (paths are under \<open>src/\<close>).

  \<^item> \<open>Fixus_Prelude\<close>: results, state passing, casts, decimal numbers, JSON values, association maps.

  \<^item> \<open>Models\<close>: \<open>src/models.rs\<close> and \<open>src/error.rs\<close>; event types, the event record and its scope rule
    (\<open>EventWrite::check_scope\<close>), the task state machine, the guard of a write, failure reasons, required
    payload fields, the conversion between events and JSON. \<open>Payloads\<close>: the typed payloads of
    \<open>src/models.rs\<close> with the JSON their serialisers write.

  \<^item> \<open>Retry\<close> (\<open>src/retry.rs\<close>), \<open>Dispatcher\<close> (\<open>src/dispatcher.rs\<close>), \<open>Policy\<close> (\<open>src/policy.rs\<close>),
    \<open>Registry\<close> (\<open>src/task_registry.rs\<close>), \<open>Metrics\<close> (\<open>src/metrics.rs\<close>): one component each.

  \<^item> \<open>Projection\<close> and \<open>Projection_Cache\<close>: \<open>src/projection.rs\<close>; the fold of a task's events with its
    queries, then the LRU cache and the catch-up from the broker.

  \<^item> \<open>Event_Store\<close>: the \<open>EventStore\<close> trait of \<open>src/storage.rs\<close> as a record of its methods, with its
    contract as the locale \<open>projected_store\<close>. \<open>Broker_Store\<close>: \<open>src/broker_store.rs\<close>, the store of
    production, and the interpretation \<open>bs\<close> of the contract.

  \<^item> \<open>Logdbd_Store\<close>: \<open>LogdbdEventStore\<close> of \<open>src/storage.rs\<close>, the store the tests of the repository run
    on, over a client of the log database that is a parameter. \<open>Logdbd_Properties\<close> states what the comments
    there say the database does (\<open>reads_ok\<close>, \<open>appends_ok\<close>, \<open>batches_ok\<close>), gives a database in memory that does
    it, and compares the store with the projection of the production store.

  \<^item> \<open>Service\<close> (\<open>src/service.rs\<close>), \<open>Recovery\<close> (\<open>src/recovery.rs\<close>), \<open>Context_Builder\<close>
    (\<open>src/context.rs\<close>): written against the record of methods, as the code is written against the
    trait. \<open>Store_Properties\<close> carries their lemmas over to the production store.

  \<^item> \<open>Consumer_Group\<close>: the receive loop that the consumers of \<open>src/orchestrator.rs\<close>, of the tools bank and
    of the fixlet share, and the loop around it that joins again. The locale \<open>record_handler\<close> is what they
    promise of their handlers; it is interpreted for each of the four.

  \<^item> \<open>Orchestrator\<close>, \<open>Orchestrator_Invariants\<close>, \<open>Orchestrator_Properties\<close>: \<open>src/orchestrator.rs\<close>;
    its state is the store's with the registry, the dispatcher, the retry counters, the times of
    dispatch and the metrics.

  \<^item> \<open>Tool_Catalog\<close>: \<open>crates/tool-catalog/src/lib.rs\<close>. \<open>Tool_Adapter\<close>, \<open>Tools_Bank\<close> and
    \<open>Tools_Bank_Properties\<close>: \<open>src/bin/tools-bank/adapter.rs\<close> and \<open>main.rs\<close>.

  \<^item> \<open>Server\<close> and \<open>Server_Properties\<close>: \<open>src/server.rs\<close> with the messages of \<open>src/protocol.rs\<close>.
    \<open>Routes\<close>: its routing table.

  \<^item> \<open>Acp\<close>: \<open>src/bin/fixlet/acp.rs\<close> and \<open>backend.rs\<close>. \<open>Fixlet\<close>: \<open>router.rs\<close>, \<open>idempotency.rs\<close> and
    \<open>main.rs\<close> beside them. \<open>Fixlet_Properties\<close>: what a fixlet promises. \<open>Fixlet_Contracts\<close>: that what
    the orchestrator, a fixlet and the tools bank write is what the next of them reads.

  \<^item> \<open>Stream_Server\<close>: \<open>src/bin/fixus-stream/main.rs\<close>.

  How state and operations correspond. A struct is a record and an enum a datatype with the names of
  the source, prefixed where two structs share a field name. A method on \<open>&mut self\<close> takes the state
  and returns it updated; a fallible one returns \<open>Inl\<close> of the error or \<open>Ok\<close> of the value, with the
  state either way, so that what was done before an early return stays done. A handler runs to its end
  in one step; where the code awaits something long (a turn's outcome, a tool's result, a back-off), what
  the rest of the process does meanwhile is a list of events, executed by the model's own operations. A job
  the code spawns is a value the operation returns and the runtime runs later. Strings are lists of
  bytes with the classes of ASCII; where the code asks for Unicode letters and digits (the names of tenant
  streams), the bytes are read as UTF-8 and the table of those characters is a parameter. A panic is the error
  of \<open>panic\<close>, or None where a function yields nothing else. Instants and durations are nanoseconds. A counter is a word
  of its width where it can wrap or saturate, a natural number where the code bounds it.

  What is a parameter: the broker with its clock and its source of identifiers, the codec of records, the order
  a hash map is iterated in, TOML and JSON text, digests, HTTP, the processes of agents and what they write, the
  sandbox and the web hooks, and the schedule of the runtime. Assumptions on them are hypotheses of the
  theorems that need them (a codec decodes what it encoded, say), each met in a witness.

  What the lemmas show.

  \<^item> Components on their own: the dispatcher is a refinement of a bag served by priority then arrival, within
    capacity, for up to \<open>2 ^ 64\<close> operations of its sequence counter; the projection follows the task
    state machine given as a step relation and its indexes are the events they should be; the cache holds
    exact replays; a resolved policy is no wider than any of its sources; the retry budget is
    exact; the tool catalog is well formed whatever the operator supplies.

  \<^item> The store and the services: a write is checked and then applied; transitions move to their target;
    an event
    that was written is read back from the projection; recovery closes or redoes every turn that was left open and
    is never in between. The test store keeps
    terminal events unique, and its answers on states, open turns and numbering are compared with the
    projection's.

  \<^item> The consumers: a group is a sequence of assignments of shards to members and of deliveries, a shard read on
    from its last commit by whichever member has it. However many members compete, and whichever sessions fail,
    break or lose their commits, what has been delivered of a shard is an unbroken stretch from where the group
    last stood, and the members have handled all of it in order, some of it twice.

  \<^item> The edges: no URL fits two routes; the metrics are made and registered without a panic, and a scrape shows
    exactly the series that were recorded, with one value per label of their metric; a typed payload is accepted by the check of a write, but for the
    completed call without usage.

  \<^item> The orchestrator: a state predicate (capacity of the dispatcher, single use of waiters, exact gauges,
    retry counters within budget) is kept by every operation. \<open>orch_base\<close>, \<open>orch_frame\<close>,
    \<open>orch_invariant\<close> and \<open>orch_runtime\<close> state what the primitive changes must keep and derive each
    operation once; they are interpreted for the invariant itself (\<open>ok\<close>, \<open>ok_rt\<close>), for parts of the state
    an operation leaves alone (\<open>same_queue\<close>, \<open>same_registry\<close>), and for the whole server (\<open>server_rt\<close>).
    Waiting callers are always answered, the queue is always worked off, and a completion is written
    before anyone hears of it.

  \<^item> The tools bank: \<open>bank_adapter\<close> is the promise of an adapter; the sandbox and the web hook are its
    interpretations, so that a call is answered and reported once whichever of them runs it.

  \<^item> The fixlet: a claimed turn is handed to the agent, its answer is reported whole, a failure or
    the loss of the agent is reported as such, and the router and the agent's side agree about their handles.

  \<^item> Across programs: the policy a turn is dispatched with is the one the tools bank checks its tool
    calls against; an agent's report and a tool's step events reach the handlers of the orchestrator they are
    meant for; a client that joins the stream late sees the turn once and in order, as far as the history and the
    subscribed types go.

  Where the code does not do what it says, the theorem states what it does: a retry that cannot be dispatched
  keeps its slot, an interrupted turn is not reported, the end of a turn over HTTP is noted in the store only,
  and a batch of events is written without the checks of a single write.

  Bounds. A dispatch waits at most 30 times for a new task to become visible and tries 10 times to
  resolve it, a tool is dispatched at most 3 times; these are the source's constants. The loop over pending
  turns has as fuel the number of pending turns plus one, and each round removes a turn or stops. A
  caller's wait takes at most as many rounds as it has deadlines. All other recursion is
  structural or has a termination proof.

  Not modelled: how the HTTP library picks a route and extracts paths and bodies, pipes and signals of
  processes, tracing, the start-up code of the binaries (connecting, binding ports), the benchmarks, the
  text format of metrics, the reading wrappers of \<open>src/service.rs\<close> that only call the store, and the variant
  \<open>Timeout\<close> of an outcome, which nothing sends. The connection of the test store to its
  database is left out, and so is what the database does when it is reached from several processes.
\<close>

end
